(* ===== verification/M65_Prelude.thy ===== *)
theory M65_Prelude
  imports Main "HOL-Library.Word"
begin

unbundle bit_operations_syntax

text \<open>
  Shared vocabulary of the development: the C integer types of the program as words, byte
  buffers as lists with the bulk operations memset/memcpy perform on them, and C strings
  with the truncation snprintf performs.

  A buffer of \<open>n\<close> bytes is a list of length \<open>n\<close>; a pointer into it is an offset. A C string is
  the list of its characters before the terminating NUL. \<open>size_t\<close> is \<open>nat\<close> wherever the code
  only adds and compares quantities bounded by its own buffers; the 8, 16 and 32 bit integers
  are words.
\<close>

named_theorems m65_buf \<open>length and element facts of buffer updates\<close>
named_theorems m65_cstr \<open>facts about bounded C strings\<close>

type_synonym u8 = "8 word"
type_synonym u16 = "16 word"
type_synonym u32 = "32 word"
type_synonym bytes = "u8 list"

section \<open>Buffers\<close>

text \<open>\<open>memcpy (&buf[off], src, length src)\<close>; the caller guarantees that it fits.\<close>

definition buf_write :: "nat \<Rightarrow> 'a list \<Rightarrow> 'a list \<Rightarrow> 'a list" where
  "buf_write off src buf = take off buf @ src @ drop (off + length src) buf"

lemma length_buf_write [m65_buf]:
  "off + length src \<le> length buf \<Longrightarrow> length (buf_write off src buf) = length buf"
  by (simp add: buf_write_def)

lemma nth_buf_write [m65_buf]:
  assumes "off + length src \<le> length buf" and "i < length buf"
  shows "buf_write off src buf ! i =
           (if off \<le> i \<and> i < off + length src then src ! (i - off) else buf ! i)"
proof -
  have "take off buf ! i = buf ! i" if "i < off" using that by simp
  moreover have "drop (off + length src) buf ! (i - off - length src) = buf ! i"
    if "off + length src \<le> i" using that assms by (simp add: add.commute)
  ultimately show ?thesis
    using assms by (auto simp: buf_write_def nth_append not_less)
qed

lemma take_buf_write_0: "length src \<le> length buf \<Longrightarrow> take (length src) (buf_write 0 src buf) = src"
  by (simp add: buf_write_def)

lemma buf_write_0_full: "length src = length buf \<Longrightarrow> buf_write 0 src buf = src"
  by (simp add: buf_write_def)

lemma drop_take_buf_write:
  "off + length src \<le> length buf \<Longrightarrow> take (length src) (drop off (buf_write off src buf)) = src"
  by (simp add: buf_write_def)

text \<open>\<open>memset (buf, 0, n)\<close> of a buffer of \<open>n\<close> bytes.\<close>

definition zeroed :: "nat \<Rightarrow> bytes" where
  "zeroed n = replicate n 0"

lemma length_zeroed [simp]: "length (zeroed n) = n"
  by (simp add: zeroed_def)

lemma nth_zeroed [simp]: "i < n \<Longrightarrow> zeroed n ! i = 0"
  by (simp add: zeroed_def)

text \<open>An adapter that fills a buffer of \<open>n\<close> bytes writes at most \<open>n\<close> bytes into it.\<close>

definition fill_buffer :: "bytes \<Rightarrow> bytes \<Rightarrow> bytes" where
  "fill_buffer new buf = buf_write 0 (take (length buf) new) buf"

lemma length_fill_buffer [simp]: "length (fill_buffer new buf) = length buf"
  by (simp add: fill_buffer_def length_buf_write)

lemma fill_buffer_full: "length new = length buf \<Longrightarrow> fill_buffer new buf = new"
  by (simp add: fill_buffer_def buf_write_0_full)

lemma fill_buffer_Nil [simp]: "fill_buffer [] buf = buf"
  by (simp add: fill_buffer_def buf_write_def)

section \<open>C strings\<close>

definition M65_MAX_ERROR_TEXT :: nat where
  "M65_MAX_ERROR_TEXT = 256"

text \<open>\<open>snprintf (dst, size, "%s", text)\<close> with \<open>size > 0\<close>.\<close>

definition snprintf_str :: "nat \<Rightarrow> string \<Rightarrow> string" where
  "snprintf_str n text = take (n - 1) text"

definition error_text :: "string \<Rightarrow> string" where
  "error_text text = snprintf_str M65_MAX_ERROR_TEXT text"

lemma length_snprintf_str [m65_cstr]: "0 < n \<Longrightarrow> length (snprintf_str n text) < n"
  by (simp add: snprintf_str_def)

lemma length_error_text [m65_cstr]: "length (error_text text) < 256"
  by (simp add: error_text_def M65_MAX_ERROR_TEXT_def snprintf_str_def)

lemma error_text_short [m65_cstr]: "length text < 256 \<Longrightarrow> error_text text = text"
  by (simp add: error_text_def M65_MAX_ERROR_TEXT_def snprintf_str_def)

lemma error_text_eq_Nil [simp]: "error_text text = [] \<longleftrightarrow> text = []"
  by (simp add: error_text_def M65_MAX_ERROR_TEXT_def snprintf_str_def)

lemma error_text_idem [simp]: "error_text (error_text text) = error_text text"
  by (simp add: error_text_def M65_MAX_ERROR_TEXT_def snprintf_str_def)

text \<open>A \<open>char\<close> array read as a C string ends at its first NUL.\<close>

definition c_str :: "string \<Rightarrow> string" where
  "c_str buf = takeWhile (\<lambda>c. of_char c \<noteq> (0 :: nat)) buf"

definition char_of_byte :: "u8 \<Rightarrow> char" where
  "char_of_byte b = char_of (unat b)"

text \<open>\<open>%02x\<close> and \<open>%04x\<close> of an unsigned value: at least the given number of lower-case digits.\<close>

definition hex_digit :: "nat \<Rightarrow> char" where
  "hex_digit n = ''0123456789abcdef'' ! (n mod 16)"

fun hex_digits :: "nat \<Rightarrow> nat \<Rightarrow> string" where
  "hex_digits 0 n = []"
| "hex_digits (Suc w) n = hex_digits w (n div 16) @ [hex_digit n]"

lemma length_hex_digits [simp]: "length (hex_digits w n) = w"
  by (induction w arbitrary: n) simp_all

text \<open>\<open>%zu\<close>, \<open>%llu\<close> and \<open>%u\<close>: decimal digits without leading zeros.\<close>

fun dec_string :: "nat \<Rightarrow> string" where
  "dec_string n = (if n < 10 then [hex_digit n] else dec_string (n div 10) @ [hex_digit (n mod 10)])"

declare dec_string.simps [simp del]

section \<open>Bytes of words\<close>

text \<open>The code truncates to a byte after masking with \<open>0xff\<close>; the mask changes nothing.\<close>

lemma ucast_and_mask8: "(ucast (x AND mask 8) :: u8) = ucast x"
  by (rule bit_word_eqI) (auto simp: bit_simps dest: bit_imp_le_length)

lemma ucast_and_0xff [simp]: "(ucast (x AND 0xff) :: u8) = ucast x"
proof -
  have "(0xff :: 'a word) = mask 8" by (simp add: mask_eq_exp_minus_1)
  then show ?thesis using ucast_and_mask8 [of x] by simp
qed

lemma unat_u8_lt [simp]: "unat (x :: u8) < 256"
  using unsigned_less [of x] by simp

lemma unat_u16_lt [simp]: "unat (x :: u16) < 65536"
  using unsigned_less [of x] by simp

lemma unat_ucast_u8_u16 [simp]: "unat (ucast (x :: u8) :: u16) = unat x"
  using unat_u8_lt [of x] by (simp add: unsigned_ucast_eq take_bit_nat_eq_self_iff del: unat_u8_lt)

lemma unat_ucast_u8_u32 [simp]: "unat (ucast (x :: u8) :: u32) = unat x"
  using unat_u8_lt [of x] by (simp add: unsigned_ucast_eq take_bit_nat_eq_self_iff del: unat_u8_lt)

lemma unat_ucast_u16_u32 [simp]: "unat (ucast (x :: u16) :: u32) = unat x"
  using unat_u16_lt [of x] by (simp add: unsigned_ucast_eq take_bit_nat_eq_self_iff del: unat_u16_lt)

lemma unat_u32_lt [simp]: "unat (x :: u32) < 4294967296"
  using unsigned_less [of x] by simp

end
