(* ===== verification/M65_Layout.thy ===== *)
theory M65_Layout
  imports M65_Prelude
begin

text \<open>
  The 1581 layout translator (\<open>src/layout.c\<close>, \<open>include/m65/layout.h\<close>): Commodore tracks
  1..80 of 40 logical sectors of 256 bytes against 1600 physical blocks of 512 bytes, and
  the interleave policy. The arithmetic is the code's: \<open>uint32_t\<close> intermediate values,
  \<open>uint8_t\<close> fields, \<open>size_t\<close> byte offsets as \<open>nat\<close> (they stay below 819200). A NULL
  result pointer makes each function return false without effect and is not represented.
\<close>

section \<open>Constants and addresses\<close>

definition M65_BLOCK_SIZE :: nat where "M65_BLOCK_SIZE = 512"
definition M65_1581_BLOCKS :: nat where "M65_1581_BLOCKS = 1600"
definition M65_1581_IMAGE_SIZE :: nat where "M65_1581_IMAGE_SIZE = M65_BLOCK_SIZE * M65_1581_BLOCKS"
definition M65_1581_TRACK_COUNT :: nat where "M65_1581_TRACK_COUNT = 80"
definition M65_1581_HEAD_COUNT :: nat where "M65_1581_HEAD_COUNT = 2"
definition M65_1581_PHYSICAL_SECTORS_PER_HEAD :: nat where "M65_1581_PHYSICAL_SECTORS_PER_HEAD = 10"
definition M65_1581_PHYSICAL_SECTORS_PER_TRACK :: nat where "M65_1581_PHYSICAL_SECTORS_PER_TRACK = 20"
definition M65_1581_LOGICAL_SECTORS_PER_TRACK :: nat where "M65_1581_LOGICAL_SECTORS_PER_TRACK = 40"
definition M65_1581_LOGICAL_SECTOR_SIZE :: nat where "M65_1581_LOGICAL_SECTOR_SIZE = 256"

lemmas layout_consts =
  M65_BLOCK_SIZE_def M65_1581_BLOCKS_def M65_1581_IMAGE_SIZE_def M65_1581_TRACK_COUNT_def
  M65_1581_HEAD_COUNT_def M65_1581_PHYSICAL_SECTORS_PER_HEAD_def
  M65_1581_PHYSICAL_SECTORS_PER_TRACK_def M65_1581_LOGICAL_SECTORS_PER_TRACK_def
  M65_1581_LOGICAL_SECTOR_SIZE_def

text \<open>The three static assertions of the file.\<close>

lemma layout_static_asserts:
  "M65_1581_PHYSICAL_SECTORS_PER_TRACK = M65_1581_HEAD_COUNT * M65_1581_PHYSICAL_SECTORS_PER_HEAD"
  "M65_1581_LOGICAL_SECTORS_PER_TRACK * M65_1581_LOGICAL_SECTOR_SIZE =
     M65_1581_PHYSICAL_SECTORS_PER_TRACK * M65_BLOCK_SIZE"
  "M65_1581_TRACK_COUNT * M65_1581_PHYSICAL_SECTORS_PER_TRACK = M65_1581_BLOCKS"
  by (simp_all add: layout_consts)

record logical_address =
  la_track :: u8
  la_sector :: u8
  la_image_offset :: nat

record physical_address =
  pa_cylinder :: u8
  pa_head :: u8
  pa_sector_index :: u8
  pa_lba :: u32
  pa_byte_offset :: u16
  pa_image_offset :: nat

section \<open>Operations\<close>

definition m65_1581_logical_to_physical :: "u8 \<Rightarrow> u8 \<Rightarrow> physical_address option" where
  "m65_1581_logical_to_physical track sector =
     (if track = 0 \<or> unat track > M65_1581_TRACK_COUNT \<or>
         unat sector \<ge> M65_1581_LOGICAL_SECTORS_PER_TRACK
      then None
      else
        let cylinder = (ucast track :: u32) - 1;
            physical_sector = (ucast sector :: u32) div 2;
            lba = cylinder * of_nat M65_1581_PHYSICAL_SECTORS_PER_TRACK + physical_sector;
            half = (ucast sector :: u32) mod 2;
            byte_offset = (ucast (half * of_nat M65_1581_LOGICAL_SECTOR_SIZE) :: u16)
        in Some \<lparr>pa_cylinder = ucast cylinder,
                 pa_head = ucast (physical_sector div of_nat M65_1581_PHYSICAL_SECTORS_PER_HEAD),
                 pa_sector_index = ucast (physical_sector mod of_nat M65_1581_PHYSICAL_SECTORS_PER_HEAD),
                 pa_lba = lba,
                 pa_byte_offset = byte_offset,
                 pa_image_offset = unat lba * M65_BLOCK_SIZE + unat byte_offset\<rparr>)"

definition m65_1581_lba_to_logical :: "u32 \<Rightarrow> u16 \<Rightarrow> logical_address option" where
  "m65_1581_lba_to_logical lba byte_offset =
     (if unat lba \<ge> M65_1581_BLOCKS \<or>
         (byte_offset \<noteq> 0 \<and> unat byte_offset \<noteq> M65_1581_LOGICAL_SECTOR_SIZE)
      then None
      else
        let cylinder = lba div of_nat M65_1581_PHYSICAL_SECTORS_PER_TRACK;
            physical_sector = lba mod of_nat M65_1581_PHYSICAL_SECTORS_PER_TRACK;
            half = (ucast byte_offset :: u32) div of_nat M65_1581_LOGICAL_SECTOR_SIZE;
            logical_sector = physical_sector * 2 + half
        in Some \<lparr>la_track = ucast (cylinder + 1),
                 la_sector = ucast logical_sector,
                 la_image_offset = unat lba * M65_BLOCK_SIZE + unat byte_offset\<rparr>)"

text \<open>
  \<open>memcpy\<close> of 256 bytes out of the image; the image pointer may be NULL and the length is
  the caller's claim about the buffer it points to.
\<close>

definition m65_1581_copy_logical_sector :: "bytes option \<Rightarrow> nat \<Rightarrow> u8 \<Rightarrow> u8 \<Rightarrow> bytes option" where
  "m65_1581_copy_logical_sector physical_image physical_image_length track sector =
     (case physical_image of
        None \<Rightarrow> None
      | Some img \<Rightarrow>
          (case m65_1581_logical_to_physical track sector of
             None \<Rightarrow> None
           | Some physical \<Rightarrow>
               if pa_image_offset physical > physical_image_length \<or>
                  physical_image_length - pa_image_offset physical < M65_1581_LOGICAL_SECTOR_SIZE
               then None
               else Some (take M65_1581_LOGICAL_SECTOR_SIZE (drop (pa_image_offset physical) img))))"

definition m65_1581_interleave_sector_at :: "nat \<Rightarrow> u8 option" where
  "m65_1581_interleave_sector_at ordinal =
     (if ordinal \<ge> M65_1581_LOGICAL_SECTORS_PER_TRACK then None
      else
        let pair_ordinal = ordinal div 2;
            half = ordinal mod 2;
            physical_sector =
              (if pair_ordinal < M65_1581_PHYSICAL_SECTORS_PER_HEAD then pair_ordinal * 2
               else (pair_ordinal - M65_1581_PHYSICAL_SECTORS_PER_HEAD) * 2 + 1)
        in Some (of_nat (physical_sector * 2 + half)))"

definition m65_1581_next_interleave_candidate :: "u8 \<Rightarrow> u8 option" where
  "m65_1581_next_interleave_candidate last_sector =
     (if unat last_sector \<ge> M65_1581_LOGICAL_SECTORS_PER_TRACK then None
      else
        let candidate = (ucast last_sector :: u32) + 1 + 2 * ((ucast last_sector :: u32) mod 2)
        in Some (ucast (candidate mod of_nat M65_1581_LOGICAL_SECTORS_PER_TRACK)))"

definition m65_1581_next_track_candidate :: "u8 \<Rightarrow> u8 option" where
  "m65_1581_next_track_candidate last_sector =
     (if unat last_sector \<ge> M65_1581_LOGICAL_SECTORS_PER_TRACK then None
      else
        let candidate = (ucast last_sector :: u32) + 8 - ((ucast last_sector :: u32) mod 2)
        in Some (ucast (candidate mod of_nat M65_1581_LOGICAL_SECTORS_PER_TRACK)))"

section \<open>Abstract specification\<close>

text \<open>
  The mapping of \<open>docs/disk-layout.md\<close> on plain numbers; the canonical byte offset of a
  logical sector counts 256-byte sectors in track order.
\<close>

definition valid_logical :: "nat \<Rightarrow> nat \<Rightarrow> bool" where
  "valid_logical t s \<longleftrightarrow> 1 \<le> t \<and> t \<le> 80 \<and> s < 40"

definition canonical_offset :: "nat \<Rightarrow> nat \<Rightarrow> nat" where
  "canonical_offset t s = (t - 1) * 40 * 256 + s * 256"

lemma canonical_offset_bound: "valid_logical t s \<Longrightarrow> canonical_offset t s + 256 \<le> M65_1581_IMAGE_SIZE"
  by (auto simp: valid_logical_def canonical_offset_def layout_consts)

lemma canonical_offset_inject:
  assumes "valid_logical t s" "valid_logical t' s'" "canonical_offset t s = canonical_offset t' s'"
  shows "t = t' \<and> s = s'"
proof -
  have eq: "(t - 1) * 40 + s = (t' - 1) * 40 + s'"
    using assms(3) by (simp add: canonical_offset_def)
  have s: "s < 40" "s' < 40" and t: "1 \<le> t" "1 \<le> t'"
    using assms(1,2) by (auto simp: valid_logical_def)
  from eq have "((t - 1) * 40 + s) mod 40 = ((t' - 1) * 40 + s') mod 40" by simp
  with s have "s = s'" by simp
  with eq t show ?thesis by simp
qed

text \<open>The word arithmetic of the code never wraps on valid input.\<close>

lemma unat_u32_minus_1: "x \<noteq> 0 \<Longrightarrow> unat ((ucast (x :: u8) :: u32) - 1) = unat x - 1"
  by (subst unat_sub) (simp_all add: word_le_nat_alt Suc_le_eq unat_gt_0)

lemma unat_ucast_u32_u8: "unat (ucast (x :: u32) :: u8) = unat x mod 256"
  by (simp add: unsigned_ucast_eq take_bit_eq_mod)

lemma unat_ucast_u32_u16: "unat (ucast (x :: u32) :: u16) = unat x mod 65536"
  by (simp add: unsigned_ucast_eq take_bit_eq_mod)

lemmas layout_unat = unat_ucast_u32_u8 unat_ucast_u32_u16 unat_u32_minus_1 unat_word_ariths
  unat_div unat_mod layout_consts Let_def

lemma offset_halves: "((c :: nat) * 20 + q) * 512 + r * 256 = c * 40 * 256 + (q * 2 + r) * 256"
  by (simp add: algebra_simps)

lemma logical_to_physical_domain:
  "m65_1581_logical_to_physical t s = None \<longleftrightarrow> \<not> valid_logical (unat t) (unat s)"
  by (auto simp: m65_1581_logical_to_physical_def valid_logical_def layout_consts Let_def
      unat_eq_zero not_less not_le Suc_le_eq unat_gt_0)

lemma logical_to_physical_spec:
  assumes "m65_1581_logical_to_physical t s = Some p"
  shows "unat (pa_cylinder p) = unat t - 1"
    and "unat (pa_head p) = unat s div 20"
    and "unat (pa_sector_index p) = unat s div 2 mod 10"
    and "unat (pa_lba p) = (unat t - 1) * 20 + unat s div 2"
    and "unat (pa_byte_offset p) = unat s mod 2 * 256"
    and "pa_image_offset p = canonical_offset (unat t) (unat s)"
proof -
  have v: "valid_logical (unat t) (unat s)"
    using assms logical_to_physical_domain [of t s] by auto
  then have t: "t \<noteq> 0" "1 \<le> unat t" "unat t \<le> 80" and s: "unat s < 40"
    by (auto simp: valid_logical_def)
  show "unat (pa_cylinder p) = unat t - 1" "unat (pa_head p) = unat s div 20"
      "unat (pa_sector_index p) = unat s div 2 mod 10"
    using assms t s by (auto simp: m65_1581_logical_to_physical_def layout_unat split: if_splits)
  have "pa_lba p = (ucast t - 1) * 20 + ucast s div 2"
    using assms by (auto simp: m65_1581_logical_to_physical_def layout_consts Let_def split: if_splits)
  then have lba: "unat (pa_lba p) = (unat t - 1) * 20 + unat s div 2"
    using t s by (simp add: layout_unat del: left_diff_distrib_numeral)
  have half: "unat (pa_byte_offset p) = unat s mod 2 * 256"
    using assms t s by (auto simp: m65_1581_logical_to_physical_def layout_unat split: if_splits)
  have "pa_image_offset p = unat (pa_lba p) * 512 + unat (pa_byte_offset p)"
    using assms by (auto simp: m65_1581_logical_to_physical_def layout_consts Let_def split: if_splits)
  also have "\<dots> = canonical_offset (unat t) (unat s)"
    unfolding lba half canonical_offset_def
    using offset_halves [of "unat t - 1" "unat s div 2" "unat s mod 2"] by (simp only: div_mult_mod_eq)
  finally show "pa_image_offset p = canonical_offset (unat t) (unat s)" .
  show "unat (pa_lba p) = (unat t - 1) * 20 + unat s div 2" by (rule lba)
  show "unat (pa_byte_offset p) = unat s mod 2 * 256" by (rule half)
qed

lemma lba_to_logical_domain:
  "m65_1581_lba_to_logical lba off = None \<longleftrightarrow> \<not> (unat lba < 1600 \<and> unat off \<in> {0, 256})"
  by (auto simp: m65_1581_lba_to_logical_def layout_consts Let_def unat_eq_zero)

lemma lba_to_logical_spec:
  assumes "m65_1581_lba_to_logical lba off = Some l"
  shows "unat (la_track l) = unat lba div 20 + 1"
    and "unat (la_sector l) = unat lba mod 20 * 2 + unat off div 256"
    and "la_image_offset l = canonical_offset (unat (la_track l)) (unat (la_sector l))"
proof -
  have v: "unat lba < 1600" "unat off \<in> {0, 256}"
    using assms lba_to_logical_domain [of lba off] by auto
  have m: "unat lba mod 20 < 20" by simp
  show t: "unat (la_track l) = unat lba div 20 + 1"
    using assms v by (auto simp: m65_1581_lba_to_logical_def layout_unat split: if_splits)
  show s: "unat (la_sector l) = unat lba mod 20 * 2 + unat off div 256"
    using assms v m by (auto simp: m65_1581_lba_to_logical_def layout_unat split: if_splits)
  have "la_image_offset l = unat lba * 512 + unat off"
    using assms by (auto simp: m65_1581_lba_to_logical_def layout_consts Let_def split: if_splits)
  also have "\<dots> = canonical_offset (unat (la_track l)) (unat (la_sector l))"
    unfolding t s canonical_offset_def
    using v(2) offset_halves [of "unat lba div 20" "unat lba mod 20" "unat off div 256"]
    by (simp only: div_mult_mod_eq add_diff_cancel_right') auto
  finally show "la_image_offset l = canonical_offset (unat (la_track l)) (unat (la_sector l))" .
qed

section \<open>Properties of the mapping\<close>

lemma lba_then_logical:
  assumes l: "m65_1581_lba_to_logical lba off = Some l"
  shows "valid_logical (unat (la_track l)) (unat (la_sector l))"
    and "\<exists>p. m65_1581_logical_to_physical (la_track l) (la_sector l) = Some p \<and>
           pa_lba p = lba \<and> pa_byte_offset p = off \<and> pa_image_offset p = la_image_offset l"
proof -
  note spec = lba_to_logical_spec [OF l]
  have dom: "unat lba < 1600" "unat off \<in> {0, 256}"
    using l lba_to_logical_domain [of lba off] by auto
  have m: "unat lba mod 20 < 20" by simp
  show v: "valid_logical (unat (la_track l)) (unat (la_sector l))"
    using dom m unfolding valid_logical_def spec(1,2) by auto
  then obtain p where p: "m65_1581_logical_to_physical (la_track l) (la_sector l) = Some p"
    using logical_to_physical_domain by (metis not_None_eq)
  note pspec = logical_to_physical_spec [OF p]
  have "unat (pa_lba p) = unat lba" "unat (pa_byte_offset p) = unat off"
    using dom by (auto simp: pspec(4,5) spec(1,2))
  with p pspec(6) spec(3) show "\<exists>p. m65_1581_logical_to_physical (la_track l) (la_sector l) = Some p \<and>
      pa_lba p = lba \<and> pa_byte_offset p = off \<and> pa_image_offset p = la_image_offset l"
    by (auto simp: word_unat_eq_iff)
qed

lemma logical_then_lba:
  assumes p: "m65_1581_logical_to_physical (la_track l) (la_sector l) = Some p"
    and off: "la_image_offset l = pa_image_offset p"
  shows "m65_1581_lba_to_logical (pa_lba p) (pa_byte_offset p) = Some l"
proof -
  note pspec = logical_to_physical_spec [OF p]
  have v: "valid_logical (unat (la_track l)) (unat (la_sector l))"
    using p logical_to_physical_domain by (metis option.distinct(1))
  have "unat (pa_lba p) < 1600" "unat (pa_byte_offset p) \<in> {0, 256}"
    using v unfolding pspec(4,5) valid_logical_def by auto
  then obtain l' where l': "m65_1581_lba_to_logical (pa_lba p) (pa_byte_offset p) = Some l'"
    using lba_to_logical_domain [of "pa_lba p" "pa_byte_offset p"] by auto
  note spec = lba_to_logical_spec [OF l']
  have tl: "unat (la_track l') = unat (la_track l)"
    using v unfolding spec(1) pspec(4) valid_logical_def by auto
  have sl: "unat (la_sector l') = unat (la_sector l)"
    using v unfolding spec(2) pspec(4,5) valid_logical_def
    by (simp add: mod_less [of "unat (la_sector l) div 2" 20] less_mult_imp_div_less)
  have "la_image_offset l' = la_image_offset l"
    unfolding spec(3) off pspec(6) tl sl by simp
  with tl sl have "l' = l" by (simp add: word_unat_eq_iff)
  with l' show ?thesis by simp
qed

text \<open>C33 The two translations are inverse to each other: an LBA and half-block offset translate
  to a logical address exactly when that logical address translates back to them, and both
  sides then compute the same byte offset, which is the canonical D81 offset of the sector.
  Addresses outside the 1581 geometry are rejected by both.\<close>

theorem layout_translations_inverse:
  "(m65_1581_lba_to_logical lba off = Some l \<longleftrightarrow>
      (\<exists>p. m65_1581_logical_to_physical (la_track l) (la_sector l) = Some p \<and>
           pa_lba p = lba \<and> pa_byte_offset p = off \<and> pa_image_offset p = la_image_offset l \<and>
           pa_image_offset p = canonical_offset (unat (la_track l)) (unat (la_sector l)))) \<and>
   (m65_1581_logical_to_physical t s = None \<longleftrightarrow> \<not> valid_logical (unat t) (unat s)) \<and>
   (m65_1581_lba_to_logical lba off = None \<longleftrightarrow> \<not> (unat lba < 1600 \<and> unat off \<in> {0, 256}))"
  using lba_then_logical [of lba off l] logical_then_lba [of l]
  by (auto simp: logical_to_physical_domain lba_to_logical_domain logical_to_physical_spec(6))

text \<open>The sector list of the image in track order, cut out by the code.\<close>

definition logical_addresses :: "(u8 \<times> u8) list" where
  "logical_addresses = map (\<lambda>i. (of_nat (i div 40 + 1), of_nat (i mod 40))) [0..<3200]"

lemma copy_logical_sector_eq:
  assumes "length img = M65_1581_IMAGE_SIZE" and "valid_logical (unat t) (unat s)"
  shows "m65_1581_copy_logical_sector (Some img) (length img) t s =
           Some (take 256 (drop (canonical_offset (unat t) (unat s)) img))"
proof -
  obtain p where p: "m65_1581_logical_to_physical t s = Some p"
    using assms(2) logical_to_physical_domain by (metis not_None_eq)
  then show ?thesis
    using canonical_offset_bound [OF assms(2)] assms(1)
    by (simp add: m65_1581_copy_logical_sector_def logical_to_physical_spec(6) M65_1581_LOGICAL_SECTOR_SIZE_def)
qed

lemma concat_chunks:
  "length xs = n * k \<Longrightarrow> concat (map (\<lambda>i. take k (drop (i * k) xs)) [0..<n]) = xs"
proof (induction n arbitrary: xs)
  case (Suc n)
  have "map (\<lambda>i. take k (drop (i * k) xs)) [0..<Suc n] =
      take k xs # map (\<lambda>i. take k (drop (i * k) (drop k xs))) [0..<n]"
    by (simp add: map_upt_Suc add.commute del: upt_Suc)
  then show ?case using Suc.IH [of "drop k xs"] Suc.prems by (simp del: upt_Suc)
qed simp

text \<open>C34 Extracting the 3200 logical sectors of a complete image one after another, track by
  track, gives every time 256 bytes and together the image itself: a sequential physical read
  already has the canonical D81 byte order.\<close>

theorem copy_all_sectors_is_image:
  assumes "length img = M65_1581_IMAGE_SIZE"
  shows "(map (\<lambda>(t, s). map_option length (m65_1581_copy_logical_sector (Some img) (length img) t s))
           logical_addresses = replicate 3200 (Some 256)) \<and>
    (concat (map (\<lambda>(t, s). the (m65_1581_copy_logical_sector (Some img) (length img) t s))
           logical_addresses) = img)"
proof (intro conjI)
  have addr: "m65_1581_copy_logical_sector (Some img) (length img) (of_nat (i div 40 + 1)) (of_nat (i mod 40)) =
      Some (take 256 (drop (i * 256) img))" if "i < 3200" for i
  proof -
    have ts: "unat (of_nat (i div 40 + 1) :: u8) = i div 40 + 1" "unat (of_nat (i mod 40) :: u8) = i mod 40"
      using that by (simp_all add: unat_of_nat del: of_nat_add of_nat_Suc)
    have "canonical_offset (i div 40 + 1) (i mod 40) = (i div 40 * 40 + i mod 40) * 256"
      unfolding canonical_offset_def by (simp only: add_diff_cancel_right' distrib_right)
    then have "canonical_offset (i div 40 + 1) (i mod 40) = i * 256" by (simp only: div_mult_mod_eq)
    then show ?thesis
      using that by (subst copy_logical_sector_eq [OF assms]) (simp_all only: ts, auto simp: valid_logical_def)
  qed
  have "map (\<lambda>(t, s). the (m65_1581_copy_logical_sector (Some img) (length img) t s)) logical_addresses =
      map (\<lambda>i. take 256 (drop (i * 256) img)) [0..<3200]"
    by (auto simp: logical_addresses_def addr [simplified])
  then show "concat (map (\<lambda>(t, s). the (m65_1581_copy_logical_sector (Some img) (length img) t s))
      logical_addresses) = img"
    using concat_chunks [of img 3200 256] assms by (simp add: layout_consts)
  show "map (\<lambda>(t, s). map_option length (m65_1581_copy_logical_sector (Some img) (length img) t s))
      logical_addresses = replicate 3200 (Some 256)"
  proof (intro replicate_eqI)
    fix y assume "y \<in> set (map (\<lambda>(t, s). map_option length
        (m65_1581_copy_logical_sector (Some img) (length img) t s)) logical_addresses)"
    then obtain i where i: "i < 3200" and y: "y = map_option length (m65_1581_copy_logical_sector
        (Some img) (length img) (of_nat (i div 40 + 1)) (of_nat (i mod 40)))"
      by (auto simp: logical_addresses_def)
    show "y = Some 256" using i assms unfolding y addr [OF i] by (simp add: layout_consts)
  qed (simp add: logical_addresses_def)
qed

theorem copy_all_sectors_is_image_witness:
  "concat (map (\<lambda>(t, s). the (m65_1581_copy_logical_sector (Some (replicate 819200 7)) 819200 t s))
     logical_addresses) = replicate 819200 7"
  using copy_all_sectors_is_image [of "replicate 819200 7"] by (simp add: layout_consts)

section \<open>Interleave policy\<close>

definition interleave_order :: "u8 list" where
  "interleave_order = map (\<lambda>i. the (m65_1581_interleave_sector_at i)) [0..<40]"

lemma interleave_order_eval:
  "interleave_order =
     [0, 1, 4, 5, 8, 9, 12, 13, 16, 17, 20, 21, 24, 25, 28, 29, 32, 33, 36, 37,
      2, 3, 6, 7, 10, 11, 14, 15, 18, 19, 22, 23, 26, 27, 30, 31, 34, 35, 38, 39]"
  by (simp add: interleave_order_def m65_1581_interleave_sector_at_def layout_consts Let_def upt_rec)

lemma interleave_sector_at_eq:
  "m65_1581_interleave_sector_at i = (if i < 40 then Some (interleave_order ! i) else None)"
  by (auto simp: interleave_order_def m65_1581_interleave_sector_at_def layout_consts Let_def)

text \<open>The interleave order visits each of the forty logical sectors of a track exactly once and
  nothing else, keeps the two halves of a physical block adjacent, and is undefined past the
  fortieth position.\<close>

theorem interleave_is_permutation:
  "distinct interleave_order \<and> set interleave_order = {s. unat s < 40} \<and>
   m65_1581_interleave_sector_at i = (if i < 40 then Some (interleave_order ! i) else None) \<and>
   list_all (\<lambda>k. unat (interleave_order ! (2 * k + 1)) = unat (interleave_order ! (2 * k)) + 1 \<and>
                 even (unat (interleave_order ! (2 * k)))) [0..<20]"
proof (intro conjI)
  show d: "distinct interleave_order" by (simp add: interleave_order_eval)
  have sub: "set interleave_order \<subseteq> {s. unat s < 40}" by (simp add: interleave_order_eval)
  have "{s :: u8. unat s < 40} = of_nat ` {..<40}"
  proof
    show "{s :: u8. unat s < 40} \<subseteq> of_nat ` {..<40}"
      by (force intro: image_eqI [where x = "unat s" for s])
    show "of_nat ` {..<40} \<subseteq> {s :: u8. unat s < 40}" by (auto simp: unat_of_nat take_bit_eq_mod)
  qed
  then have "card {s :: u8. unat s < 40} \<le> 40" and fin: "finite {s :: u8. unat s < 40}"
    by (metis card_image_le card_lessThan finite_lessThan) simp
  moreover have "card (set interleave_order) = 40"
    using distinct_card [OF d] by (metis interleave_order_def diff_zero length_map length_upt)
  ultimately show "set interleave_order = {s. unat s < 40}"
    using sub by (metis card_seteq)
  show "m65_1581_interleave_sector_at i = (if i < 40 then Some (interleave_order ! i) else None)"
    by (simp add: interleave_sector_at_eq)
  show "list_all (\<lambda>k. unat (interleave_order ! (2 * k + 1)) = unat (interleave_order ! (2 * k)) + 1 \<and>
      even (unat (interleave_order ! (2 * k)))) [0..<20]"
    by (simp add: interleave_order_eval upt_rec)
qed

text \<open>The same-track candidate is the successor in the interleave order, except that the two
  halves of the order close on themselves: after the last even-block sector it returns to the
  first, so it never leaves its half; both candidate functions stay on the track.\<close>

theorem next_candidate_follows_interleave:
  "(map (\<lambda>i. m65_1581_next_interleave_candidate (interleave_order ! i)) [0..<40] =
     map (\<lambda>i. Some (interleave_order ! (if i = 19 then 0 else if i = 39 then 20 else i + 1))) [0..<40]) \<and>
    (m65_1581_next_track_candidate s =
     (if unat s < 40 then Some (of_nat ((unat s + 8 - unat s mod 2) mod 40)) else None))"
proof (intro conjI)
  show "map (\<lambda>i. m65_1581_next_interleave_candidate (interleave_order ! i)) [0..<40] =
     map (\<lambda>i. Some (interleave_order ! (if i = 19 then 0 else if i = 39 then 20 else i + 1))) [0..<40]"
    by (simp add: interleave_order_eval upt_rec m65_1581_next_interleave_candidate_def layout_consts Let_def)
next
  have "unat (ucast s + 8 - ucast s mod 2 :: u32) = unat s + 8 - unat s mod 2" if "unat s < 40"
    using that by (subst unat_sub) (auto simp: word_le_nat_alt layout_unat)
  then show "m65_1581_next_track_candidate s =
     (if unat s < 40 then Some (of_nat ((unat s + 8 - unat s mod 2) mod 40)) else None)"
    by (auto simp: m65_1581_next_track_candidate_def layout_unat word_unat_eq_iff unat_of_nat take_bit_eq_mod)
qed

end
