(* ===== verification/M65_LayoutOrder.thy ===== *)
theory M65_LayoutOrder
  imports M65_Layout "HOL-Library.Product_Lexorder"
begin

text \<open>
  The order of logical addresses (\<open>include/m65/layout.h\<close>), and that reading blocks in ascending order
  (\<open>src/layout.c\<close>) reads the logical sectors in that order.
\<close>

section \<open>Order of logical addresses\<close>

text \<open>Logical addresses in track order, and within a track in sector order.\<close>

definition address_key :: "('a :: linorder) logical_address_scheme \<Rightarrow> u8 \<times> u8 \<times> nat \<times> 'a" where
  "address_key l = (la_track l, la_sector l, la_image_offset l, logical_address.more l)"

lemma address_key_inject: "address_key l = address_key l' \<Longrightarrow> l = l'"
  by (simp add: address_key_def)

instantiation logical_address_ext :: (linorder) linorder
begin

definition less_eq_logical_address_ext :: "'a logical_address_scheme \<Rightarrow> 'a logical_address_scheme \<Rightarrow> bool" where
  "less_eq_logical_address_ext l l' \<longleftrightarrow> address_key l \<le> address_key l'"

definition less_logical_address_ext :: "'a logical_address_scheme \<Rightarrow> 'a logical_address_scheme \<Rightarrow> bool" where
  "less_logical_address_ext l l' \<longleftrightarrow> address_key l < address_key l'"

instance
  by standard (auto simp: less_eq_logical_address_ext_def less_logical_address_ext_def dest: address_key_inject)

end

text \<open>The translation keeps the order: blocks, and halves of a block, come in ascending order of
  their logical addresses, so a sequential read of the device is sorted.\<close>

lemma lba_to_logical_mono:
  assumes "m65_1581_lba_to_logical lba off = Some l" "m65_1581_lba_to_logical lba' off' = Some l'"
    and "(lba, off) < (lba', off')"
  shows "l < l'"
proof -
  have dom: "unat off \<in> {0, 256}" "unat off' \<in> {0, 256}"
    using assms(1,2) lba_to_logical_domain by (metis option.distinct(1))+
  have lt: "unat lba < unat lba' \<or> unat lba = unat lba' \<and> unat off < unat off'"
    using assms(3) by (auto simp: word_less_nat_alt word_le_nat_alt)
  note spec = lba_to_logical_spec [OF assms(1)] lba_to_logical_spec [OF assms(2)]
  have "unat (la_track l) < unat (la_track l') \<or>
      unat (la_track l) = unat (la_track l') \<and> unat (la_sector l) < unat (la_sector l')"
  proof (cases "unat lba div 20 = unat lba' div 20")
    case True
    then have "unat lba < unat lba' \<Longrightarrow> unat lba mod 20 < unat lba' mod 20"
      using div_mult_mod_eq [of "unat lba" 20] div_mult_mod_eq [of "unat lba'" 20] by linarith
    with lt dom have "unat lba mod 20 * 2 + unat off div 256 < unat lba' mod 20 * 2 + unat off' div 256" by auto
    with True show ?thesis by (simp add: spec)
  next
    case False
    with lt have "unat lba div 20 < unat lba' div 20" by (metis div_le_mono le_neq_implies_less less_imp_le)
    then show ?thesis by (simp add: spec)
  qed
  then show ?thesis
    by (auto simp: less_logical_address_ext_def address_key_def word_less_nat_alt word_le_nat_alt)
qed

end
