(* ===== verification/M65_Device.thy ===== *)
theory M65_Device
  imports M65_Prelude
begin

text \<open>
  Device identity and safety checks: \<open>src/device.c\<close> (validation of a selected medium) and
  the pure parts of \<open>src/discovery_macos.c\<close> (identity match, BSD name normalisation,
  selection). What I/O Registry and Disk Arbitration report is the content of the records.
\<close>

section \<open>Data\<close>

record device_info =
  d_bsd_name :: string
  d_raw_path :: string
  d_registry_path :: string
  d_media_name :: string
  d_usb_manufacturer :: string
  d_usb_product :: string
  d_product_revision :: string
  d_usb_vid :: u16
  d_usb_pid :: u16
  d_usb_device_revision :: u16
  d_known_controller :: bool
  d_media_present :: bool
  d_external :: bool
  d_removable :: bool
  d_whole :: bool
  d_mounted :: bool
  d_readable :: bool
  d_capacity_bytes :: "64 word"
  d_block_size :: u32
  d_permission_errno :: int

text \<open>\<open>M65DeviceList\<close>: the first \<open>count\<close> items, at most \<open>M65_MAX_DEVICES\<close>.\<close>

type_synonym device_list = "device_info list"

definition M65_MAX_DEVICES :: nat where "M65_MAX_DEVICES = 16"

datatype device_validation =
    DEVICE_ACCEPTED | DEVICE_INTERNAL | DEVICE_MOUNTED | DEVICE_NOT_REMOVABLE
  | DEVICE_NOT_WHOLE | DEVICE_WRONG_BLOCK_SIZE | DEVICE_UNKNOWN_CONTROLLER

section \<open>Validation\<close>

definition m65_validate_device :: "device_info option \<Rightarrow> device_validation" where
  "m65_validate_device device =
     (case device of
        None \<Rightarrow> DEVICE_INTERNAL
      | Some d \<Rightarrow>
          if \<not> d_external d then DEVICE_INTERNAL
          else if d_mounted d then DEVICE_MOUNTED
          else if \<not> d_removable d then DEVICE_NOT_REMOVABLE
          else if \<not> d_whole d then DEVICE_NOT_WHOLE
          else if d_block_size d \<noteq> 512 then DEVICE_WRONG_BLOCK_SIZE
          else if \<not> d_known_controller d then DEVICE_UNKNOWN_CONTROLLER
          else DEVICE_ACCEPTED)"

fun m65_device_validation_text :: "device_validation \<Rightarrow> string" where
  "m65_device_validation_text DEVICE_ACCEPTED = ''accepted''"
| "m65_device_validation_text DEVICE_INTERNAL = ''device is internal''"
| "m65_device_validation_text DEVICE_MOUNTED = ''media is mounted''"
| "m65_device_validation_text DEVICE_NOT_REMOVABLE = ''device is not removable''"
| "m65_device_validation_text DEVICE_NOT_WHOLE = ''device is not whole media''"
| "m65_device_validation_text DEVICE_WRONG_BLOCK_SIZE = ''device block size is not 512 bytes''"
| "m65_device_validation_text DEVICE_UNKNOWN_CONTROLLER =
     ''USB identity does not match the known TEAC controller''"

section \<open>Identity and selection\<close>

text \<open>\<open>strstr (haystack, needle) != NULL\<close> and \<open>strncmp (s, prefix, strlen (prefix)) == 0\<close>.\<close>

fun strstr_found :: "string \<Rightarrow> string \<Rightarrow> bool" where
  "strstr_found [] needle = (needle = [])"
| "strstr_found (c # cs) needle = (take (length needle) (c # cs) = needle \<or> strstr_found cs needle)"

definition has_prefix :: "string \<Rightarrow> string \<Rightarrow> bool" where
  "has_prefix s prefix \<longleftrightarrow> take (length prefix) s = prefix"

definition identity_matches :: "device_info \<Rightarrow> bool" where
  "identity_matches device =
     (let product_match =
            strstr_found (d_usb_product device) ''UF000'' \<or>
            strstr_found (d_usb_product device) ''TEAC'' \<or>
            strstr_found (d_media_name device) ''UF000'' \<or>
            strstr_found (d_usb_manufacturer device) ''TEACV0.0''
      in d_usb_vid device = 0x0644 \<and> d_usb_pid device = 0 \<and> product_match)"

definition normalize_bsd_name :: "string option \<Rightarrow> string option" where
  "normalize_bsd_name name =
     (case name of
        None \<Rightarrow> None
      | Some s \<Rightarrow>
          let s1 = (if has_prefix s ''/dev/'' then drop 5 s else s);
              s2 = (if has_prefix s1 ''rdisk'' then drop 1 s1 else s1)
          in Some s2)"

text \<open>The selection loop keeps the last matching item and the number of matches.\<close>

fun select_loop :: "string option \<Rightarrow> device_list \<Rightarrow> device_info option \<Rightarrow> nat
    \<Rightarrow> device_info option \<times> nat" where
  "select_loop normalized [] selected matches = (selected, matches)"
| "select_loop normalized (candidate # rest) selected matches =
     (if \<not> d_known_controller candidate then select_loop normalized rest selected matches
      else if normalized \<noteq> None \<and> d_bsd_name candidate \<noteq> the normalized
      then select_loop normalized rest selected matches
      else select_loop normalized rest (Some candidate) (matches + 1))"

text \<open>Result pointer and the \<open>ambiguous\<close> out-parameter.\<close>

definition m65_select_device :: "device_list option \<Rightarrow> string option \<Rightarrow> device_info option \<times> bool" where
  "m65_select_device devices bsd_name =
     (case devices of
        None \<Rightarrow> (None, False)
      | Some items \<Rightarrow>
          (case select_loop (normalize_bsd_name bsd_name) items None 0 of
             (selected, matches) \<Rightarrow>
               if matches \<noteq> 1 then (None, matches > 1) else (selected, False)))"

section \<open>Properties\<close>

definition selects :: "string option \<Rightarrow> device_info \<Rightarrow> bool" where
  "selects bsd_name d \<longleftrightarrow> d_known_controller d \<and>
     (case normalize_bsd_name bsd_name of None \<Rightarrow> True | Some n \<Rightarrow> d_bsd_name d = n)"

lemma select_loop_eq:
  "select_loop (normalize_bsd_name n) items sel k =
     (if filter (selects n) items = [] then sel else Some (last (filter (selects n) items)),
      k + length (filter (selects n) items))"
  by (induction items arbitrary: sel k) (auto simp: selects_def split: option.splits)

text \<open>A medium is accepted exactly when it is external, unmounted, removable, whole, has
  512-byte blocks and sits behind the known controller; every refusal names a check that
  really failed.\<close>

theorem validate_device_accepts_iff:
  "(m65_validate_device dev = DEVICE_ACCEPTED \<longleftrightarrow>
      (\<exists>d. dev = Some d \<and> d_external d \<and> \<not> d_mounted d \<and> d_removable d \<and> d_whole d \<and>
           d_block_size d = 512 \<and> d_known_controller d)) \<and>
   (case m65_validate_device (Some d) of
      DEVICE_ACCEPTED \<Rightarrow> True
    | DEVICE_INTERNAL \<Rightarrow> \<not> d_external d
    | DEVICE_MOUNTED \<Rightarrow> d_external d \<and> d_mounted d
    | DEVICE_NOT_REMOVABLE \<Rightarrow> \<not> d_removable d
    | DEVICE_NOT_WHOLE \<Rightarrow> \<not> d_whole d
    | DEVICE_WRONG_BLOCK_SIZE \<Rightarrow> d_block_size d \<noteq> 512
    | DEVICE_UNKNOWN_CONTROLLER \<Rightarrow> \<not> d_known_controller d)"
  by (auto simp: m65_validate_device_def split: option.splits)

text \<open>C35 Selection returns a device exactly when one known controller, and only one, matches the
  normalised name (any name when none is given), and reports ambiguity exactly when several do.\<close>

theorem select_device_unique:
  "m65_select_device (Some items) name =
     (case filter (selects name) items of
        [] \<Rightarrow> (None, False)
      | [d] \<Rightarrow> (Some d, False)
      | _ \<Rightarrow> (None, True))"
  by (simp add: m65_select_device_def select_loop_eq split: list.split)

text \<open>The three spellings of one disk name the same device.\<close>

lemma normalize_bsd_name_spellings:
  "normalize_bsd_name (Some (''/dev/rdisk'' @ n)) = Some (''disk'' @ n)"
  "normalize_bsd_name (Some (''/dev/disk'' @ n)) = Some (''disk'' @ n)"
  "normalize_bsd_name (Some (''rdisk'' @ n)) = Some (''disk'' @ n)"
  "normalize_bsd_name (Some (''disk'' @ n)) = Some (''disk'' @ n)"
  by (simp_all add: normalize_bsd_name_def has_prefix_def)

end
