(* ===== verification/M65_Bytes.thy ===== *)
theory M65_Bytes
  imports M65_Prelude
begin

unbundle bit_operations_syntax

text \<open>
  Big-endian access to byte buffers (\<open>src/bytes.c\<close>). A read is bounds-checked and returns
  None where the C function returns false; a NULL data pointer is None. Writes are not
  checked, as in the code: the callers pass fixed offsets into their own arrays.
\<close>

section \<open>Operations\<close>

definition available :: "nat \<Rightarrow> nat \<Rightarrow> nat \<Rightarrow> bool" where
  "available len offset needed \<longleftrightarrow> offset \<le> len \<and> needed \<le> len - offset"

definition m65_read_be16 :: "bytes option \<Rightarrow> nat \<Rightarrow> nat \<Rightarrow> u16 option" where
  "m65_read_be16 data len offset =
     (case data of
        None \<Rightarrow> None
      | Some d \<Rightarrow>
          if \<not> available len offset 2 then None
          else Some (push_bit 8 (ucast (d ! offset)) OR ucast (d ! (offset + 1))))"

definition m65_read_be24 :: "bytes option \<Rightarrow> nat \<Rightarrow> nat \<Rightarrow> u32 option" where
  "m65_read_be24 data len offset =
     (case data of
        None \<Rightarrow> None
      | Some d \<Rightarrow>
          if \<not> available len offset 3 then None
          else Some (push_bit 16 (ucast (d ! offset)) OR
                     push_bit 8 (ucast (d ! (offset + 1))) OR
                     ucast (d ! (offset + 2))))"

definition m65_read_be32 :: "bytes option \<Rightarrow> nat \<Rightarrow> nat \<Rightarrow> u32 option" where
  "m65_read_be32 data len offset =
     (case data of
        None \<Rightarrow> None
      | Some d \<Rightarrow>
          if \<not> available len offset 4 then None
          else Some (push_bit 24 (ucast (d ! offset)) OR
                     push_bit 16 (ucast (d ! (offset + 1))) OR
                     push_bit 8 (ucast (d ! (offset + 2))) OR
                     ucast (d ! (offset + 3))))"

text \<open>\<open>m65_write_be16 (&data[offset], value)\<close>.\<close>

definition m65_write_be16 :: "bytes \<Rightarrow> nat \<Rightarrow> u16 \<Rightarrow> bytes" where
  "m65_write_be16 data offset value =
     data[offset := ucast (drop_bit 8 value), offset + 1 := ucast (value AND 0xff)]"

definition m65_write_be32 :: "bytes \<Rightarrow> nat \<Rightarrow> u32 \<Rightarrow> bytes" where
  "m65_write_be32 data offset value =
     data[offset := ucast (drop_bit 24 value),
          offset + 1 := ucast (drop_bit 16 value AND 0xff),
          offset + 2 := ucast (drop_bit 8 value AND 0xff),
          offset + 3 := ucast (value AND 0xff)]"

section \<open>Word-level round trips\<close>

lemma be16_join_split:
  "push_bit 8 (ucast (ucast (drop_bit 8 v) :: u8)) OR ucast (ucast (v AND 0xff) :: u8) = (v :: u16)"
  by (rule bit_word_eqI) (auto simp: bit_simps)

lemma be32_join_split:
  "push_bit 24 (ucast (ucast (drop_bit 24 v) :: u8)) OR
   push_bit 16 (ucast (ucast (drop_bit 16 v AND 0xff) :: u8)) OR
   push_bit 8 (ucast (ucast (drop_bit 8 v AND 0xff) :: u8)) OR
   ucast (ucast (v AND 0xff) :: u8) = (v :: u32)"
proof (rule bit_word_eqI)
  fix n assume "n < LENGTH(32)"
  then consider "n < 8" | "8 \<le> n" "n < 16" | "16 \<le> n" "n < 24" | "24 \<le> n" "n < 32" by fastforce
  then show "bit (push_bit 24 (ucast (ucast (drop_bit 24 v) :: u8)) OR
      push_bit 16 (ucast (ucast (drop_bit 16 v AND 0xff) :: u8)) OR
      push_bit 8 (ucast (ucast (drop_bit 8 v AND 0xff) :: u8)) OR
      ucast (ucast (v AND 0xff) :: u8) :: u32) n = bit v n"
    by cases (simp_all only: ucast_and_0xff, auto simp: bit_simps)
qed

lemma be16_split_join:
  fixes hi lo :: u8
  defines "v \<equiv> push_bit 8 (ucast hi) OR (ucast lo :: u16)"
  shows "ucast (drop_bit 8 v) = hi" and "(ucast (v AND 0xff) :: u8) = lo"
  unfolding v_def
  by (rule bit_word_eqI, auto simp: bit_simps dest: bit_imp_le_length)+

lemma be32_split_join:
  fixes a b c d :: u8
  defines "v \<equiv> push_bit 24 (ucast a) OR push_bit 16 (ucast b) OR push_bit 8 (ucast c) OR (ucast d :: u32)"
  shows "ucast (drop_bit 24 v) = a" and "(ucast (drop_bit 16 v AND 0xff) :: u8) = b"
    and "(ucast (drop_bit 8 v AND 0xff) :: u8) = c" and "(ucast (v AND 0xff) :: u8) = d"
  unfolding v_def ucast_and_0xff
  by (rule bit_word_eqI, auto simp: bit_simps dest: bit_imp_le_length)+

text \<open>The numeric value of a big-endian field.\<close>

lemma unat_be16: "unat (push_bit 8 (ucast hi) OR ucast lo :: u16) = 256 * unat (hi :: u8) + unat (lo :: u8)"
proof -
  have "push_bit 8 (ucast hi) OR ucast lo = (push_bit 8 (ucast hi) + ucast lo :: u16)"
    by (rule disjunctive_add [symmetric]) (auto simp: bit_simps dest: bit_imp_le_length)
  moreover have "unat (push_bit 8 (ucast hi) :: u16) = 256 * unat hi"
    using unat_u8_lt [of hi] by (simp add: push_bit_eq_mult unat_word_ariths del: unat_u8_lt)
  ultimately show ?thesis
    using unat_u8_lt [of hi] unat_u8_lt [of lo]
    by (simp add: unat_word_ariths del: unat_u8_lt)
qed

section \<open>The accessors as a codec\<close>

text \<open>
  What the users of the accessors rely on: a field that was written reads back, nothing
  outside the field changes, a read depends on the field only and fails exactly outside
  the buffer, and writing back what was read changes nothing.
\<close>

locale be_codec =
  fixes rd :: "bytes \<Rightarrow> nat \<Rightarrow> 'w option"
    and wr :: "bytes \<Rightarrow> nat \<Rightarrow> 'w \<Rightarrow> bytes"
    and width :: nat
  assumes rd_wr: "off + width \<le> length d \<Longrightarrow> rd (wr d off v) off = Some v"
    and length_wr: "length (wr d off v) = length d"
    and nth_wr_outside: "i < off \<or> off + width \<le> i \<Longrightarrow> wr d off v ! i = d ! i"
    and rd_local: "length d = length d' \<Longrightarrow> (\<And>i. off \<le> i \<Longrightarrow> i < off + width \<Longrightarrow> d ! i = d' ! i)
                     \<Longrightarrow> rd d off = rd d' off"
    and rd_None: "rd d off = None \<longleftrightarrow> length d < off + width"
    and wr_rd: "rd d off = Some v \<Longrightarrow> wr d off v = d"
begin

lemma rd_wr_disjoint:
  assumes "off' + width \<le> off \<or> off + width \<le> off'"
  shows "rd (wr d off v) off' = rd d off'"
  using assms by (intro rd_local) (auto simp: length_wr nth_wr_outside)

lemma wr_inject:
  assumes "off + width \<le> length d" and "wr d off v = wr d off w"
  shows "v = w"
proof -
  have "Some v = rd (wr d off v) off" using assms(1) by (simp add: rd_wr)
  also have "\<dots> = Some w" using assms by (simp add: rd_wr)
  finally show ?thesis by simp
qed

lemma wr_changes_only_field:
  assumes "i < length d" and "wr d off v ! i \<noteq> d ! i"
  shows "off \<le> i \<and> i < off + width"
  using assms nth_wr_outside by (meson not_less)

end

definition be16_at :: "bytes \<Rightarrow> nat \<Rightarrow> u16 option" where
  "be16_at d off = m65_read_be16 (Some d) (length d) off"

definition be32_at :: "bytes \<Rightarrow> nat \<Rightarrow> u32 option" where
  "be32_at d off = m65_read_be32 (Some d) (length d) off"

lemma be16_at_eq: "be16_at d off =
    (if off + 2 \<le> length d then Some (push_bit 8 (ucast (d ! off)) OR ucast (d ! (off + 1))) else None)"
  by (auto simp: be16_at_def m65_read_be16_def available_def)

lemma be32_at_eq: "be32_at d off =
    (if off + 4 \<le> length d then Some (push_bit 24 (ucast (d ! off)) OR push_bit 16 (ucast (d ! (off + 1))) OR
       push_bit 8 (ucast (d ! (off + 2))) OR ucast (d ! (off + 3))) else None)"
  by (auto simp: be32_at_def m65_read_be32_def available_def)

text \<open>Past the end of the buffer the C write would be undefined; the codec laws speak of writes
  inside it, and \<open>list_update\<close> ignores the rest.\<close>

interpretation be16: be_codec be16_at m65_write_be16 2
proof unfold_locales
  fix off :: nat and d :: bytes and v :: u16
  assume "off + 2 \<le> length d"
  then show "be16_at (m65_write_be16 d off v) off = Some v"
    using be16_join_split [of v] by (simp add: be16_at_eq m65_write_be16_def)
next
  fix d :: bytes and off v assume "be16_at d off = Some v"
  then have "v = push_bit 8 (ucast (d ! off)) OR ucast (d ! (off + 1))" by (simp add: be16_at_eq split: if_splits)
  then show "m65_write_be16 d off v = d"
    by (simp only: m65_write_be16_def be16_split_join list_update_id)
qed (auto simp: be16_at_eq m65_write_be16_def)

interpretation be32: be_codec be32_at m65_write_be32 4
proof unfold_locales
  fix off :: nat and d :: bytes and v :: u32
  assume "off + 4 \<le> length d"
  then show "be32_at (m65_write_be32 d off v) off = Some v"
    using be32_join_split [of v] by (simp add: be32_at_eq m65_write_be32_def)
next
  fix d :: bytes and off v assume "be32_at d off = Some v"
  then have "v = push_bit 24 (ucast (d ! off)) OR push_bit 16 (ucast (d ! (off + 1))) OR
      push_bit 8 (ucast (d ! (off + 2))) OR ucast (d ! (off + 3))" by (simp add: be32_at_eq split: if_splits)
  then show "m65_write_be32 d off v = d"
    by (simp only: m65_write_be32_def be32_split_join list_update_id)
qed (auto simp: be32_at_eq m65_write_be32_def)

text \<open>Reads through a shorter declared length are reads of that prefix.\<close>

lemma m65_read_be16_prefix:
  "len \<le> length d \<Longrightarrow> m65_read_be16 (Some d) len off = be16_at (take len d) off"
  by (auto simp: m65_read_be16_def be16_at_eq available_def)

lemma m65_read_be32_prefix:
  "len \<le> length d \<Longrightarrow> m65_read_be32 (Some d) len off = be32_at (take len d) off"
  by (auto simp: m65_read_be32_def be32_at_eq available_def)

text \<open>A checked read never looks past the declared length, and fails exactly when it would.\<close>

lemma m65_read_be16_eq_None:
  "m65_read_be16 (Some d) len off = None \<longleftrightarrow> len < off + 2"
  by (auto simp: m65_read_be16_def available_def)

lemma m65_read_be24_eq_None:
  "m65_read_be24 (Some d) len off = None \<longleftrightarrow> len < off + 3"
  by (auto simp: m65_read_be24_def available_def)

lemma m65_read_be32_eq_None:
  "m65_read_be32 (Some d) len off = None \<longleftrightarrow> len < off + 4"
  by (auto simp: m65_read_be32_def available_def)

end
