(* ===== verification/M65_Types.thy ===== *)
theory M65_Types
  imports M65_Prelude
begin

text \<open>
  The types that cross the module boundaries (\<open>include/m65/types.h\<close>): sense data, the
  transport and probe status codes, commands and command results. A command's data pointer
  is the current content of the buffer it points to, None for NULL; the buffer's content
  after execution is returned beside the result. A \<open>char detail[256]\<close> is its string.
\<close>

record m65_sense =
  sense_valid :: bool
  sense_response_code :: u8
  sense_key :: u8
  sense_asc :: u8
  sense_ascq :: u8

definition zero_sense :: m65_sense where
  "zero_sense = \<lparr>sense_valid = False, sense_response_code = 0, sense_key = 0,
                 sense_asc = 0, sense_ascq = 0\<rparr>"

datatype transport_status =
    TRANSPORT_OK | TRANSPORT_PERMISSION | TRANSPORT_NO_DEVICE
  | TRANSPORT_TIMEOUT | TRANSPORT_IO | TRANSPORT_PROTOCOL

datatype data_direction = DATA_NONE | DATA_IN | DATA_OUT

datatype probe_code =
    PROBE_OK | PROBE_NO_DEVICE | PROBE_PERMISSION | PROBE_TRANSPORT
  | PROBE_UNSUPPORTED | PROBE_MISMATCH | PROBE_USAGE

record m65_command =
  c_cdb :: bytes
  c_cdb_length :: nat
  c_direction :: data_direction
  c_data :: "bytes option"
  c_data_length :: nat
  c_timeout_ms :: u32

record command_result =
  r_transport_status :: transport_status
  r_scsi_status :: u8
  r_transferred :: nat
  r_sense :: m65_sense
  r_detail :: string

text \<open>\<open>memset (&result, 0, sizeof result)\<close>: status OK, SCSI GOOD, nothing transferred.\<close>

definition zero_result :: command_result where
  "zero_result = \<lparr>r_transport_status = TRANSPORT_OK, r_scsi_status = 0, r_transferred = 0,
                  r_sense = zero_sense, r_detail = []\<rparr>"

lemma zero_result_sel [simp]:
  "r_transport_status zero_result = TRANSPORT_OK" "r_scsi_status zero_result = 0"
  "r_transferred zero_result = 0" "r_sense zero_result = zero_sense" "r_detail zero_result = []"
  by (simp_all add: zero_result_def)

text \<open>Commands and results of C objects: the array has 16 bytes and a data pointer points to
  as many bytes as the command says.\<close>

definition command_wf :: "m65_command \<Rightarrow> bool" where
  "command_wf c \<longleftrightarrow> length (c_cdb c) = 16 \<and> c_cdb_length c \<le> 16 \<and>
     (case c_data c of None \<Rightarrow> True | Some d \<Rightarrow> length d = c_data_length c)"

end
