(* ===== verification/M65_Ufi.thy ===== *)
theory M65_Ufi
  imports M65_Bytes M65_Types
begin

unbundle bit_operations_syntax

text \<open>
  The UFI layer (\<open>src/ufi.c\<close>, \<open>include/m65/ufi.h\<close>): construction of command descriptor
  blocks, bounds-checked parsing of controller responses, the Flexible Disk page, and the
  allowlist validation of commands.

  A function that returns false with an explanation in its detail buffer returns \<open>Inl\<close> of
  that text; a parser's \<open>Inl\<close> also carries the out-parameter as the code leaves it. NULL
  data pointers are None; out-parameters are always present.
\<close>

type_synonym 'a parsed = "(string \<times> 'a) + 'a"

abbreviation (input) M65_OPCODE_TEST_UNIT_READY :: u8 where "M65_OPCODE_TEST_UNIT_READY \<equiv> 0x00"
abbreviation (input) M65_OPCODE_REQUEST_SENSE :: u8 where "M65_OPCODE_REQUEST_SENSE \<equiv> 0x03"
abbreviation (input) M65_OPCODE_INQUIRY :: u8 where "M65_OPCODE_INQUIRY \<equiv> 0x12"
abbreviation (input) M65_OPCODE_READ_FORMAT_CAPACITIES :: u8 where "M65_OPCODE_READ_FORMAT_CAPACITIES \<equiv> 0x23"
abbreviation (input) M65_OPCODE_READ_CAPACITY_10 :: u8 where "M65_OPCODE_READ_CAPACITY_10 \<equiv> 0x25"
abbreviation (input) M65_OPCODE_READ_10 :: u8 where "M65_OPCODE_READ_10 \<equiv> 0x28"
abbreviation (input) M65_OPCODE_MODE_SELECT_10 :: u8 where "M65_OPCODE_MODE_SELECT_10 \<equiv> 0x55"
abbreviation (input) M65_OPCODE_MODE_SENSE_10 :: u8 where "M65_OPCODE_MODE_SENSE_10 \<equiv> 0x5a"
abbreviation (input) M65_FLEXIBLE_DISK_PAGE :: u8 where "M65_FLEXIBLE_DISK_PAGE \<equiv> 0x05"
abbreviation (input) M65_FLEX_PAGE_LENGTH :: nat where "M65_FLEX_PAGE_LENGTH \<equiv> 32"
abbreviation (input) M65_MODE_BUFFER_SIZE :: nat where "M65_MODE_BUFFER_SIZE \<equiv> 256"
abbreviation (input) M65_MAX_FORMAT_DESCRIPTORS :: nat where "M65_MAX_FORMAT_DESCRIPTORS \<equiv> 31"

section \<open>Data\<close>

record m65_inquiry =
  inq_vendor :: string
  inq_product :: string
  inq_firmware :: string

record m65_capacity =
  cap_blocks :: u32
  cap_block_size :: u32

record format_descriptor =
  fd_blocks :: u32
  fd_block_size :: u32
  fd_descriptor_code :: u8

text \<open>\<open>M65FormatCapacities\<close>: the first \<open>count\<close> descriptors.\<close>

type_synonym format_capacities = "format_descriptor list"

datatype flexible_field =
    FLEX_TRANSFER_RATE | FLEX_HEADS | FLEX_SECTORS_PER_TRACK | FLEX_BYTES_PER_SECTOR
  | FLEX_CYLINDERS | FLEX_WRITE_PRECOMP | FLEX_REDUCED_WRITE_CURRENT | FLEX_STEP_RATE
  | FLEX_STEP_PULSE_WIDTH | FLEX_HEAD_SETTLE_DELAY | FLEX_MOTOR_ON_DELAY | FLEX_MOTOR_OFF_DELAY
  | FLEX_TRDY_SSN_MO | FLEX_SPC | FLEX_WRITE_COMPENSATION | FLEX_HEAD_LOAD_DELAY
  | FLEX_HEAD_UNLOAD_DELAY | FLEX_PIN_34_PIN_2 | FLEX_PIN_4_PIN_1 | FLEX_ROTATION_RATE

record field_info =
  fi_offset :: nat
  fi_length :: nat
  fi_name :: string

fun flexible_fields :: "flexible_field \<Rightarrow> field_info" where
  "flexible_fields FLEX_TRANSFER_RATE = \<lparr>fi_offset = 2, fi_length = 2, fi_name = ''transfer_rate''\<rparr>"
| "flexible_fields FLEX_HEADS = \<lparr>fi_offset = 4, fi_length = 1, fi_name = ''heads''\<rparr>"
| "flexible_fields FLEX_SECTORS_PER_TRACK = \<lparr>fi_offset = 5, fi_length = 1, fi_name = ''sectors_per_track''\<rparr>"
| "flexible_fields FLEX_BYTES_PER_SECTOR = \<lparr>fi_offset = 6, fi_length = 2, fi_name = ''bytes_per_sector''\<rparr>"
| "flexible_fields FLEX_CYLINDERS = \<lparr>fi_offset = 8, fi_length = 2, fi_name = ''cylinders''\<rparr>"
| "flexible_fields FLEX_WRITE_PRECOMP =
     \<lparr>fi_offset = 10, fi_length = 2, fi_name = ''write_precompensation_start''\<rparr>"
| "flexible_fields FLEX_REDUCED_WRITE_CURRENT =
     \<lparr>fi_offset = 12, fi_length = 2, fi_name = ''reduced_write_current_start''\<rparr>"
| "flexible_fields FLEX_STEP_RATE = \<lparr>fi_offset = 14, fi_length = 2, fi_name = ''step_rate''\<rparr>"
| "flexible_fields FLEX_STEP_PULSE_WIDTH = \<lparr>fi_offset = 16, fi_length = 1, fi_name = ''step_pulse_width''\<rparr>"
| "flexible_fields FLEX_HEAD_SETTLE_DELAY = \<lparr>fi_offset = 17, fi_length = 2, fi_name = ''head_settle_delay''\<rparr>"
| "flexible_fields FLEX_MOTOR_ON_DELAY = \<lparr>fi_offset = 19, fi_length = 1, fi_name = ''motor_on_delay''\<rparr>"
| "flexible_fields FLEX_MOTOR_OFF_DELAY = \<lparr>fi_offset = 20, fi_length = 1, fi_name = ''motor_off_delay''\<rparr>"
| "flexible_fields FLEX_TRDY_SSN_MO = \<lparr>fi_offset = 21, fi_length = 1, fi_name = ''trdy_ssn_mo''\<rparr>"
| "flexible_fields FLEX_SPC = \<lparr>fi_offset = 22, fi_length = 1, fi_name = ''spc''\<rparr>"
| "flexible_fields FLEX_WRITE_COMPENSATION = \<lparr>fi_offset = 23, fi_length = 1, fi_name = ''write_compensation''\<rparr>"
| "flexible_fields FLEX_HEAD_LOAD_DELAY = \<lparr>fi_offset = 24, fi_length = 1, fi_name = ''head_load_delay''\<rparr>"
| "flexible_fields FLEX_HEAD_UNLOAD_DELAY = \<lparr>fi_offset = 25, fi_length = 1, fi_name = ''head_unload_delay''\<rparr>"
| "flexible_fields FLEX_PIN_34_PIN_2 = \<lparr>fi_offset = 26, fi_length = 1, fi_name = ''pin_34_pin_2''\<rparr>"
| "flexible_fields FLEX_PIN_4_PIN_1 = \<lparr>fi_offset = 27, fi_length = 1, fi_name = ''pin_4_pin_1''\<rparr>"
| "flexible_fields FLEX_ROTATION_RATE = \<lparr>fi_offset = 28, fi_length = 2, fi_name = ''medium_rotation_rate''\<rparr>"

text \<open>The enumeration order; \<open>M65_FLEX_FIELD_COUNT\<close> is the length of this list.\<close>

definition flexible_field_order :: "flexible_field list" where
  "flexible_field_order =
     [FLEX_TRANSFER_RATE, FLEX_HEADS, FLEX_SECTORS_PER_TRACK, FLEX_BYTES_PER_SECTOR,
      FLEX_CYLINDERS, FLEX_WRITE_PRECOMP, FLEX_REDUCED_WRITE_CURRENT, FLEX_STEP_RATE,
      FLEX_STEP_PULSE_WIDTH, FLEX_HEAD_SETTLE_DELAY, FLEX_MOTOR_ON_DELAY, FLEX_MOTOR_OFF_DELAY,
      FLEX_TRDY_SSN_MO, FLEX_SPC, FLEX_WRITE_COMPENSATION, FLEX_HEAD_LOAD_DELAY,
      FLEX_HEAD_UNLOAD_DELAY, FLEX_PIN_34_PIN_2, FLEX_PIN_4_PIN_1, FLEX_ROTATION_RATE]"

record flexible_disk_page =
  fp_transfer_rate_kbit :: u16
  fp_heads :: u8
  fp_sectors_per_track :: u8
  fp_bytes_per_sector :: u16
  fp_cylinders :: u16
  fp_medium_rotation_rate_rpm :: u16
  fp_field_changeable :: "bool list"
  fp_page :: bytes

definition zero_flexible :: flexible_disk_page where
  "zero_flexible = \<lparr>fp_transfer_rate_kbit = 0, fp_heads = 0, fp_sectors_per_track = 0,
     fp_bytes_per_sector = 0, fp_cylinders = 0, fp_medium_rotation_rate_rpm = 0,
     fp_field_changeable = replicate 20 False, fp_page = replicate M65_FLEX_PAGE_LENGTH 0\<rparr>"

record mode_parameters =
  mp_raw :: bytes
  mp_raw_length :: nat
  mp_page_offset :: nat
  mp_flexible :: flexible_disk_page

definition zero_mode :: mode_parameters where
  "zero_mode = \<lparr>mp_raw = replicate M65_MODE_BUFFER_SIZE 0, mp_raw_length = 0,
     mp_page_offset = 0, mp_flexible = zero_flexible\<rparr>"

definition m65_flexible_field_name :: "flexible_field \<Rightarrow> string" where
  "m65_flexible_field_name field = fi_name (flexible_fields field)"

section \<open>Command descriptor blocks\<close>

text \<open>Each builder returns the 16-byte array and the number of bytes in use.\<close>

definition cdb_clear :: bytes where
  "cdb_clear = replicate 16 0"

definition m65_cdb_test_unit_ready :: "bytes \<times> nat" where
  "m65_cdb_test_unit_ready = (cdb_clear[0 := M65_OPCODE_TEST_UNIT_READY], 6)"

definition m65_cdb_request_sense :: "u8 \<Rightarrow> bytes \<times> nat" where
  "m65_cdb_request_sense allocation_length =
     (cdb_clear[0 := M65_OPCODE_REQUEST_SENSE, 4 := allocation_length], 6)"

definition m65_cdb_inquiry :: "u8 \<Rightarrow> bytes \<times> nat" where
  "m65_cdb_inquiry allocation_length =
     (cdb_clear[0 := M65_OPCODE_INQUIRY, 4 := allocation_length], 6)"

definition m65_cdb_read_capacity_10 :: "bytes \<times> nat" where
  "m65_cdb_read_capacity_10 = (cdb_clear[0 := M65_OPCODE_READ_CAPACITY_10], 10)"

definition m65_cdb_read_format_capacities :: "u16 \<Rightarrow> bytes \<times> nat" where
  "m65_cdb_read_format_capacities allocation_length =
     (m65_write_be16 (cdb_clear[0 := M65_OPCODE_READ_FORMAT_CAPACITIES]) 7 allocation_length, 10)"

definition m65_cdb_mode_sense_10 :: "bool \<Rightarrow> u16 \<Rightarrow> bytes \<times> nat" where
  "m65_cdb_mode_sense_10 changeable allocation_length =
     (m65_write_be16
        (cdb_clear[0 := M65_OPCODE_MODE_SENSE_10,
                   2 := M65_FLEXIBLE_DISK_PAGE OR (if changeable then 0x40 else 0x00)])
        7 allocation_length, 10)"

definition m65_cdb_mode_select_10 :: "u16 \<Rightarrow> bytes \<times> nat" where
  "m65_cdb_mode_select_10 parameter_length =
     (m65_write_be16 (cdb_clear[0 := M65_OPCODE_MODE_SELECT_10, 1 := 0x10]) 7 parameter_length, 10)"

definition m65_cdb_read_10 :: "u32 \<Rightarrow> u16 \<Rightarrow> bytes \<times> nat" where
  "m65_cdb_read_10 lba blocks =
     (m65_write_be16 (m65_write_be32 (cdb_clear[0 := M65_OPCODE_READ_10]) 2 lba) 7 blocks, 10)"

section \<open>Response parsers\<close>

text \<open>Drop trailing blanks and NULs, then truncate to the destination.\<close>

fun trim_used :: "bytes \<Rightarrow> nat \<Rightarrow> nat" where
  "trim_used source 0 = 0"
| "trim_used source (Suc used) =
     (if source ! used = 0x20 \<or> source ! used = 0 then trim_used source used else Suc used)"

definition trim_copy :: "nat \<Rightarrow> bytes \<Rightarrow> string" where
  "trim_copy destination_size source =
     (let used = trim_used source (length source);
          used = (if used \<ge> destination_size then destination_size - 1 else used)
      in map char_of_byte (take used source))"

definition m65_parse_inquiry :: "bytes option \<Rightarrow> nat \<Rightarrow> m65_inquiry \<Rightarrow> m65_inquiry parsed" where
  "m65_parse_inquiry data len out =
     (case data of
        None \<Rightarrow> Inl (''INQUIRY response is shorter than 36 bytes'', out)
      | Some d \<Rightarrow>
          if len < 36 then Inl (''INQUIRY response is shorter than 36 bytes'', out)
          else Inr \<lparr>inq_vendor = trim_copy 9 (take 8 (drop 8 d)),
                    inq_product = trim_copy 17 (take 16 (drop 16 d)),
                    inq_firmware = trim_copy 5 (take 4 (drop 32 d))\<rparr>)"

text \<open>\<open>m65_parse_sense\<close> has no detail; on a recognised-but-short or unknown response it
  returns false with only the response code stored.\<close>

definition m65_parse_sense :: "bytes option \<Rightarrow> nat \<Rightarrow> m65_sense \<Rightarrow> m65_sense + m65_sense" where
  "m65_parse_sense data len out =
     (case data of
        None \<Rightarrow> Inl out
      | Some d \<Rightarrow>
          if len = 0 then Inl out
          else
            let code = d ! 0 AND 0x7f;
                out0 = zero_sense\<lparr>sense_response_code := code\<rparr>
            in if (code = 0x70 \<or> code = 0x71) \<and> len \<ge> 14
               then Inr (out0\<lparr>sense_key := d ! 2 AND 0x0f, sense_asc := d ! 12,
                              sense_ascq := d ! 13, sense_valid := True\<rparr>)
               else if (code = 0x72 \<or> code = 0x73) \<and> len \<ge> 4
               then Inr (out0\<lparr>sense_key := d ! 1 AND 0x0f, sense_asc := d ! 2,
                              sense_ascq := d ! 3, sense_valid := True\<rparr>)
               else Inl out0)"

definition m65_parse_read_capacity_10 :: "bytes option \<Rightarrow> nat \<Rightarrow> m65_capacity \<Rightarrow> m65_capacity parsed" where
  "m65_parse_read_capacity_10 data len out =
     (case (m65_read_be32 data len 0, m65_read_be32 data len 4) of
        (Some last_lba, Some block_size) \<Rightarrow>
          if last_lba = 0xffffffff
          then Inl (''READ CAPACITY (10) uses the unsupported 0xffffffff sentinel'', out)
          else Inr \<lparr>cap_blocks = last_lba + 1, cap_block_size = block_size\<rparr>
      | _ \<Rightarrow> Inl (''READ CAPACITY (10) response is shorter than 8 bytes'', out))"

text \<open>The descriptor loop: \<open>remaining\<close> is the number of descriptors between \<open>offset\<close> and the
  end of the list.\<close>

fun format_loop :: "bytes \<Rightarrow> nat \<Rightarrow> nat \<Rightarrow> nat \<Rightarrow> format_capacities \<Rightarrow> format_capacities parsed" where
  "format_loop d len offset 0 out = Inr out"
| "format_loop d len offset (Suc remaining) out =
     (case (m65_read_be32 (Some d) len offset, m65_read_be24 (Some d) len (offset + 5)) of
        (Some blocks, Some block_size) \<Rightarrow>
          format_loop d len (offset + 8) remaining
            (out @ [\<lparr>fd_blocks = blocks, fd_block_size = block_size,
                     fd_descriptor_code = d ! (offset + 4) AND 0x03\<rparr>])
      | _ \<Rightarrow> Inl (''format-capacity descriptor is truncated'', out))"

definition m65_parse_format_capacities ::
    "bytes option \<Rightarrow> nat \<Rightarrow> format_capacities \<Rightarrow> format_capacities parsed" where
  "m65_parse_format_capacities data len out =
     (case data of
        None \<Rightarrow> Inl (''READ FORMAT CAPACITIES response is shorter than 4 bytes'', out)
      | Some d \<Rightarrow>
          if len < 4 then Inl (''READ FORMAT CAPACITIES response is shorter than 4 bytes'', out)
          else
            let descriptor_bytes = unat (d ! 3)
            in if descriptor_bytes mod 8 \<noteq> 0
               then Inl (''format-capacity list length is not a multiple of 8'', out)
               else if descriptor_bytes > len - 4
               then Inl (''format-capacity descriptor list is truncated'', out)
               else if descriptor_bytes div 8 > M65_MAX_FORMAT_DESCRIPTORS
               then Inl (''too many format-capacity descriptors'', out)
               else format_loop d len 4 (descriptor_bytes div 8) [])"

text \<open>\<open>(void)m65_read_be16 (..., &field)\<close> after \<open>memset\<close>: zero when the read fails.\<close>

definition be16_or_zero :: "bytes \<Rightarrow> nat \<Rightarrow> nat \<Rightarrow> u16" where
  "be16_or_zero d len off = (case m65_read_be16 (Some d) len off of None \<Rightarrow> 0 | Some v \<Rightarrow> v)"

definition decode_flexible :: "bytes \<Rightarrow> nat \<Rightarrow> flexible_disk_page \<Rightarrow> flexible_disk_page parsed" where
  "decode_flexible page len out =
     (if len < M65_FLEX_PAGE_LENGTH
      then Inl (''Flexible Disk page is shorter than 32 bytes'', out)
      else if (page ! 0 AND 0x3f) \<noteq> M65_FLEXIBLE_DISK_PAGE \<or> (page ! 0 AND 0x40) \<noteq> 0
      then Inl (''response does not contain a non-subpage Flexible Disk page'', out)
      else if page ! 1 < 30 \<or> unat (page ! 1) + 2 > len
      then Inl (''Flexible Disk page length is malformed'', out)
      else Inr \<lparr>fp_transfer_rate_kbit = be16_or_zero page len 2,
                fp_heads = page ! 4,
                fp_sectors_per_track = page ! 5,
                fp_bytes_per_sector = be16_or_zero page len 6,
                fp_cylinders = be16_or_zero page len 8,
                fp_medium_rotation_rate_rpm = be16_or_zero page len 28,
                fp_field_changeable = replicate 20 False,
                fp_page = take M65_FLEX_PAGE_LENGTH page\<rparr>)"

text \<open>The walk over the mode pages.\<close>

function mode_page_loop :: "bytes \<Rightarrow> nat \<Rightarrow> nat \<Rightarrow> mode_parameters \<Rightarrow> mode_parameters parsed" where
  "mode_page_loop d declared_length offset out =
     (if offset < declared_length then
        if declared_length - offset < 2
        then Inl (''MODE SENSE page header is truncated'', out)
        else if (d ! offset AND 0x40) \<noteq> 0
        then Inl (''MODE SENSE subpages are not accepted for safety'', out)
        else
          let page_length = unat (d ! (offset + 1)) + 2
          in if page_length > declared_length - offset
             then Inl (''MODE SENSE page data is truncated'', out)
             else if (d ! offset AND 0x3f) = M65_FLEXIBLE_DISK_PAGE
             then (case decode_flexible (drop offset d) page_length (mp_flexible out) of
                     Inl (detail, flex) \<Rightarrow>
                       Inl (detail, out\<lparr>mp_page_offset := offset, mp_flexible := flex\<rparr>)
                   | Inr flex \<Rightarrow> Inr (out\<lparr>mp_page_offset := offset, mp_flexible := flex\<rparr>))
             else mode_page_loop d declared_length (offset + page_length) out
      else Inl (''MODE SENSE response has no Flexible Disk page'', out))"
  by pat_completeness auto
termination
  by (relation "measure (\<lambda>(d, declared_length, offset, out). declared_length - offset)") auto

declare mode_page_loop.simps [simp del]

definition m65_parse_mode_parameters ::
    "bytes option \<Rightarrow> nat \<Rightarrow> mode_parameters \<Rightarrow> mode_parameters parsed" where
  "m65_parse_mode_parameters data len out =
     (case data of
        None \<Rightarrow> Inl (''MODE SENSE (10) response is shorter than its header'', out)
      | Some d \<Rightarrow>
          if len < 8 then Inl (''MODE SENSE (10) response is shorter than its header'', out)
          else
            (case (m65_read_be16 data len 0, m65_read_be16 data len 6) of
               (Some mode_data_length, Some block_descriptor_length) \<Rightarrow>
                 let declared_length = unat mode_data_length + 2;
                     offset = 8 + unat block_descriptor_length
                 in if declared_length < 8 \<or> declared_length > len \<or>
                       declared_length > M65_MODE_BUFFER_SIZE
                    then Inl (''MODE SENSE (10) declared length is truncated or too large'', out)
                    else if offset > declared_length
                    then Inl (''MODE SENSE block descriptor length exceeds the response'', out)
                    else mode_page_loop d declared_length offset
                           (zero_mode\<lparr>mp_raw := buf_write 0 (take declared_length d) (mp_raw zero_mode),
                                      mp_raw_length := declared_length\<rparr>)
             | _ \<Rightarrow> Inl (''MODE SENSE (10) response is shorter than its header'', out)))"

section \<open>Flexible Disk page\<close>

definition field_masked :: "bytes \<Rightarrow> field_info \<Rightarrow> bool" where
  "field_masked msk info = list_ex (\<lambda>b. msk ! (fi_offset info + b) \<noteq> 0) [0..<fi_length info]"

definition m65_apply_changeability :: "flexible_disk_page \<Rightarrow> flexible_disk_page \<Rightarrow> flexible_disk_page" where
  "m65_apply_changeability current msk =
     current\<lparr>fp_field_changeable :=
       map (\<lambda>field. field_masked (fp_page msk) (flexible_fields field)) flexible_field_order\<rparr>"

definition m65_set_1581_geometry :: "flexible_disk_page \<Rightarrow> flexible_disk_page" where
  "m65_set_1581_geometry page =
     (let p = m65_write_be16 (fp_page page) 2 250;
          p = p[4 := 2];
          p = p[5 := 10];
          p = m65_write_be16 p 6 512;
          p = m65_write_be16 p 8 80;
          p = m65_write_be16 p 28 300
      in page\<lparr>fp_page := p, fp_transfer_rate_kbit := 250, fp_heads := 2,
              fp_sectors_per_track := 10, fp_bytes_per_sector := 512, fp_cylinders := 80,
              fp_medium_rotation_rate_rpm := 300\<rparr>)"

definition m65_geometry_is_1581 :: "flexible_disk_page \<Rightarrow> bool" where
  "m65_geometry_is_1581 page \<longleftrightarrow>
     fp_transfer_rate_kbit page = 250 \<and> fp_heads page = 2 \<and> fp_sectors_per_track page = 10 \<and>
     fp_bytes_per_sector page = 512 \<and> fp_cylinders page = 80 \<and>
     fp_medium_rotation_rate_rpm page = 300"

definition geometry_required :: "flexible_field list" where
  "geometry_required = [FLEX_TRANSFER_RATE, FLEX_HEADS, FLEX_SECTORS_PER_TRACK,
     FLEX_BYTES_PER_SECTOR, FLEX_CYLINDERS, FLEX_ROTATION_RATE]"

definition byte_change_allowed :: "bytes \<Rightarrow> bytes \<Rightarrow> bytes \<Rightarrow> nat \<Rightarrow> bool" where
  "byte_change_allowed current desired msk offset \<longleftrightarrow>
     ((current ! offset XOR desired ! offset) AND NOT (msk ! offset)) = 0"

fun changes_allowed_loop :: "bytes \<Rightarrow> bytes \<Rightarrow> bytes \<Rightarrow> flexible_field list \<Rightarrow> string + unit" where
  "changes_allowed_loop current desired msk [] = Inr ()"
| "changes_allowed_loop current desired msk (field # rest) =
     (let info = flexible_fields field
      in if list_all (\<lambda>b. byte_change_allowed current desired msk (fi_offset info + b))
              [0..<fi_length info]
         then changes_allowed_loop current desired msk rest
         else Inl (''controller mask does not permit requested '' @ fi_name info @ '' change''))"

definition m65_geometry_changes_allowed ::
    "flexible_disk_page \<Rightarrow> flexible_disk_page \<Rightarrow> flexible_disk_page \<Rightarrow> string + unit" where
  "m65_geometry_changes_allowed current desired msk =
     changes_allowed_loop (fp_page current) (fp_page desired) (fp_page msk) geometry_required"

text \<open>On success the first 40 bytes of the caller's buffer are the result.\<close>

definition m65_build_mode_select_payload :: "flexible_disk_page \<Rightarrow> nat \<Rightarrow> string + bytes" where
  "m65_build_mode_select_payload page capacity =
     (let required = 8 + M65_FLEX_PAGE_LENGTH
      in if capacity < required then Inl ''MODE SELECT buffer is too small''
         else if (fp_page page ! 0 AND 0x3f) \<noteq> M65_FLEXIBLE_DISK_PAGE \<or>
                 (fp_page page ! 0 AND 0x40) \<noteq> 0 \<or> fp_page page ! 1 \<noteq> 30
         then Inl ''MODE SELECT payload is not exactly Flexible Disk page 0x05''
         else
           let data = buf_write 8 (fp_page page) (replicate required 0)
           in Inr (data[8 := data ! 8 AND 0x3f]))"

section \<open>Command validation\<close>

definition validate_data :: "m65_command \<Rightarrow> data_direction \<Rightarrow> string + unit" where
  "validate_data command direction =
     (if c_direction command \<noteq> direction then Inl ''opcode has an invalid data direction''
      else if direction = DATA_NONE then
        if c_data command \<noteq> None \<or> c_data_length command \<noteq> 0
        then Inl ''no-data opcode was given a data buffer''
        else Inr ()
      else if c_data command = None \<or> c_data_length command = 0
      then Inl ''data-transfer opcode has no data buffer''
      else Inr ())"

definition m65_validate_command :: "m65_command \<Rightarrow> string + unit" where
  "m65_validate_command command =
     (if c_cdb_length command = 0 then Inl ''missing command descriptor block''
      else
        let cdb = c_cdb command;
            opcode = cdb ! 0;
            encoded_length = m65_read_be16 (Some cdb) (c_cdb_length command) 7
        in
        if opcode = M65_OPCODE_TEST_UNIT_READY then
          (if c_cdb_length command = 6 then validate_data command DATA_NONE else Inl [])
        else if opcode = M65_OPCODE_REQUEST_SENSE then
          (if c_cdb_length command \<noteq> 6 \<or> validate_data command DATA_IN \<noteq> Inr () \<or>
              cdb ! 1 \<noteq> 0 \<or> cdb ! 2 \<noteq> 0 \<or> cdb ! 3 \<noteq> 0 \<or> cdb ! 5 \<noteq> 0 \<or> cdb ! 4 = 0 \<or>
              c_data_length command \<noteq> unat (cdb ! 4)
           then Inl ''REQUEST SENSE length or reserved fields are invalid''
           else Inr ())
        else if opcode = M65_OPCODE_INQUIRY then
          (if c_cdb_length command = 6 then validate_data command DATA_IN else Inl [])
        else if opcode = M65_OPCODE_READ_FORMAT_CAPACITIES \<or>
                opcode = M65_OPCODE_READ_CAPACITY_10 \<or> opcode = M65_OPCODE_MODE_SENSE_10 then
          (if c_cdb_length command = 10 then validate_data command DATA_IN else Inl [])
        else if opcode = M65_OPCODE_READ_10 then
          (if c_cdb_length command \<noteq> 10 \<or> validate_data command DATA_IN \<noteq> Inr () \<or>
              encoded_length = None \<or> the encoded_length = 0 \<or>
              c_data_length command \<noteq> unat (the encoded_length) * 512
           then Inl ''READ (10) length does not match its 512-byte buffer''
           else Inr ())
        else if opcode = M65_OPCODE_MODE_SELECT_10 then
          (if c_cdb_length command \<noteq> 10 \<or> validate_data command DATA_OUT \<noteq> Inr () \<or>
              cdb ! 1 \<noteq> 0x10 \<or> cdb ! 2 \<noteq> 0 \<or> cdb ! 3 \<noteq> 0 \<or> cdb ! 4 \<noteq> 0 \<or> cdb ! 5 \<noteq> 0 \<or>
              cdb ! 6 \<noteq> 0 \<or> cdb ! 9 \<noteq> 0 \<or>
              encoded_length = None \<or> unat (the encoded_length) \<noteq> c_data_length command \<or>
              c_data_length command \<noteq> 40
           then Inl ''MODE SELECT (10) length is invalid''
           else
             let payload = the (c_data command)
             in if list_ex (\<lambda>i. payload ! i \<noteq> 0) [0..<8]
                then Inl ''MODE SELECT parameter header must be empty''
                else if payload ! 8 \<noteq> M65_FLEXIBLE_DISK_PAGE \<or> payload ! 9 \<noteq> 30
                then Inl ''MODE SELECT data-out is not the single permitted Flexible Disk page''
                else Inr ())
        else Inl ''opcode is not on the explicit diagnostic allowlist'')"

section \<open>Decoding the Flexible Disk page\<close>

text \<open>A page structure whose fields are those of its 32 bytes.\<close>

definition flexible_wf :: "flexible_disk_page \<Rightarrow> bool" where
  "flexible_wf f \<longleftrightarrow>
     length (fp_page f) = 32 \<and> length (fp_field_changeable f) = 20 \<and>
     fp_page f ! 0 AND 0x3f = M65_FLEXIBLE_DISK_PAGE \<and> fp_page f ! 0 AND 0x40 = 0 \<and>
     30 \<le> unat (fp_page f ! 1) \<and>
     be16_at (fp_page f) 2 = Some (fp_transfer_rate_kbit f) \<and>
     fp_page f ! 4 = fp_heads f \<and> fp_page f ! 5 = fp_sectors_per_track f \<and>
     be16_at (fp_page f) 6 = Some (fp_bytes_per_sector f) \<and>
     be16_at (fp_page f) 8 = Some (fp_cylinders f) \<and>
     be16_at (fp_page f) 28 = Some (fp_medium_rotation_rate_rpm f)"

lemma be16_or_zero_page:
  assumes "off + 2 \<le> 32" "32 \<le> len" "len \<le> length d"
  shows "be16_at (take 32 d) off = Some (be16_or_zero d len off)"
proof -
  have "off \<le> len" "2 \<le> len - off" using assms by auto
  then show ?thesis
    using assms by (simp add: be16_at_eq be16_or_zero_def m65_read_be16_def available_def)
qed

lemma decode_flexible_Inr:
  assumes "decode_flexible page len out = Inr f" and "len \<le> length page"
  shows "flexible_wf f" and "fp_page f = take 32 page" and "32 \<le> len"
proof -
  from assms(1) show len: "32 \<le> len" by (auto simp: decode_flexible_def split: if_splits)
  from assms(1) show p: "fp_page f = take 32 page"
    by (auto simp: decode_flexible_def split: if_splits)
  note be = be16_or_zero_page [OF _ len assms(2)]
  have "30 \<le> unat (page ! 1)" using assms(1)
    by (auto simp: decode_flexible_def not_less word_le_nat_alt split: if_splits)
  with assms(1) show "flexible_wf f"
    using len assms(2) be [of 2] be [of 6] be [of 8] be [of 28]
    by (auto simp: decode_flexible_def flexible_wf_def split: if_splits)
qed

lemma decode_flexible_accepts:
  assumes "32 \<le> len" and "page ! 0 AND 0x3f = M65_FLEXIBLE_DISK_PAGE" "page ! 0 AND 0x40 = 0"
    and "30 \<le> unat (page ! 1)" "unat (page ! 1) + 2 \<le> len"
  shows "\<exists>f. decode_flexible page len out = Inr f"
  using assms by (auto simp: decode_flexible_def word_less_nat_alt)

lemma mode_page_loop_Inr:
  assumes "mode_page_loop d declared offset out = Inr m" and "declared \<le> length d"
  shows "offset \<le> mp_page_offset m \<and> mp_page_offset m + 32 \<le> declared \<and>
         flexible_wf (mp_flexible m) \<and> fp_page (mp_flexible m) = take 32 (drop (mp_page_offset m) d) \<and>
         mp_raw m = mp_raw out \<and> mp_raw_length m = mp_raw_length out"
  using assms
proof (induction d declared offset out rule: mode_page_loop.induct)
  case (1 d declared offset out)
  let ?n = "unat (d ! (offset + 1)) + 2"
  have g: "offset < declared" "\<not> declared - offset < 2" "d ! offset AND 0x40 = 0"
    "?n \<le> declared - offset"
    using "1.prems"(1) by (auto simp: mode_page_loop.simps [of d declared] Let_def split: if_splits)
  show ?case
  proof (cases "d ! offset AND 0x3f = M65_FLEXIBLE_DISK_PAGE")
    case True
    with "1.prems" g obtain f where f: "decode_flexible (drop offset d) ?n (mp_flexible out) = Inr f"
      and m: "m = out\<lparr>mp_page_offset := offset, mp_flexible := f\<rparr>"
      by (auto simp: mode_page_loop.simps [of d declared] Let_def split: sum.splits)
    note D = decode_flexible_Inr [OF f]
    have "?n \<le> length (drop offset d)" using g "1.prems"(2) by simp
    with D m g show ?thesis by simp
  next
    case False
    have "mode_page_loop d declared (offset + ?n) out = Inr m"
      using "1.prems"(1) g False by (simp add: mode_page_loop.simps [of d declared offset] Let_def)
    with "1.IH" [OF g(1,2) _ refl _ False _ "1.prems"(2)] g show ?thesis by simp
  qed
qed

lemma parse_mode_parameters_Inr:
  assumes "m65_parse_mode_parameters (Some d) len out = Inr m" and "len \<le> length d"
  shows "flexible_wf (mp_flexible m)"
    and "8 \<le> mp_page_offset m" and "mp_page_offset m + 32 \<le> mp_raw_length m"
    and "mp_raw_length m \<le> len" and "mp_raw_length m \<le> 256"
    and "fp_page (mp_flexible m) = take 32 (drop (mp_page_offset m) d)"
    and "take (mp_raw_length m) (mp_raw m) = take (mp_raw_length m) d" and "length (mp_raw m) = 256"
proof -
  from assms(1) obtain n b where n: "m65_read_be16 (Some d) len 0 = Some n"
    and b: "m65_read_be16 (Some d) len 6 = Some b" and len: "\<not> len < 8"
    by (auto simp: m65_parse_mode_parameters_def split: if_splits option.splits)
  let ?declared = "unat n + 2" and ?offset = "8 + unat b"
  let ?out = "zero_mode\<lparr>mp_raw := buf_write 0 (take ?declared d) (mp_raw zero_mode), mp_raw_length := ?declared\<rparr>"
  from assms(1) n b len have g: "\<not> (?declared < 8 \<or> ?declared > len \<or> ?declared > 256)"
      "\<not> ?offset > ?declared" and loop: "mode_page_loop d ?declared ?offset ?out = Inr m"
    by (auto simp: m65_parse_mode_parameters_def Let_def split: if_splits)
  from g assms(2) have "?declared \<le> length d" by simp
  note L = mode_page_loop_Inr [OF loop this]
  show "flexible_wf (mp_flexible m)" "8 \<le> mp_page_offset m" "mp_page_offset m + 32 \<le> mp_raw_length m"
    "fp_page (mp_flexible m) = take 32 (drop (mp_page_offset m) d)" using L by auto
  show "mp_raw_length m \<le> len" "mp_raw_length m \<le> 256" using L g by auto
  have "length (take ?declared d) = ?declared" using g assms(2) by simp
  then show "take (mp_raw_length m) (mp_raw m) = take (mp_raw_length m) d"
    using L g by (simp add: buf_write_def)
  show "length (mp_raw m) = 256"
    using L g by (auto simp: zero_mode_def buf_write_def)
qed

section \<open>The 1581 geometry\<close>

definition geometry_offsets :: "nat list" where
  "geometry_offsets = [2, 3, 4, 5, 6, 7, 8, 9, 28, 29]"

lemmas page_write = m65_set_1581_geometry_def Let_def m65_write_be16_def

lemma length_set_1581 [simp]: "length (fp_page (m65_set_1581_geometry f)) = length (fp_page f)"
  by (simp add: page_write)

lemma set_1581_page_eq:
  assumes "length (fp_page f) = 32" and "i < 32"
  shows "fp_page (m65_set_1581_geometry f) ! i =
    (if i = 3 then 250 else if i = 4 then 2 else if i = 5 then 10 else if i = 6 then 2
     else if i = 9 then 80 else if i = 28 then 1 else if i = 29 then 44
     else if i \<in> {2, 7, 8} then 0 else fp_page f ! i)"
  using assms by (auto simp: page_write nth_list_update)

lemma set_1581_frame:
  "i \<notin> set geometry_offsets \<Longrightarrow> fp_page (m65_set_1581_geometry f) ! i = fp_page f ! i"
  by (simp add: geometry_offsets_def page_write)

lemma set_1581_is_1581 [simp]: "m65_geometry_is_1581 (m65_set_1581_geometry f)"
  by (simp add: m65_geometry_is_1581_def page_write)

lemma set_1581_wf: "flexible_wf f \<Longrightarrow> flexible_wf (m65_set_1581_geometry f)"
  by (simp add: flexible_wf_def set_1581_page_eq be16_at_eq) (simp add: page_write)

lemma wf_1581_bytes:
  assumes "flexible_wf f"
  shows "m65_geometry_is_1581 f \<longleftrightarrow>
    (\<forall>i \<in> set geometry_offsets. fp_page f ! i = fp_page (m65_set_1581_geometry f) ! i)"
proof -
  have inj: "be16_at d off = Some v \<Longrightarrow> off + 2 \<le> length d \<Longrightarrow>
      v = w \<longleftrightarrow> d ! off = ucast (drop_bit 8 w) \<and> d ! (off + 1) = ucast w" for d off v w
    using be16_split_join [of "d ! off" "d ! (off + 1)"] be16_join_split [of w]
    by (auto simp: be16_at_eq)
  show ?thesis
    using assms inj [of "fp_page f" 2 _ 250] inj [of "fp_page f" 6 _ 512]
      inj [of "fp_page f" 8 _ 80] inj [of "fp_page f" 28 _ 300]
    by (auto simp: flexible_wf_def m65_geometry_is_1581_def geometry_offsets_def set_1581_page_eq)
qed

lemma bits_allowed_iff:
  "byte_change_allowed c d m off \<longleftrightarrow> (\<forall>n. bit (c ! off) n \<noteq> bit (d ! off) n \<longrightarrow> bit (m ! off) n)"
proof -
  have "byte_change_allowed c d m off \<longleftrightarrow>
      (\<forall>n < 8. \<not> bit ((c ! off XOR d ! off) AND NOT (m ! off)) n)"
    by (auto simp: byte_change_allowed_def bit_eq_iff)
  also have "\<dots> \<longleftrightarrow> (\<forall>n. bit (c ! off) n \<noteq> bit (d ! off) n \<longrightarrow> bit (m ! off) n)"
  proof -
    have "n < 8" if "bit (x :: u8) n" for x n using bit_imp_le_length [OF that] by simp
    then show ?thesis by (auto simp: bit_simps)
  qed
  finally show ?thesis .
qed

lemma changes_allowed_iff:
  "m65_geometry_changes_allowed c d m = Inr () \<longleftrightarrow>
     (\<forall>i \<in> set geometry_offsets. byte_change_allowed (fp_page c) (fp_page d) (fp_page m) i)"
proof -
  have "[0..<2] = [0, 1 :: nat]" by (simp add: upt_rec)
  then show ?thesis
    by (auto simp: m65_geometry_changes_allowed_def geometry_required_def geometry_offsets_def
        simp del: add_2_eq_Suc add_2_eq_Suc')
qed

section \<open>MODE SELECT payload\<close>

lemma payload_eq:
  assumes "length (fp_page f) = 32"
  shows "m65_build_mode_select_payload f 40 =
    (if fp_page f ! 0 AND 0x3f = M65_FLEXIBLE_DISK_PAGE \<and> fp_page f ! 0 AND 0x40 = 0 \<and> fp_page f ! 1 = 30
     then Inr (replicate 8 0 @ M65_FLEXIBLE_DISK_PAGE # drop 1 (fp_page f))
     else Inl ''MODE SELECT payload is not exactly Flexible Disk page 0x05'')"
proof (cases "fp_page f ! 0 AND 0x3f = M65_FLEXIBLE_DISK_PAGE \<and> fp_page f ! 0 AND 0x40 = 0 \<and> fp_page f ! 1 = 30")
  case True
  have p: "fp_page f = fp_page f ! 0 # drop 1 (fp_page f)"
    using assms by (cases "fp_page f") auto
  have "buf_write 8 (fp_page f) (replicate 40 0) = replicate 8 0 @ fp_page f"
    using assms by (simp add: buf_write_def)
  also have "\<dots>[8 := (replicate 8 0 @ fp_page f) ! 8 AND 0x3f] =
      replicate 8 0 @ M65_FLEXIBLE_DISK_PAGE # drop 1 (fp_page f)"
    using True by (subst (1) p) (simp add: nth_append list_update_append)
  finally show ?thesis using True by (simp add: m65_build_mode_select_payload_def Let_def)
next
  case False
  then show ?thesis by (auto simp: m65_build_mode_select_payload_def Let_def)
qed

section \<open>Validated commands\<close>

definition allowlist :: "u8 set" where
  "allowlist = {M65_OPCODE_TEST_UNIT_READY, M65_OPCODE_REQUEST_SENSE, M65_OPCODE_INQUIRY,
     M65_OPCODE_READ_FORMAT_CAPACITIES, M65_OPCODE_READ_CAPACITY_10, M65_OPCODE_READ_10,
     M65_OPCODE_MODE_SELECT_10, M65_OPCODE_MODE_SENSE_10}"

lemma validate_data_Inr:
  "validate_data c dir = Inr () \<longleftrightarrow>
     c_direction c = dir \<and>
     (if dir = DATA_NONE then c_data c = None \<and> c_data_length c = 0
      else c_data c \<noteq> None \<and> c_data_length c \<noteq> 0)"
  by (auto simp: validate_data_def)

lemma validate_command_Inr_cases:
  assumes "m65_validate_command c = Inr ()"
  shows "c_cdb c ! 0 \<in> allowlist"
    and "c_direction c = (if c_cdb c ! 0 = M65_OPCODE_TEST_UNIT_READY then DATA_NONE
           else if c_cdb c ! 0 = M65_OPCODE_MODE_SELECT_10 then DATA_OUT else DATA_IN)"
    and "c_cdb_length c = (if c_cdb c ! 0 \<in> {M65_OPCODE_TEST_UNIT_READY, M65_OPCODE_REQUEST_SENSE,
           M65_OPCODE_INQUIRY} then 6 else 10)"
    and "c_data c = None \<longleftrightarrow> c_direction c = DATA_NONE"
    and "c_data_length c = 0 \<longleftrightarrow> c_direction c = DATA_NONE"
  using assms
  by (auto simp: m65_validate_command_def validate_data_Inr allowlist_def Let_def split: if_splits)

lemma validate_read_10:
  assumes "m65_validate_command c = Inr ()" and "c_cdb c ! 0 = M65_OPCODE_READ_10"
  shows "\<exists>n. m65_read_be16 (Some (c_cdb c)) 10 7 = Some n \<and> 0 < unat n \<and>
             c_data_length c = unat n * 512"
  using assms
  by (auto simp: m65_validate_command_def validate_data_Inr Let_def unat_gt_0 split: if_splits)

lemma be16_40:
  assumes "unat (push_bit 8 (ucast hi) OR ucast lo :: u16) = 40"
  shows "(hi :: u8) = 0" and "(lo :: u8) = 40"
proof -
  have "unat hi = 0 \<and> unat lo = 40" using assms unfolding unat_be16 by presburger
  then show "hi = 0" "lo = 40" by (simp_all add: word_unat_eq_iff)
qed

lemma list_10_eq:
  "length xs \<ge> 10 \<Longrightarrow> take 10 xs = [xs!0, xs!1, xs!2, xs!3, xs!4, xs!5, xs!6, xs!7, xs!8, xs!9]"
  by (rule nth_equalityI) (auto simp: nth_Cons' less_Suc_eq numeral_eq_Suc)

lemma validate_mode_select:
  assumes v: "m65_validate_command c = Inr ()" and out: "c_direction c = DATA_OUT"
    and wf: "command_wf c"
  shows "c_cdb_length c = 10"
    and "take 10 (c_cdb c) = [M65_OPCODE_MODE_SELECT_10, 0x10, 0, 0, 0, 0, 0, 0, 40, 0]"
    and "\<exists>tail. length tail = 30 \<and>
           c_data c = Some (replicate 8 0 @ [M65_FLEXIBLE_DISK_PAGE, 30] @ tail)"
proof -
  have op: "c_cdb c ! 0 = M65_OPCODE_MODE_SELECT_10"
    using validate_command_Inr_cases(2) [OF v] out by (auto split: if_splits)
  obtain d where d: "c_data c = Some d" using validate_command_Inr_cases(4) [OF v] out by auto
  have g: "c_cdb c ! 1 = 0x10" "c_cdb c ! 2 = 0" "c_cdb c ! 3 = 0" "c_cdb c ! 4 = 0" "c_cdb c ! 5 = 0"
      "c_cdb c ! 6 = 0" "c_cdb c ! 9 = 0" "c_data_length c = 40"
      "unat (push_bit 8 (ucast (c_cdb c ! 7)) OR ucast (c_cdb c ! 8) :: u16) = 40"
      "\<forall>i < 8. d ! i = 0" "d ! 8 = M65_FLEXIBLE_DISK_PAGE" "d ! 9 = 30" and len: "c_cdb_length c = 10"
    using v op d
    by (auto simp: m65_validate_command_def Let_def validate_data_Inr m65_read_be16_def available_def
        list_ex_iff split: if_splits)
  show "c_cdb_length c = 10" by (rule len)
  have "length (c_cdb c) = 16" "length d = 40" using wf d g(8) by (auto simp: command_wf_def)
  then show "take 10 (c_cdb c) = [M65_OPCODE_MODE_SELECT_10, 0x10, 0, 0, 0, 0, 0, 0, 40, 0]"
    using g op be16_40 [OF g(9)] by (simp add: list_10_eq)
  have "take 8 d = replicate 8 0"
    using g(10) \<open>length d = 40\<close> by (auto intro!: replicate_eqI simp: in_set_conv_nth)
  moreover have "take 2 (drop 8 d) = [M65_FLEXIBLE_DISK_PAGE, 30]"
    using g(11,12) \<open>length d = 40\<close> by (simp add: take_Suc_conv_app_nth numeral_2_eq_2)
  moreover have "d = take 8 d @ take 2 (drop 8 d) @ drop 2 (drop 8 d)" by (simp only: append_take_drop_id)
  ultimately have "d = replicate 8 0 @ [M65_FLEXIBLE_DISK_PAGE, 30] @ drop 10 d" by simp
  then show "\<exists>tail. length tail = 30 \<and> c_data c = Some (replicate 8 0 @ [M65_FLEXIBLE_DISK_PAGE, 30] @ tail)"
    using d \<open>length d = 40\<close> by (intro exI [of _ "drop 10 d"]) auto
qed

text \<open>The MODE SELECT (10) command the program builds around a payload.\<close>

definition select_command :: "bytes \<Rightarrow> u32 \<Rightarrow> m65_command" where
  "select_command d t = \<lparr>c_cdb = fst (m65_cdb_mode_select_10 40), c_cdb_length = 10,
     c_direction = DATA_OUT, c_data = Some d, c_data_length = 40, c_timeout_ms = t\<rparr>"

lemma cdb_mode_select_40: "m65_cdb_mode_select_10 40 = ([0x55, 0x10, 0, 0, 0, 0, 0, 0, 40, 0, 0, 0, 0, 0, 0, 0], 10)"
proof -
  have "replicate 16 (0 :: u8) = [0, 0, 0, 0, 0, 0, 0, 0, 0, 0, 0, 0, 0, 0, 0, 0]"
    by (simp add: numeral_eq_Suc)
  then show ?thesis
    by (simp add: m65_cdb_mode_select_10_def cdb_clear_def m65_write_be16_def)
qed

lemma select_command_valid:
  assumes "take 8 d = replicate 8 0" and "d ! 8 = 5" and "d ! 9 = 30"
  shows "m65_validate_command (select_command d t) = Inr ()"
proof -
  have "d ! i = 0" if "i < 8" for i
    using that assms(1) by (metis nth_replicate nth_take)
  then have "\<not> list_ex (\<lambda>i. d ! i \<noteq> 0) [0..<8]" by (auto simp: list_ex_iff)
  then show ?thesis using assms(2,3)
    by (simp add: select_command_def m65_validate_command_def validate_data_def cdb_mode_select_40
        m65_read_be16_def available_def Let_def)
qed

end
