(* ===== verification/M65_UfiProps.thy ===== *)
theory M65_UfiProps
  imports M65_Ufi
begin

text \<open>
  What the UFI layer guarantees (\<open>src/ufi.c\<close>): the parsers read only inside the response and
  recover what was encoded, the validator lets nothing but the allowlisted commands through,
  and the geometry request changes nothing the device's mask does not permit.
\<close>

section \<open>Capacities, sense and identity\<close>

definition decode_descriptor :: "bytes \<Rightarrow> nat \<Rightarrow> format_descriptor" where
  "decode_descriptor d off =
     \<lparr>fd_blocks = the (be32_at d off),
      fd_block_size = the (m65_read_be24 (Some d) (off + 8) (off + 5)),
      fd_descriptor_code = d ! (off + 4) AND 0x03\<rparr>"

lemma format_loop_eq:
  "off + 8 * n \<le> len \<Longrightarrow> len \<le> length d \<Longrightarrow>
     format_loop d len off n out = Inr (out @ map (\<lambda>i. decode_descriptor d (off + 8 * i)) [0..<n])"
proof (induction n arbitrary: off out)
  case (Suc n)
  have blocks: "m65_read_be32 (Some d) len off = Some (fd_blocks (decode_descriptor d off))"
    using Suc.prems by (simp add: m65_read_be32_def available_def decode_descriptor_def be32_at_eq)
  have bsz: "m65_read_be24 (Some d) len (off + 5) = Some (fd_block_size (decode_descriptor d off))"
    using Suc.prems by (simp add: m65_read_be24_def available_def decode_descriptor_def)
  have "map (\<lambda>i. decode_descriptor d (off + 8 * i)) [0..<Suc n] =
      decode_descriptor d off # map (\<lambda>i. decode_descriptor d (off + 8 + 8 * i)) [0..<n]"
    by (simp add: map_upt_Suc algebra_simps del: upt_Suc)
  moreover have "decode_descriptor d off = \<lparr>fd_blocks = fd_blocks (decode_descriptor d off),
      fd_block_size = fd_block_size (decode_descriptor d off),
      fd_descriptor_code = d ! (off + 4) AND 0x03\<rparr>"
    by (simp add: decode_descriptor_def)
  ultimately show ?case
    using Suc.IH [of "off + 8"] Suc.prems by (simp add: blocks bsz del: upt_Suc)
qed simp

text \<open>The parser as one decision: all failures are in the header, the loop cannot fail.\<close>

lemma parse_format_capacities_eq:
  assumes "len \<le> length d"
  shows "m65_parse_format_capacities (Some d) len out =
    (if len < 4 then Inl (''READ FORMAT CAPACITIES response is shorter than 4 bytes'', out)
     else if unat (d ! 3) mod 8 \<noteq> 0 then Inl (''format-capacity list length is not a multiple of 8'', out)
     else if unat (d ! 3) > len - 4 then Inl (''format-capacity descriptor list is truncated'', out)
     else Inr (map (\<lambda>i. decode_descriptor d (4 + 8 * i)) [0..<unat (d ! 3) div 8]))"
proof -
  have "unat (d ! 3) div 8 \<le> 31" using unat_u8_lt [of "d ! 3"] by linarith
  moreover have "8 * (unat (d ! 3) div 8) = unat (d ! 3)" if "unat (d ! 3) mod 8 = 0"
    using that by auto
  ultimately show ?thesis
    using assms format_loop_eq [of 4 "unat (d ! 3) div 8" len d "[]"]
    by (auto simp: m65_parse_format_capacities_def Let_def)
qed

lemma trim_used_le: "trim_used source n \<le> n"
  by (induction n) auto

lemma trim_used_last:
  "0 < trim_used source n \<Longrightarrow> source ! (trim_used source n - 1) \<notin> {0x20, 0}"
  by (induction n) (auto split: if_splits)

lemma trim_used_blank:
  "trim_used source n \<le> i \<Longrightarrow> i < n \<Longrightarrow> source ! i \<in> {0x20, 0}"
  by (induction n) (auto simp: less_Suc_eq split: if_splits)

lemma trim_copy_eq:
  "length source < n \<Longrightarrow>
     trim_copy n source = map char_of_byte (take (trim_used source (length source)) source)"
  using trim_used_le [of source "length source"] by (auto simp: trim_copy_def Let_def)

lemma parse_sense_Inr:
  assumes "m65_parse_sense (Some d) len out = Inr s"
  shows "sense_valid s" and "unat (sense_key s) < 16" and "4 \<le> len"
proof -
  have "unat (x AND 0x0f :: u8) < 16" for x
  proof -
    have "x AND 0x0f \<le> 0x0f" by (rule word_and_le1)
    then show ?thesis by (simp add: word_le_nat_alt)
  qed
  with assms show "sense_valid s" and "unat (sense_key s) < 16" and "4 \<le> len"
    by (auto simp: m65_parse_sense_def Let_def split: if_splits)
qed

section \<open>Properties of the UFI layer\<close>

text \<open>C27 A command that passes validation and moves data to the device is exactly the documented
  MODE SELECT (10): ten CDB bytes with PF set and length 40, and a 40-byte payload of an empty
  header and the single 32-byte, non-subpage Flexible Disk page. No other data-out command
  exists, whatever the caller put into the command.\<close>

theorem validated_data_out_is_mode_select:
  assumes "m65_validate_command c = Inr ()" and "c_direction c = DATA_OUT" and "command_wf c"
  shows "take (c_cdb_length c) (c_cdb c) = [0x55, 0x10, 0, 0, 0, 0, 0, 0, 40, 0] \<and>
         (\<exists>tail. length tail = 30 \<and> c_data c = Some (replicate 8 0 @ [0x05, 30] @ tail))"
  using validate_mode_select [OF assms] by simp

definition example_select :: m65_command where
  "example_select = \<lparr>c_cdb = [0x55, 0x10, 0, 0, 0, 0, 0, 0, 40, 0, 0, 0, 0, 0, 0, 0], c_cdb_length = 10,
     c_direction = DATA_OUT, c_data = Some (replicate 8 0 @ [5, 30] @ replicate 30 7),
     c_data_length = 40, c_timeout_ms = 15000\<rparr>"

theorem validated_data_out_is_mode_select_witness:
  "m65_validate_command example_select = Inr () \<and>
   take (c_cdb_length example_select) (c_cdb example_select) = [0x55, 0x10, 0, 0, 0, 0, 0, 0, 40, 0]"
proof -
  have v: "m65_validate_command example_select = Inr ()"
    by (simp add: example_select_def m65_validate_command_def validate_data_def m65_read_be16_def
        available_def upt_rec nth_append)
  show ?thesis
    using v validated_data_out_is_mode_select [OF v] by (simp add: example_select_def command_wf_def)
qed




text \<open>The page of the tested controller: 500 kbit/s, 2 heads, 18 sectors, 80 cylinders, 300 rpm.\<close>

definition example_page :: bytes where
  "example_page = [5, 30, 1, 244, 2, 18, 2, 0, 0, 80] @ replicate 18 0 @ [1, 44, 0, 0]"

definition mode_response :: "bytes \<Rightarrow> bytes" where
  "mode_response page = [0, 38, 0, 0, 0, 0, 0, 0] @ page"

lemma mode_response_eval:
  assumes "length page = 32" "page ! 0 AND 0x3f = 5" "page ! 0 AND 0x40 = 0" "page ! 1 = 30"
  shows "m65_parse_mode_parameters (Some (mode_response page)) 40 out =
    (case decode_flexible page 32 zero_flexible of
       Inl (t, f) \<Rightarrow> Inl (t, zero_mode\<lparr>mp_raw := mode_response page @ replicate 216 0, mp_raw_length := 40,
                           mp_page_offset := 8, mp_flexible := f\<rparr>)
     | Inr f \<Rightarrow> Inr (zero_mode\<lparr>mp_raw := mode_response page @ replicate 216 0, mp_raw_length := 40,
                           mp_page_offset := 8, mp_flexible := f\<rparr>))"
proof -
  have r: "mode_response page ! 0 = 0" "mode_response page ! 1 = 38" "mode_response page ! 6 = 0"
    "mode_response page ! 7 = 0" "mode_response page ! 8 = page ! 0" "mode_response page ! 9 = page ! 1"
    "drop 8 (mode_response page) = page" "length (mode_response page) = 40"
    using assms(1) by (simp_all add: mode_response_def nth_append)
  have raw: "buf_write 0 (take 40 (mode_response page)) (mp_raw zero_mode) = mode_response page @ replicate 216 0"
    using r(8) by (simp add: buf_write_def zero_mode_def)
  show ?thesis
    using assms(2-4) r(8) raw
    by (simp add: m65_parse_mode_parameters_def m65_read_be16_def available_def r Let_def
        mode_page_loop.simps [of _ 40 8] zero_mode_def del: One_nat_def split: sum.split)
qed

text \<open>C30 Every well-formed Flexible Disk page of the standard length that a controller sends in a
  40-byte MODE SENSE response is decoded to exactly that page: reading back loses nothing.\<close>

theorem mode_sense_roundtrip:
  assumes "flexible_wf f" and "fp_page f ! 1 = 30"
  shows "\<exists>m. m65_parse_mode_parameters (Some (mode_response (fp_page f))) 40 out = Inr m \<and>
             mp_flexible m = f\<lparr>fp_field_changeable := replicate 20 False\<rparr> \<and> mp_raw_length m = 40"
proof -
  have p: "length (fp_page f) = 32" "fp_page f ! 0 AND 0x3f = 5" "fp_page f ! 0 AND 0x40 = 0"
    using assms(1) by (simp_all add: flexible_wf_def)
  have be: "be16_or_zero (fp_page f) 32 off = the (be16_at (fp_page f) off)" if "off + 2 \<le> 32" for off
    using be16_or_zero_page [of off 32 "fp_page f"] that p(1) by simp
  have "decode_flexible (fp_page f) 32 zero_flexible = Inr (f\<lparr>fp_field_changeable := replicate 20 False\<rparr>)"
    using assms p be [of 2] be [of 6] be [of 8] be [of 28]
    by (simp add: decode_flexible_def flexible_wf_def)
  with mode_response_eval [OF p assms(2)] show ?thesis by simp
qed

lemma example_page_wf:
  "flexible_wf \<lparr>fp_transfer_rate_kbit = 500, fp_heads = 2, fp_sectors_per_track = 18,
     fp_bytes_per_sector = 512, fp_cylinders = 80, fp_medium_rotation_rate_rpm = 300,
     fp_field_changeable = replicate 20 False, fp_page = example_page\<rparr>"
  by (simp add: flexible_wf_def example_page_def be16_at_eq nth_append)

theorem mode_sense_roundtrip_witness:
  "\<exists>m. m65_parse_mode_parameters (Some (mode_response example_page)) 40 zero_mode = Inr m \<and>
       fp_sectors_per_track (mp_flexible m) = 18 \<and> fp_transfer_rate_kbit (mp_flexible m) = 500"
  using mode_sense_roundtrip [OF example_page_wf, of zero_mode] by (auto simp: example_page_def)


text \<open>C31 The 1581 request is refused exactly when some bit it would change is not marked changeable
  in the controller's mask; apart from the ten geometry bytes the request is the saved page, and
  applying the geometry twice changes nothing more.\<close>

theorem geometry_request_respects_mask:
  assumes "flexible_wf cur"
  shows "(m65_geometry_changes_allowed cur (m65_set_1581_geometry cur) msk = Inr () \<longleftrightarrow>
      (\<forall>i n. i < 32 \<and> bit (fp_page cur ! i) n \<noteq> bit (fp_page (m65_set_1581_geometry cur) ! i) n \<longrightarrow>
             bit (fp_page msk ! i) n)) \<and>
    (fp_page (m65_set_1581_geometry cur) ! i \<noteq> fp_page cur ! i \<longrightarrow> i \<in> set geometry_offsets) \<and>
    (flexible_wf (m65_set_1581_geometry cur)) \<and>
    (m65_geometry_is_1581 (m65_set_1581_geometry cur)) \<and>
    (m65_set_1581_geometry (m65_set_1581_geometry cur) = m65_set_1581_geometry cur)"
proof (intro conjI)
  show "m65_geometry_changes_allowed cur (m65_set_1581_geometry cur) msk = Inr () \<longleftrightarrow>
      (\<forall>i n. i < 32 \<and> bit (fp_page cur ! i) n \<noteq> bit (fp_page (m65_set_1581_geometry cur) ! i) n \<longrightarrow>
             bit (fp_page msk ! i) n)"
    unfolding changes_allowed_iff bits_allowed_iff
    using set_1581_frame [of _ cur] by (auto simp: geometry_offsets_def) metis+
  show "fp_page (m65_set_1581_geometry cur) ! i \<noteq> fp_page cur ! i \<longrightarrow> i \<in> set geometry_offsets"
    using set_1581_frame by blast
  show "flexible_wf (m65_set_1581_geometry cur)" using assms by (rule set_1581_wf)
  show "m65_geometry_is_1581 (m65_set_1581_geometry cur)" by simp
  have "length (fp_page cur) = 32" using assms by (simp add: flexible_wf_def)
  then have "fp_page (m65_set_1581_geometry (m65_set_1581_geometry cur)) = fp_page (m65_set_1581_geometry cur)"
    by (intro nth_equalityI) (auto simp: set_1581_page_eq)
  then show "m65_set_1581_geometry (m65_set_1581_geometry cur) = m65_set_1581_geometry cur"
    by (simp add: m65_set_1581_geometry_def Let_def)
qed

theorem geometry_request_respects_mask_witness:
  "m65_geometry_is_1581 (m65_set_1581_geometry \<lparr>fp_transfer_rate_kbit = 500, fp_heads = 2,
     fp_sectors_per_track = 18, fp_bytes_per_sector = 512, fp_cylinders = 80,
     fp_medium_rotation_rate_rpm = 300, fp_field_changeable = replicate 20 False,
     fp_page = example_page\<rparr>)"
  using geometry_request_respects_mask [OF example_page_wf] by blast

lemma decode_page_roundtrip:
  assumes "flexible_wf f" and "fp_page f ! 1 = 30"
  shows "decode_flexible (5 # drop 1 (fp_page f)) 32 out =
           Inr (f\<lparr>fp_field_changeable := replicate 20 False, fp_page := 5 # drop 1 (fp_page f)\<rparr>)"
proof -
  let ?p = "5 # drop 1 (fp_page f)"
  have p: "length (fp_page f) = 32" using assms(1) by (simp add: flexible_wf_def)
  have n: "?p ! i = fp_page f ! i" if "0 < i" "i < 32" for i
    using that p by (cases i) auto
  have "be16_or_zero ?p 32 off = the (be16_at (fp_page f) off)" if "0 < off" "off + 2 \<le> 32" for off
  proof -
    have "2 \<le> 32 - off" using that by simp
    then show ?thesis using that p n [of off] n [of "Suc off"]
      by (simp add: be16_or_zero_def m65_read_be16_def available_def be16_at_eq)
  qed
  then show ?thesis
    using assms p n [of 1] n [of 4] n [of 5]
    by (simp add: decode_flexible_def flexible_wf_def)
qed

text \<open>C32 Building a MODE SELECT payload succeeds exactly for pages of the standard length; the
  payload is then the page with its PS bit cleared behind an empty header, the command made from
  it is validated, and decoding the payload's page gives back the same geometry.\<close>

theorem mode_select_payload_roundtrip:
  assumes "flexible_wf f"
  shows "((\<exists>d. m65_build_mode_select_payload f 40 = Inr d) \<longleftrightarrow> fp_page f ! 1 = 30) \<and>
    (m65_build_mode_select_payload f 40 = Inr d \<longrightarrow>
      d = replicate 8 0 @ 5 # drop 1 (fp_page f) \<and>
      m65_validate_command (select_command d t) = Inr () \<and>
      decode_flexible (drop 8 d) 32 zero_flexible =
        Inr (f\<lparr>fp_field_changeable := replicate 20 False, fp_page := 5 # drop 1 (fp_page f)\<rparr>))"
proof (intro conjI)
  have p: "length (fp_page f) = 32" "fp_page f ! 0 AND 0x3f = 5" "fp_page f ! 0 AND 0x40 = 0"
    using assms by (simp_all add: flexible_wf_def)
  show "(\<exists>d. m65_build_mode_select_payload f 40 = Inr d) \<longleftrightarrow> fp_page f ! 1 = 30"
    using p by (simp add: payload_eq)
  have "drop 1 (fp_page f) ! 0 = fp_page f ! 1" using p(1) by simp
  then show "m65_build_mode_select_payload f 40 = Inr d \<longrightarrow>
      d = replicate 8 0 @ 5 # drop 1 (fp_page f) \<and>
      m65_validate_command (select_command d t) = Inr () \<and>
      decode_flexible (drop 8 d) 32 zero_flexible =
        Inr (f\<lparr>fp_field_changeable := replicate 20 False, fp_page := 5 # drop 1 (fp_page f)\<rparr>)"
    using p decode_page_roundtrip [OF assms, of zero_flexible]
    by (auto simp: payload_eq nth_append intro!: select_command_valid)
qed

theorem mode_select_payload_roundtrip_witness:
  "\<exists>d. m65_build_mode_select_payload \<lparr>fp_transfer_rate_kbit = 500, fp_heads = 2, fp_sectors_per_track = 18,
     fp_bytes_per_sector = 512, fp_cylinders = 80, fp_medium_rotation_rate_rpm = 300,
     fp_field_changeable = replicate 20 False, fp_page = example_page\<rparr> 40 = Inr d"
  using mode_select_payload_roundtrip [OF example_page_wf] by (simp add: example_page_def)

text \<open>A format-capacity response is accepted exactly when its list length is a multiple of eight
  that fits the received bytes; the result is then the list of all its descriptors decoded at
  their offsets, never more than the table holds, and no descriptor read can fail.\<close>

theorem format_capacities_total:
  assumes "len \<le> length d"
  shows "(m65_parse_format_capacities (Some d) len out = Inr ds \<longleftrightarrow>
      4 \<le> len \<and> unat (d ! 3) mod 8 = 0 \<and> unat (d ! 3) \<le> len - 4 \<and>
      ds = map (\<lambda>i. decode_descriptor d (4 + 8 * i)) [0..<unat (d ! 3) div 8]) \<and>
    (m65_parse_format_capacities (Some d) len out = Inr ds \<longrightarrow> length ds \<le> M65_MAX_FORMAT_DESCRIPTORS) \<and>
    (m65_parse_format_capacities (Some d) len out = Inl (t, out') \<longrightarrow> out' = out)"
  using unat_u8_lt [of "d ! 3"] less_mult_imp_div_less [of "unat (d ! 3)" 32 8]
  by (auto simp: parse_format_capacities_eq [OF assms])

theorem format_capacities_total_witness:
  "\<exists>ds. m65_parse_format_capacities
     (Some ([0, 0, 0, 8] @ [0, 0, 6, 64, 0, 0, 2, 0])) 12 [] = Inr ds \<and> length ds = 1"
proof -
  let ?d = "[0, 0, 0, 8] @ [0, 0, 6, 64, 0, 0, 2, 0] :: bytes"
  have "12 \<le> length ?d" by simp
  from format_capacities_total [OF this, of "[]"] show ?thesis by simp
qed

end
