(* ===== verification/M65_Transport.thy ===== *)
theory M65_Transport
  imports M65_Ufi
begin

text \<open>
  The transport interface (\<open>include/m65/transport.h\<close>): the operations every transport
  provides to the probe layer as a record of state transformers, the contract the probe layer
  relies on as a locale, and a wrapper that records every call, so that theorems can speak of
  what is sent to any transport.

  An operation receives the content of the detail buffer it may write and returns the new
  content; \<open>execute\<close> also returns the bytes the adapter stores into the command's data buffer.
\<close>

record 's transport_ops =
  acquire_exclusive :: "string \<Rightarrow> 's \<Rightarrow> transport_status \<times> string \<times> 's"
  execute :: "m65_command \<Rightarrow> 's \<Rightarrow> command_result \<times> bytes \<times> 's"
  release_exclusive :: "string \<Rightarrow> 's \<Rightarrow> transport_status \<times> string \<times> 's"

definition command_good :: "command_result \<Rightarrow> bool" where
  "command_good result \<longleftrightarrow>
     r_transport_status result = TRANSPORT_OK \<and> r_scsi_status result = 0"

text \<open>The content of a command's data buffer; empty for NULL.\<close>

definition command_data :: "m65_command \<Rightarrow> bytes" where
  "command_data command = (case c_data command of None \<Rightarrow> [] | Some d \<Rightarrow> d)"

text \<open>Commands whose data phase must move every byte: data-out and READ (10).\<close>

definition exact_data_required :: "m65_command \<Rightarrow> bool" where
  "exact_data_required command \<longleftrightarrow>
     c_direction command = DATA_OUT \<or> c_cdb command ! 0 = M65_OPCODE_READ_10"

section \<open>The contract\<close>

text \<open>
  \<open>acquired\<close> is the exclusive access the transport holds, \<open>sound\<close> its own state invariant. A
  refused command leaves no trace; a good result of a command with an exact data phase has moved
  every byte.
\<close>

locale transport_contract =
  fixes ops :: "'s transport_ops" and acquired :: "'s \<Rightarrow> bool" and sound :: "'s \<Rightarrow> bool"
  assumes acquire_ok: "acquire_exclusive ops d s = (TRANSPORT_OK, d', s') \<Longrightarrow> acquired s'"
    and acquire_fails: "acquire_exclusive ops d s = (st, d', s') \<Longrightarrow> st \<noteq> TRANSPORT_OK \<Longrightarrow>
          acquired s' = acquired s"
    and acquire_sound: "acquire_exclusive ops d s = (st, d', s') \<Longrightarrow> sound s \<Longrightarrow> sound s'"
    and release_ok: "release_exclusive ops d s = (TRANSPORT_OK, d', s') \<Longrightarrow> \<not> acquired s'"
    and release_sound: "release_exclusive ops d s = (st, d', s') \<Longrightarrow> sound s \<Longrightarrow> sound s'"
    and execute_acquired: "execute ops c s = (r, b, s') \<Longrightarrow> acquired s' = acquired s"
    and execute_sound: "execute ops c s = (r, b, s') \<Longrightarrow> sound s \<Longrightarrow> sound s'"
    and execute_refused: "\<not> acquired s \<Longrightarrow> execute ops c s = (r, b, s') \<Longrightarrow>
          r_transport_status r = TRANSPORT_PROTOCOL \<and> s' = s"
    and execute_exact: "execute ops c s = (r, b, s') \<Longrightarrow> sound s \<Longrightarrow> command_good r \<Longrightarrow>
          m65_validate_command c = Inr () \<Longrightarrow> exact_data_required c \<Longrightarrow>
          r_transferred r = c_data_length c"

section \<open>Recording what is sent\<close>

datatype event =
    Acquired transport_status
  | Executed m65_command command_result
  | Released transport_status

text \<open>The transport of \<open>ops\<close> with every call and its outcome appended to a log.\<close>

definition logged :: "'s transport_ops \<Rightarrow> ('s \<times> event list) transport_ops" where
  "logged ops =
     \<lparr>acquire_exclusive = (\<lambda>d (s, log).
        let (st, d', s') = acquire_exclusive ops d s in (st, d', (s', log @ [Acquired st]))),
      execute = (\<lambda>c (s, log).
        let (r, b, s') = execute ops c s in (r, b, (s', log @ [Executed c r]))),
      release_exclusive = (\<lambda>d (s, log).
        let (st, d', s') = release_exclusive ops d s in (st, d', (s', log @ [Released st])))\<rparr>"

lemma logged_acquire:
  "acquire_exclusive (logged ops) d sl =
     (let (st, d', s') = acquire_exclusive ops d (fst sl) in (st, d', (s', snd sl @ [Acquired st])))"
  by (simp add: logged_def split: prod.split)

lemma logged_execute:
  "execute (logged ops) c sl =
     (let (r, b, s') = execute ops c (fst sl) in (r, b, (s', snd sl @ [Executed c r])))"
  by (simp add: logged_def split: prod.split)

lemma logged_release:
  "release_exclusive (logged ops) d sl =
     (let (st, d', s') = release_exclusive ops d (fst sl) in (st, d', (s', snd sl @ [Released st])))"
  by (simp add: logged_def split: prod.split)

text \<open>The commands in a log, and those that carry data to the device.\<close>

fun commands_of :: "event list \<Rightarrow> m65_command list" where
  "commands_of [] = []"
| "commands_of (Executed c r # es) = c # commands_of es"
| "commands_of (e # es) = commands_of es"

lemma commands_of_append [simp]: "commands_of (xs @ ys) = commands_of xs @ commands_of ys"
  by (induction xs rule: commands_of.induct) simp_all

definition cdb_of :: "m65_command \<Rightarrow> bytes \<times> nat" where
  "cdb_of c = (c_cdb c, c_cdb_length c)"

definition writes_of :: "event list \<Rightarrow> bytes option list" where
  "writes_of es = map c_data (filter (\<lambda>c. c_direction c = DATA_OUT) (commands_of es))"

lemma writes_of_append [simp]: "writes_of (xs @ ys) = writes_of xs @ writes_of ys"
  by (simp add: writes_of_def)

lemma writes_of_simps [simp]:
  "writes_of [] = []"
  "writes_of (Acquired st # es) = writes_of es"
  "writes_of (Released st # es) = writes_of es"
  "writes_of (Executed c r # es) =
     (if c_direction c = DATA_OUT then c_data c # writes_of es else writes_of es)"
  by (simp_all add: writes_of_def)

end
