(* ===== verification/M65_Probe.thy ===== *)
theory M65_Probe
  imports M65_Transport M65_Layout
begin

text \<open>
  The probe layer (\<open>src/probe.c\<close>): the inspection sequence and the temporary 1581 geometry
  test, with its interrupt flag, its reports and its clean-up.

  The world of a probe is the interrupt flag and the state of everything outside the file: the
  transport and the host. The host is a parameter: which signals have run the interrupt handler
  since the flag was last accessed, whether an allocation succeeds and with what content, and
  what an uninitialised block on the stack holds. A run of code up to a \<open>goto cleanup\<close> is a list
  of stages; a stage returns False where the code jumps.
\<close>

abbreviation (input) M65_IO_TIMEOUT_MS :: u32 where "M65_IO_TIMEOUT_MS \<equiv> 15000"
abbreviation (input) M65_READ_CHUNK_BLOCKS :: nat where "M65_READ_CHUNK_BLOCKS \<equiv> 10"

record 's host =
  h_signals :: "'s \<Rightarrow> bool \<times> 's"
  h_malloc :: "nat \<Rightarrow> 's \<Rightarrow> bytes option \<times> 's"
  h_stack_block :: bytes

record 's world =
  w_interrupted :: bool
  w_state :: 's

section \<open>The interrupt flag\<close>

text \<open>\<open>sig_atomic_t interrupted\<close>: a signal handler sets it between any two accesses.\<close>

definition m65_probe_request_interrupt :: "'s world \<Rightarrow> 's world" where
  "m65_probe_request_interrupt w = w\<lparr>w_interrupted := True\<rparr>"

definition deliver_signals :: "'s host \<Rightarrow> 's world \<Rightarrow> 's world" where
  "deliver_signals host w =
     (let (arrived, s) = h_signals host (w_state w);
          w = w\<lparr>w_state := s\<rparr>
      in if arrived then m65_probe_request_interrupt w else w)"

definition m65_probe_clear_interrupt :: "'s host \<Rightarrow> 's world \<Rightarrow> 's world" where
  "m65_probe_clear_interrupt host w = (deliver_signals host w)\<lparr>w_interrupted := False\<rparr>"

definition read_interrupted :: "'s host \<Rightarrow> 's world \<Rightarrow> bool \<times> 's world" where
  "read_interrupted host w = (let w = deliver_signals host w in (w_interrupted w, w))"

definition host_malloc :: "'s host \<Rightarrow> nat \<Rightarrow> 's world \<Rightarrow> bytes option \<times> 's world" where
  "host_malloc host n w =
     (let (content, s) = h_malloc host n (w_state w)
      in (map_option (\<lambda>c. fill_buffer c (zeroed n)) content, w\<lparr>w_state := s\<rparr>))"

section \<open>Reasons and failures\<close>

definition reason_set :: "string \<Rightarrow> string" where
  "reason_set text = error_text text"

definition reason_append :: "string \<Rightarrow> string \<Rightarrow> string" where
  "reason_append destination text =
     (let original = error_text destination
      in error_text (original @ (if original \<noteq> [] then ''; '' else []) @ text))"

definition code_for_transport :: "transport_status \<Rightarrow> probe_code" where
  "code_for_transport status =
     (case status of
        TRANSPORT_PERMISSION \<Rightarrow> PROBE_PERMISSION
      | TRANSPORT_NO_DEVICE \<Rightarrow> PROBE_NO_DEVICE
      | TRANSPORT_OK \<Rightarrow> PROBE_OK
      | TRANSPORT_TIMEOUT \<Rightarrow> PROBE_TRANSPORT
      | TRANSPORT_IO \<Rightarrow> PROBE_TRANSPORT
      | TRANSPORT_PROTOCOL \<Rightarrow> PROBE_TRANSPORT)"

text \<open>The code, the reason and the sense data a failed command leaves in a report.\<close>

definition copy_command_failure ::
    "string \<Rightarrow> command_result \<Rightarrow> m65_sense \<Rightarrow> probe_code \<times> string \<times> m65_sense" where
  "copy_command_failure operation result sense =
     (let (code, reason) =
        (if r_transport_status result \<noteq> TRANSPORT_OK
         then (code_for_transport (r_transport_status result),
               if r_detail result \<noteq> []
               then error_text (operation @ '': '' @ r_detail result)
               else error_text (operation @ '': transport failure''))
         else (PROBE_TRANSPORT,
               error_text (operation @ '': SCSI status 0x'' @
                           hex_digits 2 (unat (r_scsi_status result)))))
      in (code, reason, if sense_valid (r_sense result) then r_sense result else sense))"

section \<open>Executing commands\<close>

text \<open>Beside the result: the content of the command's data buffer afterwards.\<close>

definition execute_checked ::
    "'s host \<Rightarrow> 's transport_ops \<Rightarrow> m65_command \<Rightarrow> 's world \<Rightarrow> command_result \<times> bytes \<times> 's world" where
  "execute_checked host ops command w =
     (case m65_validate_command command of
        Inl detail \<Rightarrow>
          (zero_result\<lparr>r_detail := error_text detail, r_transport_status := TRANSPORT_PROTOCOL\<rparr>,
           command_data command, w)
      | Inr _ \<Rightarrow>
          let (stop, w) = read_interrupted host w
          in if stop
             then (zero_result\<lparr>r_transport_status := TRANSPORT_IO,
                               r_detail := reason_set ''operation interrupted''\<rparr>,
                   command_data command, w)
             else let (result, new, s) = execute ops command (w_state w)
                  in (result, fill_buffer new (command_data command), w\<lparr>w_state := s\<rparr>))"

definition simple_command :: "bytes \<times> nat \<Rightarrow> data_direction \<Rightarrow> bytes option \<Rightarrow> nat \<Rightarrow> m65_command" where
  "simple_command cdb direction data data_length =
     \<lparr>c_cdb = buf_write 0 (take (snd cdb) (fst cdb)) (zeroed 16), c_cdb_length = snd cdb,
      c_direction = direction, c_data = data, c_data_length = data_length,
      c_timeout_ms = M65_IO_TIMEOUT_MS\<rparr>"

definition execute_simple ::
    "'s host \<Rightarrow> 's transport_ops \<Rightarrow> bytes \<times> nat \<Rightarrow> data_direction \<Rightarrow> bytes option \<Rightarrow> nat \<Rightarrow>
     's world \<Rightarrow> command_result \<times> bytes \<times> 's world" where
  "execute_simple host ops cdb direction data data_length w =
     execute_checked host ops (simple_command cdb direction data data_length) w"

text \<open>A sequence of stages stops at the first that jumps to the clean-up.\<close>

fun run_stages :: "('a \<Rightarrow> bool \<times> 'a) list \<Rightarrow> 'a \<Rightarrow> bool \<times> 'a" where
  "run_stages [] t = (True, t)"
| "run_stages (stage # rest) t =
     (case stage t of (True, t') \<Rightarrow> run_stages rest t' | (False, t') \<Rightarrow> (False, t'))"

section \<open>Inspection\<close>

record inspect_report =
  ir_code :: probe_code
  ir_reason :: string
  ir_sense :: m65_sense
  ir_inquiry :: m65_inquiry
  ir_unit_ready :: bool
  ir_capacity :: m65_capacity
  ir_format_capacities :: format_capacities
  ir_current_mode :: mode_parameters
  ir_changeable_mode :: mode_parameters

definition zero_inspect_report :: inspect_report where
  "zero_inspect_report =
     \<lparr>ir_code = PROBE_OK, ir_reason = [], ir_sense = zero_sense,
      ir_inquiry = \<lparr>inq_vendor = [], inq_product = [], inq_firmware = []\<rparr>, ir_unit_ready = False,
      ir_capacity = \<lparr>cap_blocks = 0, cap_block_size = 0\<rparr>, ir_format_capacities = [],
      ir_current_mode = zero_mode, ir_changeable_mode = zero_mode\<rparr>"

definition inspect_failure :: "string \<Rightarrow> command_result \<Rightarrow> inspect_report \<Rightarrow> inspect_report" where
  "inspect_failure operation result report =
     (let (code, reason, sense) = copy_command_failure operation result (ir_sense report)
      in report\<lparr>ir_code := code, ir_reason := reason, ir_sense := sense\<rparr>)"

text \<open>The transferred count is None where \<open>inspect_input\<close> returns false.\<close>

definition inspect_input ::
    "'s host \<Rightarrow> 's transport_ops \<Rightarrow> string \<Rightarrow> bytes \<times> nat \<Rightarrow> bytes \<Rightarrow> inspect_report \<Rightarrow> 's world \<Rightarrow>
     nat option \<times> bytes \<times> inspect_report \<times> 's world" where
  "inspect_input host ops operation cdb buffer report w =
     (let (result, buffer, w) =
        execute_simple host ops cdb DATA_IN (Some buffer) (length buffer) w
      in if \<not> command_good result
         then (None, buffer, inspect_failure operation result report, w)
         else if r_transferred result > length buffer
         then (None, buffer,
               report\<lparr>ir_code := PROBE_TRANSPORT,
                      ir_reason := reason_set
                        ''transport reported more bytes than the supplied buffer''\<rparr>, w)
         else (Some (r_transferred result), buffer, report, w))"

type_synonym 's inspect_run = "inspect_report \<times> 's world"

text \<open>\<open>if (report->code == M65_PROBE_OK) report->code = M65_PROBE_TRANSPORT; goto cleanup\<close>\<close>

definition inspect_stop :: "inspect_report \<Rightarrow> 's world \<Rightarrow> bool \<times> 's inspect_run" where
  "inspect_stop report w =
     (False, if ir_code report = PROBE_OK then report\<lparr>ir_code := PROBE_TRANSPORT\<rparr> else report, w)"

definition inspect_inquiry :: "'s host \<Rightarrow> 's transport_ops \<Rightarrow> 's inspect_run \<Rightarrow> bool \<times> 's inspect_run" where
  "inspect_inquiry host ops = (\<lambda>(report, w).
     (case inspect_input host ops ''INQUIRY'' (m65_cdb_inquiry 96) (zeroed 96) report w of
        (None, _, report, w) \<Rightarrow> inspect_stop report w
      | (Some transferred, inquiry, report, w) \<Rightarrow>
          (case m65_parse_inquiry (Some inquiry) transferred (ir_inquiry report) of
             Inl (detail, parsed) \<Rightarrow>
               inspect_stop (report\<lparr>ir_inquiry := parsed, ir_reason := error_text detail\<rparr>) w
           | Inr parsed \<Rightarrow> (True, report\<lparr>ir_inquiry := parsed\<rparr>, w))))"

definition inspect_unit_ready :: "'s host \<Rightarrow> 's transport_ops \<Rightarrow> 's inspect_run \<Rightarrow> bool \<times> 's inspect_run" where
  "inspect_unit_ready host ops = (\<lambda>(report, w).
     let (result, _, w) = execute_simple host ops m65_cdb_test_unit_ready DATA_NONE None 0 w
     in if \<not> command_good result
        then (False, inspect_failure ''TEST UNIT READY'' result report, w)
        else (True, report\<lparr>ir_unit_ready := True\<rparr>, w))"

definition inspect_capacity :: "'s host \<Rightarrow> 's transport_ops \<Rightarrow> 's inspect_run \<Rightarrow> bool \<times> 's inspect_run" where
  "inspect_capacity host ops = (\<lambda>(report, w).
     (case inspect_input host ops ''READ CAPACITY (10)'' m65_cdb_read_capacity_10
             (zeroed 8) report w of
        (None, _, report, w) \<Rightarrow> inspect_stop report w
      | (Some transferred, capacity, report, w) \<Rightarrow>
          (case m65_parse_read_capacity_10 (Some capacity) transferred (ir_capacity report) of
             Inl (detail, parsed) \<Rightarrow>
               inspect_stop (report\<lparr>ir_capacity := parsed, ir_reason := error_text detail\<rparr>) w
           | Inr parsed \<Rightarrow> (True, report\<lparr>ir_capacity := parsed\<rparr>, w))))"

definition inspect_formats :: "'s host \<Rightarrow> 's transport_ops \<Rightarrow> 's inspect_run \<Rightarrow> bool \<times> 's inspect_run" where
  "inspect_formats host ops = (\<lambda>(report, w).
     (case inspect_input host ops ''READ FORMAT CAPACITIES'' (m65_cdb_read_format_capacities 252)
             (zeroed 252) report w of
        (None, _, report, w) \<Rightarrow> inspect_stop report w
      | (Some transferred, formats, report, w) \<Rightarrow>
          (case m65_parse_format_capacities (Some formats) transferred
                  (ir_format_capacities report) of
             Inl (detail, parsed) \<Rightarrow>
               inspect_stop (report\<lparr>ir_format_capacities := parsed, ir_reason := error_text detail\<rparr>) w
           | Inr parsed \<Rightarrow> (True, report\<lparr>ir_format_capacities := parsed\<rparr>, w))))"

definition inspect_current_mode :: "'s host \<Rightarrow> 's transport_ops \<Rightarrow> 's inspect_run \<Rightarrow> bool \<times> 's inspect_run" where
  "inspect_current_mode host ops = (\<lambda>(report, w).
     (case inspect_input host ops ''MODE SENSE current''
             (m65_cdb_mode_sense_10 False (of_nat M65_MODE_BUFFER_SIZE))
             (zeroed M65_MODE_BUFFER_SIZE) report w of
        (None, _, report, w) \<Rightarrow> inspect_stop report w
      | (Some transferred, mode, report, w) \<Rightarrow>
          (case m65_parse_mode_parameters (Some mode) transferred (ir_current_mode report) of
             Inl (detail, parsed) \<Rightarrow>
               inspect_stop (report\<lparr>ir_current_mode := parsed, ir_reason := error_text detail\<rparr>) w
           | Inr parsed \<Rightarrow> (True, report\<lparr>ir_current_mode := parsed\<rparr>, w))))"

text \<open>\<open>m65_apply_changeability\<close> fails on a NULL pointer only.\<close>

definition inspect_changeable_mode :: "'s host \<Rightarrow> 's transport_ops \<Rightarrow> 's inspect_run \<Rightarrow> bool \<times> 's inspect_run" where
  "inspect_changeable_mode host ops = (\<lambda>(report, w).
     (case inspect_input host ops ''MODE SENSE changeable''
             (m65_cdb_mode_sense_10 True (of_nat M65_MODE_BUFFER_SIZE))
             (zeroed M65_MODE_BUFFER_SIZE) report w of
        (None, _, report, w) \<Rightarrow> inspect_stop report w
      | (Some transferred, mode, report, w) \<Rightarrow>
          (case m65_parse_mode_parameters (Some mode) transferred (ir_changeable_mode report) of
             Inl (detail, parsed) \<Rightarrow>
               inspect_stop (report\<lparr>ir_changeable_mode := parsed, ir_reason := error_text detail\<rparr>) w
           | Inr parsed \<Rightarrow>
               (True,
                report\<lparr>ir_changeable_mode := parsed,
                       ir_current_mode := (ir_current_mode report)
                         \<lparr>mp_flexible := m65_apply_changeability
                            (mp_flexible (ir_current_mode report)) (mp_flexible parsed)\<rparr>\<rparr>, w))))"

definition inspect_stages :: "'s host \<Rightarrow> 's transport_ops \<Rightarrow> ('s inspect_run \<Rightarrow> bool \<times> 's inspect_run) list" where
  "inspect_stages host ops =
     [inspect_inquiry host ops, inspect_unit_ready host ops, inspect_capacity host ops,
      inspect_formats host ops, inspect_current_mode host ops, inspect_changeable_mode host ops]"

text \<open>The clean-up after exclusive access was acquired.\<close>

definition inspect_cleanup :: "'s transport_ops \<Rightarrow> 's inspect_run \<Rightarrow> 's inspect_run" where
  "inspect_cleanup ops = (\<lambda>(report, w).
     let (release_status, cleanup_detail, s) = release_exclusive ops [] (w_state w);
         w = w\<lparr>w_state := s\<rparr>
     in if release_status \<noteq> TRANSPORT_OK
        then (report\<lparr>ir_reason := reason_append (ir_reason report)
                       (if cleanup_detail = []
                        then reason_set ''failed to release exclusive SCSI access''
                        else error_text cleanup_detail),
                     ir_code := (if ir_code report = PROBE_OK
                                 then code_for_transport release_status
                                 else ir_code report)\<rparr>, w)
        else (report, w))"

definition inspect_body :: "'s host \<Rightarrow> 's transport_ops \<Rightarrow> 's world \<Rightarrow> 's inspect_run" where
  "inspect_body host ops w =
     (let report = zero_inspect_report\<lparr>ir_code := PROBE_TRANSPORT\<rparr>;
          w = m65_probe_clear_interrupt host w;
          (acquire_status, detail, s) = acquire_exclusive ops (ir_reason report) (w_state w);
          w = w\<lparr>w_state := s\<rparr>;
          report = report\<lparr>ir_reason := error_text detail\<rparr>
      in if acquire_status \<noteq> TRANSPORT_OK
         then (report\<lparr>ir_code := code_for_transport acquire_status,
                      ir_reason := (if ir_reason report = []
                                    then reason_set ''unable to obtain exclusive SCSI access''
                                    else ir_reason report)\<rparr>, w)
         else
           let (completed, report, w) = run_stages (inspect_stages host ops) (report, w)
           in inspect_cleanup ops
                (if completed
                 then report\<lparr>ir_code := PROBE_OK, ir_reason := reason_set ''inspection completed''\<rparr>
                 else report, w))"

text \<open>A missing transport, operation table or report is None.\<close>

definition m65_inspect ::
    "'s host \<Rightarrow> 's transport_ops option \<Rightarrow> inspect_report option \<Rightarrow> 's world \<Rightarrow>
     probe_code \<times> inspect_report option \<times> 's world" where
  "m65_inspect host transport report w =
     (case (transport, report) of
        (Some ops, Some _) \<Rightarrow>
          let (report, w) = inspect_body host ops w in (ir_code report, Some report, w)
      | _ \<Rightarrow> (PROBE_TRANSPORT, report, w))"

end
