(* ===== verification/M65_Test1581.thy ===== *)
theory M65_Test1581
  imports M65_Probe
begin

text \<open>
  The temporary 1581 geometry test of \<open>src/probe.c\<close> (\<open>m65_test_1581\<close> and the functions it
  calls): save the controller's mode page, request the 1581 geometry, read the medium twice,
  and restore the page on every path. The function's stretches between two \<open>goto cleanup\<close> are
  the stages, in the code's order; its locals are the record \<open>test_run\<close>.
\<close>

datatype test_status = STATUS_SUPPORTED | STATUS_UNSUPPORTED | STATUS_INCONCLUSIVE

record report_1581 =
  tr_code :: probe_code
  tr_status :: test_status
  tr_reason :: string
  tr_sense :: m65_sense
  tr_original :: flexible_disk_page
  tr_changeable :: flexible_disk_page
  tr_requested :: flexible_disk_page
  tr_accepted :: flexible_disk_page
  tr_acknowledgement_supplied :: bool
  tr_exclusive_acquired :: bool
  tr_original_saved :: bool
  tr_controller_changed :: bool
  tr_controller_restored :: bool
  tr_boundary_lba_9_read :: bool
  tr_boundary_lba_1599_read :: bool
  tr_repeated_reads_match :: bool
  tr_image :: "bytes option"
  tr_image_length :: nat

definition zero_report_1581 :: report_1581 where
  "zero_report_1581 =
     \<lparr>tr_code = PROBE_OK, tr_status = STATUS_SUPPORTED, tr_reason = [], tr_sense = zero_sense,
      tr_original = zero_flexible, tr_changeable = zero_flexible, tr_requested = zero_flexible,
      tr_accepted = zero_flexible, tr_acknowledgement_supplied = False,
      tr_exclusive_acquired = False, tr_original_saved = False, tr_controller_changed = False,
      tr_controller_restored = False, tr_boundary_lba_9_read = False,
      tr_boundary_lba_1599_read = False, tr_repeated_reads_match = False,
      tr_image = None, tr_image_length = 0\<rparr>"

record 's test_run =
  t_report :: report_1581
  t_original_mode :: mode_parameters
  t_changeable_mode :: mode_parameters
  t_readback_mode :: mode_parameters
  t_boundary :: bytes
  t_second_image :: "bytes option"
  t_restore_needed :: bool
  t_world :: "'s world"

section \<open>Commands\<close>

definition mode_sense ::
    "'s host \<Rightarrow> 's transport_ops \<Rightarrow> bool \<Rightarrow> mode_parameters \<Rightarrow> 's world \<Rightarrow>
     command_result \<times> mode_parameters \<times> 's world" where
  "mode_sense host ops changeable parameters w =
     (let (result, buffer, w) =
        execute_simple host ops
          (m65_cdb_mode_sense_10 changeable (of_nat M65_MODE_BUFFER_SIZE)) DATA_IN
          (Some (zeroed M65_MODE_BUFFER_SIZE)) M65_MODE_BUFFER_SIZE w
      in if command_good result
         then if r_transferred result > M65_MODE_BUFFER_SIZE
              then (result\<lparr>r_transport_status := TRANSPORT_PROTOCOL,
                           r_detail := reason_set ''MODE SENSE response exceeds its buffer''\<rparr>,
                    parameters, w)
              else (case m65_parse_mode_parameters (Some buffer) (r_transferred result) parameters of
                      Inl (parse_detail, parameters) \<Rightarrow>
                        (result\<lparr>r_transport_status := TRANSPORT_PROTOCOL,
                                r_detail := reason_set parse_detail\<rparr>, parameters, w)
                    | Inr parameters \<Rightarrow> (result, parameters, w))
         else (result, parameters, w))"

definition mode_select ::
    "'s host \<Rightarrow> 's transport_ops \<Rightarrow> flexible_disk_page \<Rightarrow> 's world \<Rightarrow> command_result \<times> 's world" where
  "mode_select host ops page w =
     (case m65_build_mode_select_payload page 40 of
        Inl detail \<Rightarrow>
          (zero_result\<lparr>r_detail := error_text detail, r_transport_status := TRANSPORT_PROTOCOL\<rparr>, w)
      | Inr payload \<Rightarrow>
          let (result, _, w) =
            execute_simple host ops (m65_cdb_mode_select_10 (of_nat (length payload))) DATA_OUT
              (Some payload) (length payload) w
          in (result, w))"

definition read_blocks ::
    "'s host \<Rightarrow> 's transport_ops \<Rightarrow> u32 \<Rightarrow> u16 \<Rightarrow> bytes \<Rightarrow> 's world \<Rightarrow>
     command_result \<times> bytes \<times> 's world" where
  "read_blocks host ops lba blocks buffer w =
     (let len = unat blocks * M65_BLOCK_SIZE;
          (result, buffer, w) =
            execute_simple host ops (m65_cdb_read_10 lba blocks) DATA_IN (Some buffer) len w
      in if command_good result \<and> r_transferred result \<noteq> len
         then (result\<lparr>r_transport_status := TRANSPORT_PROTOCOL,
                      r_detail := error_text (''short READ (10): expected '' @ dec_string len @
                        '' bytes, received '' @ dec_string (r_transferred result))\<rparr>, buffer, w)
         else (result, buffer, w))"

definition report_failure :: "string \<Rightarrow> command_result \<Rightarrow> report_1581 \<Rightarrow> report_1581" where
  "report_failure operation result report =
     (let (code, reason, sense) = copy_command_failure operation result (tr_sense report)
      in report\<lparr>tr_code := code, tr_reason := reason, tr_sense := sense\<rparr>)"

text \<open>The loop reads chunks of at most ten blocks; \<open>lba\<close> stays at most 1600.\<close>

function read_complete_image ::
    "'s host \<Rightarrow> 's transport_ops \<Rightarrow> nat \<Rightarrow> bytes \<Rightarrow> report_1581 \<Rightarrow> 's world \<Rightarrow>
     bool \<times> bytes \<times> report_1581 \<times> 's world" where
  "read_complete_image host ops lba img report w =
     (if lba < M65_1581_BLOCKS then
        let remaining = M65_1581_BLOCKS - lba;
            blocks = (if remaining > M65_READ_CHUNK_BLOCKS then M65_READ_CHUNK_BLOCKS else remaining);
            (stop, w) = read_interrupted host w
        in if stop
           then (False, img,
                 report\<lparr>tr_code := PROBE_TRANSPORT,
                        tr_reason := reason_set ''operation interrupted''\<rparr>, w)
           else
             let position = lba * M65_BLOCK_SIZE;
                 (result, chunk, w) =
                   read_blocks host ops (of_nat lba) (of_nat blocks)
                     (take (blocks * M65_BLOCK_SIZE) (drop position img)) w;
                 img = buf_write position chunk img
             in if \<not> command_good result
                then (False, img, report_failure ''complete READ (10)'' result report, w)
                else read_complete_image host ops (lba + blocks) img report w
      else (True, img, report, w))"
  by pat_completeness auto
termination
  by (relation "measure (\<lambda>(host, ops, lba, img, report, w). M65_1581_BLOCKS - lba)")
    (auto split: if_splits)

declare read_complete_image.simps [simp del]

definition m65_1581_status_text :: "test_status \<Rightarrow> string" where
  "m65_1581_status_text status =
     (case status of
        STATUS_SUPPORTED \<Rightarrow> ''supported''
      | STATUS_UNSUPPORTED \<Rightarrow> ''unsupported''
      | STATUS_INCONCLUSIVE \<Rightarrow> ''inconclusive'')"

section \<open>The stages\<close>

type_synonym 's test_stage = "'s test_run \<Rightarrow> bool \<times> 's test_run"

definition update_report :: "(report_1581 \<Rightarrow> report_1581) \<Rightarrow> 's test_run \<Rightarrow> 's test_run" where
  "update_report f t = t\<lparr>t_report := f (t_report t)\<rparr>"

text \<open>\<open>copy_command_failure (...); goto cleanup\<close>, without and with the verdict that a SCSI
  status from a working transport means unsupported.\<close>

definition stop_failed :: "string \<Rightarrow> command_result \<Rightarrow> 's test_stage" where
  "stop_failed operation result t = (False, update_report (report_failure operation result) t)"

definition stop_refused :: "string \<Rightarrow> command_result \<Rightarrow> 's test_stage" where
  "stop_refused operation result t =
     (let t = update_report (report_failure operation result) t
      in if r_transport_status result = TRANSPORT_OK
         then (False, update_report
                (\<lambda>r. r\<lparr>tr_code := PROBE_UNSUPPORTED, tr_status := STATUS_UNSUPPORTED\<rparr>) t)
         else (False, t))"

definition save_original :: "'s host \<Rightarrow> 's transport_ops \<Rightarrow> 's test_stage" where
  "save_original host ops t =
     (let (result, mode, w) = mode_sense host ops False (t_original_mode t) (t_world t);
          t = t\<lparr>t_original_mode := mode, t_world := w\<rparr>
      in if \<not> command_good result
         then stop_failed ''save original MODE SENSE parameters'' result t
         else (True, update_report
                (\<lambda>r. r\<lparr>tr_original_saved := True, tr_original := mp_flexible mode\<rparr>) t))"

definition read_changeable :: "'s host \<Rightarrow> 's transport_ops \<Rightarrow> 's test_stage" where
  "read_changeable host ops t =
     (let (result, mode, w) = mode_sense host ops True (t_changeable_mode t) (t_world t);
          t = t\<lparr>t_changeable_mode := mode, t_world := w\<rparr>
      in if \<not> command_good result
         then stop_failed ''read changeable MODE SENSE mask'' result t
         else
           let r = (t_report t)\<lparr>tr_changeable := mp_flexible mode\<rparr>;
               r = r\<lparr>tr_original := m65_apply_changeability (tr_original r) (tr_changeable r)\<rparr>;
               r = r\<lparr>tr_requested := tr_original r\<rparr>;
               r = r\<lparr>tr_requested := m65_set_1581_geometry (tr_requested r)\<rparr>
           in case m65_geometry_changes_allowed (tr_original r) (tr_requested r) (tr_changeable r) of
                Inl detail \<Rightarrow>
                  (False, t\<lparr>t_report := r\<lparr>tr_reason := error_text detail,
                                          tr_code := PROBE_UNSUPPORTED,
                                          tr_status := STATUS_UNSUPPORTED\<rparr>\<rparr>)
              | Inr _ \<Rightarrow> (True, t\<lparr>t_report := r\<rparr>))"

definition select_requested :: "'s host \<Rightarrow> 's transport_ops \<Rightarrow> 's test_stage" where
  "select_requested host ops t =
     (let t = t\<lparr>t_restore_needed := True\<rparr>;
          (result, w) = mode_select host ops (tr_requested (t_report t)) (t_world t);
          t = t\<lparr>t_world := w\<rparr>
      in if \<not> command_good result
         then stop_refused ''MODE SELECT requested 1581 geometry'' result t
         else (True, update_report (\<lambda>r. r\<lparr>tr_controller_changed := True\<rparr>) t))"

definition verify_accepted :: "'s host \<Rightarrow> 's transport_ops \<Rightarrow> 's test_stage" where
  "verify_accepted host ops t =
     (let (result, mode, w) = mode_sense host ops False (t_readback_mode t) (t_world t);
          t = t\<lparr>t_readback_mode := mode, t_world := w\<rparr>
      in if \<not> command_good result
         then stop_failed ''verify MODE SENSE parameters'' result t
         else
           let t = update_report (\<lambda>r. r\<lparr>tr_accepted := mp_flexible mode\<rparr>) t
           in if \<not> m65_geometry_is_1581 (tr_accepted (t_report t))
              then (False, update_report
                     (\<lambda>r. r\<lparr>tr_code := PROBE_UNSUPPORTED, tr_status := STATUS_UNSUPPORTED,
                            tr_reason := reason_set
                              ''controller did not accept every requested 1581 geometry field''\<rparr>) t)
              else (True, t))"

definition probe_lba :: "'s host \<Rightarrow> 's transport_ops \<Rightarrow> u32 \<Rightarrow> string \<Rightarrow>
    (report_1581 \<Rightarrow> report_1581) \<Rightarrow> 's test_stage" where
  "probe_lba host ops lba operation done t =
     (let (result, boundary, w) = read_blocks host ops lba 1 (t_boundary t) (t_world t);
          t = t\<lparr>t_boundary := boundary, t_world := w\<rparr>
      in if \<not> command_good result then stop_refused operation result t
         else (True, update_report done t))"

definition probe_boundaries :: "'s host \<Rightarrow> 's transport_ops \<Rightarrow> 's test_stage list" where
  "probe_boundaries host ops =
     [probe_lba host ops 9 ''probe READ (10) LBA 9'' (\<lambda>r. r\<lparr>tr_boundary_lba_9_read := True\<rparr>),
      probe_lba host ops 1599 ''probe READ (10) LBA 1599''
        (\<lambda>r. r\<lparr>tr_boundary_lba_1599_read := True\<rparr>)]"

definition read_twice :: "'s host \<Rightarrow> 's transport_ops \<Rightarrow> 's test_stage" where
  "read_twice host ops t =
     (let (first, w) = host_malloc host M65_1581_IMAGE_SIZE (t_world t);
          (second, w) = host_malloc host M65_1581_IMAGE_SIZE w;
          t = update_report (\<lambda>r. r\<lparr>tr_image := first\<rparr>) (t\<lparr>t_second_image := second, t_world := w\<rparr>)
      in case (first, second) of
           (Some img, Some second_img) \<Rightarrow>
             (let (ok, img, report, w) = read_complete_image host ops 0 img (t_report t) w;
                  t = t\<lparr>t_report := report\<lparr>tr_image := Some img\<rparr>, t_world := w\<rparr>
              in if \<not> ok then (False, t)
                 else
                   let (ok, second_img, report, w) =
                         read_complete_image host ops 0 second_img (t_report t) w;
                       t = t\<lparr>t_report := report, t_second_image := Some second_img, t_world := w\<rparr>
                   in if \<not> ok then (False, t)
                      else if img \<noteq> second_img
                      then (False, update_report
                             (\<lambda>r. r\<lparr>tr_code := PROBE_MISMATCH, tr_status := STATUS_INCONCLUSIVE,
                                    tr_reason := reason_set
                                      ''the two complete 819200-byte reads differed''\<rparr>) t)
                      else (True, update_report
                             (\<lambda>r. r\<lparr>tr_repeated_reads_match := True,
                                    tr_image_length := M65_1581_IMAGE_SIZE,
                                    tr_code := PROBE_OK, tr_status := STATUS_SUPPORTED,
                                    tr_reason := reason_set
                                      ''controller accepted 1581 geometry and two complete reads matched''\<rparr>) t))
         | _ \<Rightarrow>
             (False, update_report
                (\<lambda>r. r\<lparr>tr_code := PROBE_TRANSPORT,
                       tr_reason := reason_set ''unable to allocate two 819200-byte read buffers''\<rparr>) t))"

definition test_stages :: "'s host \<Rightarrow> 's transport_ops \<Rightarrow> 's test_stage list" where
  "test_stages host ops =
     [save_original host ops, read_changeable host ops, select_requested host ops,
      verify_accepted host ops] @ probe_boundaries host ops @ [read_twice host ops]"

section \<open>Clean-up\<close>

definition restore_failure :: "command_result \<Rightarrow> report_1581 \<Rightarrow> report_1581" where
  "restore_failure result report =
     (let restore_reason =
        (if r_detail result \<noteq> []
         then error_text (''failed to restore original controller parameters: '' @ r_detail result)
         else error_text (''failed to restore original controller parameters (SCSI 0x'' @
                hex_digits 2 (unat (r_scsi_status result)) @ '')''));
          code = code_for_transport (r_transport_status result)
      in report\<lparr>tr_reason := reason_append (tr_reason report) restore_reason,
                tr_code := (if code = PROBE_OK then PROBE_TRANSPORT else code),
                tr_status := STATUS_INCONCLUSIVE,
                tr_sense := (if sense_valid (r_sense result) then r_sense result
                             else tr_sense report)\<rparr>)"

definition restore_original :: "'s host \<Rightarrow> 's transport_ops \<Rightarrow> 's test_run \<Rightarrow> 's test_run" where
  "restore_original host ops t =
     (if t_restore_needed t \<and> tr_original_saved (t_report t) then
        let w = m65_probe_clear_interrupt host (t_world t);
            (result, w) = mode_select host ops (mp_flexible (t_original_mode t)) w;
            t = t\<lparr>t_world := w\<rparr>
        in if command_good result
           then update_report (\<lambda>r. r\<lparr>tr_controller_restored := True\<rparr>) t
           else update_report (restore_failure result) t
      else if tr_original_saved (t_report t)
      then update_report (\<lambda>r. r\<lparr>tr_controller_restored := True\<rparr>) t
      else t)"

definition release_transport :: "'s transport_ops \<Rightarrow> 's test_run \<Rightarrow> 's test_run" where
  "release_transport ops t =
     (let (status, cleanup_detail, s) = release_exclusive ops [] (w_state (t_world t));
          t = t\<lparr>t_world := (t_world t)\<lparr>w_state := s\<rparr>\<rparr>;
          code = code_for_transport status;
          t = (if status \<noteq> TRANSPORT_OK
               then update_report
                 (\<lambda>r. r\<lparr>tr_reason := reason_append (tr_reason r)
                          (if cleanup_detail = []
                           then reason_set ''failed to release exclusive SCSI access''
                           else error_text cleanup_detail),
                        tr_code := (if code = PROBE_OK then PROBE_TRANSPORT else code),
                        tr_status := STATUS_INCONCLUSIVE\<rparr>) t
               else t)
      in update_report (\<lambda>r. r\<lparr>tr_exclusive_acquired := False\<rparr>) t)"

definition m65_1581_report_destroy :: "report_1581 \<Rightarrow> report_1581" where
  "m65_1581_report_destroy report = report\<lparr>tr_image := None, tr_image_length := 0\<rparr>"

definition discard_image :: "'s test_run \<Rightarrow> 's test_run" where
  "discard_image t =
     (if tr_status (t_report t) \<noteq> STATUS_SUPPORTED
      then update_report (\<lambda>r. r\<lparr>tr_image := None, tr_image_length := 0\<rparr>) t
      else t)"

definition test_cleanup :: "'s host \<Rightarrow> 's transport_ops \<Rightarrow> 's test_run \<Rightarrow> 's test_run" where
  "test_cleanup host ops t = discard_image (release_transport ops (restore_original host ops t))"

section \<open>The test\<close>

definition start_run :: "'s host \<Rightarrow> report_1581 \<Rightarrow> 's world \<Rightarrow> 's test_run" where
  "start_run host report w =
     \<lparr>t_report = report, t_original_mode = zero_mode, t_changeable_mode = zero_mode,
      t_readback_mode = zero_mode,
      t_boundary = fill_buffer (h_stack_block host) (zeroed M65_BLOCK_SIZE),
      t_second_image = None, t_restore_needed = False, t_world = w\<rparr>"

definition initial_report :: "bool \<Rightarrow> report_1581" where
  "initial_report acknowledgement =
     zero_report_1581\<lparr>tr_status := STATUS_INCONCLUSIVE, tr_code := PROBE_TRANSPORT,
                      tr_acknowledgement_supplied := acknowledgement\<rparr>"

definition test_1581_body ::
    "'s host \<Rightarrow> 's transport_ops option \<Rightarrow> bool \<Rightarrow> 's world \<Rightarrow> report_1581 \<times> 's world" where
  "test_1581_body host transport acknowledgement w =
     (let report = initial_report acknowledgement;
          w = m65_probe_clear_interrupt host w
      in if \<not> acknowledgement
         then (report\<lparr>tr_code := PROBE_USAGE,
                      tr_reason := reason_set
                        ''test-1581 requires --ack-temporary-controller-change''\<rparr>, w)
         else
           (case transport of
              None \<Rightarrow> (report\<lparr>tr_reason := reason_set ''no transport was provided''\<rparr>, w)
            | Some ops \<Rightarrow>
                let (status, detail, s) = acquire_exclusive ops (tr_reason report) (w_state w);
                    w = w\<lparr>w_state := s\<rparr>;
                    report = report\<lparr>tr_reason := error_text detail\<rparr>
                in if status \<noteq> TRANSPORT_OK
                   then (report\<lparr>tr_code := code_for_transport status,
                                tr_reason := (if tr_reason report = []
                                              then reason_set ''unable to obtain exclusive SCSI access''
                                              else tr_reason report)\<rparr>, w)
                   else
                     let (_, t) = run_stages (test_stages host ops)
                           (start_run host (report\<lparr>tr_exclusive_acquired := True\<rparr>) w);
                         t = test_cleanup host ops t
                     in (t_report t, t_world t)))"

definition m65_test_1581 ::
    "'s host \<Rightarrow> 's transport_ops option \<Rightarrow> bool \<Rightarrow> report_1581 option \<Rightarrow> 's world \<Rightarrow>
     probe_code \<times> report_1581 option \<times> 's world" where
  "m65_test_1581 host transport acknowledgement report w =
     (case report of
        None \<Rightarrow> (PROBE_TRANSPORT, None, w)
      | Some _ \<Rightarrow>
          let (report, w) = test_1581_body host transport acknowledgement w
          in (tr_code report, Some report, w))"

end
