(* ===== verification/M65_ProbeTrace.thy ===== *)
theory M65_ProbeTrace
  imports M65_Test1581 "HOL-Library.Sublist"
begin

text \<open>
  What the probe layer sends (\<open>src/probe.c\<close>): a host and a transport that record every call, the
  requests found in a record, and for each command helper of the probe the requests it sends on
  every path. A plan is the list of requests of a run that nothing stops; \<open>sends\<close> says that a
  run sent a prefix of its plan, and all of it where it succeeded.
\<close>

section \<open>Recording hosts\<close>

definition logged_host :: "'s host \<Rightarrow> ('s \<times> event list) host" where
  "logged_host host =
     \<lparr>h_signals = (\<lambda>(s, log). let (arrived, s') = h_signals host s in (arrived, (s', log))),
      h_malloc = (\<lambda>n (s, log). let (content, s') = h_malloc host n s in (content, (s', log))),
      h_stack_block = h_stack_block host\<rparr>"

definition trace :: "('s \<times> event list) world \<Rightarrow> event list" where
  "trace w = snd (w_state w)"

lemma trace_deliver [simp]: "trace (deliver_signals (logged_host h) w) = trace w"
  by (simp add: deliver_signals_def logged_host_def trace_def m65_probe_request_interrupt_def Let_def
      split: prod.split)

lemma trace_clear [simp]: "trace (m65_probe_clear_interrupt (logged_host h) w) = trace w"
  using trace_deliver [of h w] by (simp add: m65_probe_clear_interrupt_def trace_def)

lemma trace_malloc: "host_malloc (logged_host h) n w = (b, w') \<Longrightarrow> trace w' = trace w"
  by (auto simp: host_malloc_def logged_host_def trace_def Let_def split: prod.splits)

lemma trace_read_interrupted:
  "read_interrupted (logged_host h) w = (b, w') \<Longrightarrow> trace w' = trace w"
  by (auto simp: read_interrupted_def Let_def)

section \<open>Requests\<close>

text \<open>What a command asks of the device: its block, and the data it sends.\<close>

type_synonym request = "bytes \<times> data_direction \<times> bytes option"

definition request_of :: "m65_command \<Rightarrow> request" where
  "request_of c = (take (c_cdb_length c) (c_cdb c), c_direction c,
                   if c_direction c = DATA_OUT then c_data c else None)"

definition requests :: "event list \<Rightarrow> request list" where
  "requests es = map request_of (commands_of es)"

lemma requests_append [simp]: "requests (xs @ ys) = requests xs @ requests ys"
  by (simp add: requests_def)

lemma requests_simps [simp]:
  "requests [] = []" "requests (Executed c r # es) = request_of c # requests es"
  "requests (Acquired st # es) = requests es" "requests (Released st # es) = requests es"
  by (simp_all add: requests_def)

text \<open>Only validated commands, and no change of access.\<close>

definition checked :: "event list \<Rightarrow> bool" where
  "checked es \<longleftrightarrow> list_all (\<lambda>e. case e of Executed c r \<Rightarrow> m65_validate_command c = Inr () | _ \<Rightarrow> False) es"

lemma checked_simps [simp]:
  "checked []" "checked (xs @ ys) \<longleftrightarrow> checked xs \<and> checked ys"
  "checked (Executed c r # es) \<longleftrightarrow> m65_validate_command c = Inr () \<and> checked es"
  by (simp_all add: checked_def)

text \<open>From \<open>w\<close> to \<open>w'\<close> the requests of a plan were sent, in order; all of them if \<open>ok\<close>.\<close>

definition sends :: "request list \<Rightarrow> bool \<Rightarrow> ('s \<times> event list) world \<Rightarrow> ('s \<times> event list) world \<Rightarrow> bool" where
  "sends plan ok w w' \<longleftrightarrow>
     (\<exists>es. trace w' = trace w @ es \<and> checked es \<and> prefix (requests es) plan \<and>
           (ok \<longrightarrow> requests es = plan))"

lemma sends_refl: "trace w' = trace w \<Longrightarrow> sends [] ok w w'"
  by (auto simp: sends_def intro!: exI [of _ "[]"])

lemma sends_none: "trace w' = trace w \<Longrightarrow> sends plan False w w'"
  by (auto simp: sends_def intro!: exI [of _ "[]"])

lemma sends_weaken: "sends plan ok w w' \<Longrightarrow> (ok' \<Longrightarrow> ok) \<Longrightarrow> sends plan ok' w w'"
  by (auto simp: sends_def)

lemma sends_trans: "sends p True w w1 \<Longrightarrow> sends q ok w1 w2 \<Longrightarrow> sends (p @ q) ok w w2"
  unfolding sends_def
  by (elim exE conjE, rule_tac x = "es @ esa" in exI) auto

lemma sends_stop: "sends p False w w1 \<Longrightarrow> sends (p @ q) False w w1"
  unfolding sends_def by (auto intro: prefix_prefix)

lemma sends_from: "trace w1 = trace w \<Longrightarrow> sends p ok w1 w2 \<Longrightarrow> sends p ok w w2"
  by (simp add: sends_def)

definition plan_of :: "bytes \<times> nat \<Rightarrow> data_direction \<Rightarrow> bytes option \<Rightarrow> request" where
  "plan_of cdb dir data = (take (snd cdb) (fst cdb), dir, if dir = DATA_OUT then data else None)"

lemma request_simple_command:
  assumes "snd cdb \<le> 16" "length (fst cdb) = 16"
  shows "request_of (simple_command cdb dir data n) = plan_of cdb dir data"
  using assms by (simp add: request_of_def simple_command_def plan_of_def buf_write_def)

lemma execute_simple_sends:
  assumes "execute_simple (logged_host h) (logged ops) cdb dir data n w = (r, b, w')"
    and "snd cdb \<le> 16" "length (fst cdb) = 16"
  shows "sends [plan_of cdb dir data] (command_good r) w w'"
proof (cases "m65_validate_command (simple_command cdb dir data n)")
  case (Inl d)
  with assms(1) show ?thesis
    by (auto simp: execute_simple_def execute_checked_def command_good_def intro: sends_none)
next
  case (Inr u)
  obtain stop w1 where i: "read_interrupted (logged_host h) w = (stop, w1)" by force
  note t = trace_read_interrupted [OF i]
  show ?thesis
  proof (cases stop)
    case True
    with assms(1) Inr i t show ?thesis
      by (auto simp: execute_simple_def execute_checked_def command_good_def intro: sends_none)
  next
    case False
    with assms Inr i t show ?thesis
      by (auto simp: execute_simple_def execute_checked_def Let_def logged_execute sends_def
          trace_def request_simple_command split: prod.splits
          intro!: exI [of _ "[Executed (simple_command cdb dir data n) r]"])
  qed
qed

lemma length_execute_simple:
  assumes "execute_simple h ops cdb dir (Some d) n w = (r, b, w')"
  shows "length b = length d"
  using assms
  by (auto simp: execute_simple_def execute_checked_def command_data_def simple_command_def Let_def
      split: sum.splits prod.splits if_splits)

lemma cdb_sizes [simp]:
  "length (fst (m65_cdb_mode_sense_10 b n)) = 16" "snd (m65_cdb_mode_sense_10 b n) = 10"
  "length (fst (m65_cdb_mode_select_10 n)) = 16" "snd (m65_cdb_mode_select_10 n) = 10"
  "length (fst (m65_cdb_read_10 a m)) = 16" "snd (m65_cdb_read_10 a m) = 10"
  "length (fst (m65_cdb_inquiry l)) = 16" "snd (m65_cdb_inquiry l) = 6"
  "length (fst m65_cdb_test_unit_ready) = 16" "snd m65_cdb_test_unit_ready = 6"
  "length (fst m65_cdb_read_capacity_10) = 16" "snd m65_cdb_read_capacity_10 = 10"
  "length (fst (m65_cdb_read_format_capacities n)) = 16" "snd (m65_cdb_read_format_capacities n) = 10"
  by (simp_all add: m65_cdb_mode_sense_10_def m65_cdb_mode_select_10_def m65_cdb_read_10_def
      m65_cdb_inquiry_def m65_cdb_test_unit_ready_def m65_cdb_read_capacity_10_def
      m65_cdb_read_format_capacities_def cdb_clear_def m65_write_be16_def m65_write_be32_def)

section \<open>The commands of the test\<close>

definition sense_plan :: "bool \<Rightarrow> request" where
  "sense_plan changeable = plan_of (m65_cdb_mode_sense_10 changeable 256) DATA_IN None"

definition select_plan :: "flexible_disk_page \<Rightarrow> request list" where
  "select_plan page =
     (case m65_build_mode_select_payload page 40 of
        Inl _ \<Rightarrow> []
      | Inr payload \<Rightarrow> [plan_of (m65_cdb_mode_select_10 40) DATA_OUT (Some payload)])"

definition read_plan :: "nat \<Rightarrow> nat \<Rightarrow> request" where
  "read_plan lba blocks = plan_of (m65_cdb_read_10 (of_nat lba) (of_nat blocks)) DATA_IN None"

definition image_plan :: "request list" where
  "image_plan = map (\<lambda>i. read_plan (10 * i) 10) [0..<160]"

definition test_plan :: "flexible_disk_page \<Rightarrow> request list" where
  "test_plan requested =
     [sense_plan False, sense_plan True] @ select_plan requested @
     [sense_plan False, read_plan 9 1, read_plan 1599 1] @ image_plan @ image_plan"

lemma plan_of_in: "plan_of cdb DATA_IN (Some d) = plan_of cdb DATA_IN None"
  by (simp add: plan_of_def)

lemma mode_sense_sends:
  assumes "mode_sense (logged_host h) (logged ops) ch p w = (r, m, w')"
  shows "sends [sense_plan ch] (command_good r) w w'"
proof -
  obtain r1 b w1 where e: "execute_simple (logged_host h) (logged ops)
      (m65_cdb_mode_sense_10 ch (of_nat M65_MODE_BUFFER_SIZE)) DATA_IN
      (Some (zeroed M65_MODE_BUFFER_SIZE)) M65_MODE_BUFFER_SIZE w = (r1, b, w1)"
    by (metis prod_cases3)
  have s: "sends [sense_plan ch] (command_good r1) w w1"
    using execute_simple_sends [OF e] by (simp add: sense_plan_def plan_of_in)
  have "w' = w1 \<and> (command_good r \<longrightarrow> command_good r1)"
    using assms e by (auto simp: mode_sense_def Let_def command_good_def
        split: if_splits sum.splits prod.splits)
  with s show ?thesis by (auto intro: sends_weaken)
qed

lemma mode_sense_wf:
  assumes "mode_sense h ops ch p w = (r, m, w')" and "command_good r"
  shows "flexible_wf (mp_flexible m)"
proof -
  obtain r1 b w1 where e: "execute_simple h ops
      (m65_cdb_mode_sense_10 ch (of_nat M65_MODE_BUFFER_SIZE)) DATA_IN
      (Some (zeroed M65_MODE_BUFFER_SIZE)) M65_MODE_BUFFER_SIZE w = (r1, b, w1)"
    by (metis prod_cases3)
  have b: "length b = 256" using length_execute_simple [OF e] by simp
  from assms e have "r_transferred r1 \<le> 256" and
      "m65_parse_mode_parameters (Some b) (r_transferred r1) p = Inr m"
    by (auto simp: mode_sense_def Let_def command_good_def split: if_splits sum.splits prod.splits)
  with b show ?thesis by (intro parse_mode_parameters_Inr(1)) auto
qed

lemma payload_length: "m65_build_mode_select_payload page 40 = Inr d \<Longrightarrow> length (fp_page page) = 32 \<Longrightarrow> length d = 40"
  by (auto simp: payload_eq split: if_splits)

lemma mode_select_sends:
  assumes "mode_select (logged_host h) (logged ops) page w = (r, w')" and "length (fp_page page) = 32"
  shows "sends (select_plan page) (command_good r) w w'"
proof (cases "m65_build_mode_select_payload page 40")
  case (Inl d)
  with assms show ?thesis by (auto simp: mode_select_def select_plan_def intro: sends_refl)
next
  case (Inr d)
  note len = payload_length [OF Inr assms(2)]
  from assms Inr len obtain b where
    "execute_simple (logged_host h) (logged ops) (m65_cdb_mode_select_10 40) DATA_OUT (Some d) 40 w = (r, b, w')"
    by (auto simp: mode_select_def Let_def split: prod.splits)
  from execute_simple_sends [OF this] Inr show ?thesis by (simp add: select_plan_def)
qed

lemma read_blocks_sends:
  assumes "read_blocks (logged_host h) (logged ops) (of_nat lba) (of_nat n) buf w = (r, b, w')"
  shows "sends [read_plan lba n] (command_good r) w w'"
proof -
  let ?len = "unat (of_nat n :: u16) * M65_BLOCK_SIZE"
  obtain r1 b1 w1 where e: "execute_simple (logged_host h) (logged ops)
      (m65_cdb_read_10 (of_nat lba) (of_nat n)) DATA_IN (Some buf) ?len w = (r1, b1, w1)"
    by (metis prod_cases3)
  have s: "sends [read_plan lba n] (command_good r1) w w1"
    using execute_simple_sends [OF e] by (simp add: read_plan_def plan_of_in)
  have "w' = w1 \<and> (command_good r \<longrightarrow> command_good r1)"
    using assms e by (auto simp: read_blocks_def Let_def command_good_def split: if_splits prod.splits)
  with s show ?thesis by (auto intro: sends_weaken)
qed

lemma read_image_sends:
  "read_complete_image (logged_host h) (logged ops) (10 * k) img rep w = (ok, img', rep', w') \<Longrightarrow>
     sends (map (\<lambda>i. read_plan (10 * i) 10) [k..<160]) ok w w'"
proof (induction "160 - k" arbitrary: k img rep w)
  case 0
  then show ?case by (auto simp: read_complete_image.simps layout_consts intro: sends_refl)
next
  case (Suc n)
  then have k: "k < 160" by simp
  obtain stop w1 where i: "read_interrupted (logged_host h) w = (stop, w1)" by force
  note t = trace_read_interrupted [OF i]
  let ?chunk = "take (10 * M65_BLOCK_SIZE) (drop (10 * k * M65_BLOCK_SIZE) img)"
  obtain r b w2 where rb: "read_blocks (logged_host h) (logged ops) (of_nat (10 * k)) (of_nat 10) ?chunk w1 = (r, b, w2)"
    by (metis prod_cases3)
  note s = sends_from [OF t read_blocks_sends [OF rb]]
  have split: "[k..<160] = [k] @ [Suc k..<160]" using k by (simp add: upt_conv_Cons)
  have bl: "(if 10 < M65_1581_BLOCKS - 10 * k then 10 else M65_1581_BLOCKS - 10 * k) = 10"
    using k by (auto simp: layout_consts)
  have lt: "10 * k < M65_1581_BLOCKS" using k by (simp add: layout_consts)
  consider "stop" | "\<not> stop" "\<not> command_good r" | "\<not> stop" "command_good r" by blast
  then show ?case
  proof cases
    case 1
    with Suc.prems i t lt show ?thesis
      by (subst (asm) read_complete_image.simps) (auto simp: Let_def intro: sends_none)
  next
    case 2
    with Suc.prems i rb lt bl have "\<not> ok" "w' = w2"
      by (subst (asm) read_complete_image.simps; auto simp: Let_def)+
    with s 2 show ?thesis unfolding split map_append by (simp only: sends_stop list.map)
  next
    case 3
    have eq: "10 * k + 10 = 10 * Suc k" by simp
    from 3 Suc.prems i rb lt bl have
      "read_complete_image (logged_host h) (logged ops) (10 * Suc k)
         (buf_write (10 * k * M65_BLOCK_SIZE) b img) rep w2 = (ok, img', rep', w')"
      by (subst (asm) read_complete_image.simps) (simp add: Let_def eq del: mult_Suc_right)
    from Suc.hyps(1) [OF _ this] Suc.hyps(2)
    have "sends (map (\<lambda>i. read_plan (10 * i) 10) [Suc k..<160]) ok w2 w'" by simp
    with s 3 show ?thesis unfolding split map_append by (simp only: sends_trans list.map)
  qed
qed

lemma writes_requests:
  "writes_of es = map (\<lambda>r. snd (snd r)) (filter (\<lambda>r. fst (snd r) = DATA_OUT) (requests es))"
  by (induction es rule: commands_of.induct) (auto simp: request_of_def)

section \<open>Sessions\<close>

text \<open>A session: the access is refused, or it is acquired, a prefix of the plan and of the final
  requests are sent as validated commands and in that order, and the access is released once.\<close>

definition session_trace :: "request list \<Rightarrow> request list \<Rightarrow> event list \<Rightarrow> bool" where
  "session_trace plan final es \<longleftrightarrow>
     (\<exists>st. st \<noteq> TRANSPORT_OK \<and> es = [Acquired st]) \<or>
     (\<exists>body rest st. es = Acquired TRANSPORT_OK # body @ rest @ [Released st] \<and>
        checked (body @ rest) \<and> prefix (requests body) plan \<and> prefix (requests rest) final)"

end
