(* ===== verification/M65_TestRuns.thy ===== *)
theory M65_TestRuns
  imports M65_ProbeTrace
begin

text \<open>
  Assertions for the runs of the 1581 test (\<open>src/probe.c\<close>): what holds between its stages, where
  a stage jumps to the clean-up, and where the verdict is reached. Each stage has a triple; the
  last lemma composes them in the order of the code.
\<close>

section \<open>Reports of failures\<close>

lemma code_for_transport_OK [simp]: "code_for_transport st = PROBE_OK \<longleftrightarrow> st = TRANSPORT_OK"
  by (cases st) (simp_all add: code_for_transport_def)

lemma report_failure_sel:
  "tr_code (report_failure operation result r) \<noteq> PROBE_OK"
  "\<exists>c s e. report_failure operation result r = r\<lparr>tr_code := c, tr_reason := s, tr_sense := e\<rparr>"
proof -
  show "tr_code (report_failure operation result r) \<noteq> PROBE_OK"
    by (simp add: report_failure_def copy_command_failure_def Let_def)
  show "\<exists>c s e. report_failure operation result r = r\<lparr>tr_code := c, tr_reason := s, tr_sense := e\<rparr>"
    by (auto simp: report_failure_def split: prod.split)
qed

lemma report_failure_frame [simp]:
  "tr_status (report_failure operation result r) = tr_status r"
  "tr_original (report_failure operation result r) = tr_original r"
  "tr_changeable (report_failure operation result r) = tr_changeable r"
  "tr_requested (report_failure operation result r) = tr_requested r"
  "tr_accepted (report_failure operation result r) = tr_accepted r"
  "tr_acknowledgement_supplied (report_failure operation result r) = tr_acknowledgement_supplied r"
  "tr_exclusive_acquired (report_failure operation result r) = tr_exclusive_acquired r"
  "tr_original_saved (report_failure operation result r) = tr_original_saved r"
  "tr_controller_changed (report_failure operation result r) = tr_controller_changed r"
  "tr_controller_restored (report_failure operation result r) = tr_controller_restored r"
  "tr_boundary_lba_9_read (report_failure operation result r) = tr_boundary_lba_9_read r"
  "tr_boundary_lba_1599_read (report_failure operation result r) = tr_boundary_lba_1599_read r"
  "tr_repeated_reads_match (report_failure operation result r) = tr_repeated_reads_match r"
  "tr_image (report_failure operation result r) = tr_image r"
  "tr_image_length (report_failure operation result r) = tr_image_length r"
  using report_failure_sel(2) [of operation result r] by auto

lemma report_failure_code [simp]: "tr_code (report_failure operation result r) \<noteq> PROBE_OK"
  by (rule report_failure_sel)

lemma update_report_sel [simp]:
  "t_report (update_report f t) = f (t_report t)"
  "t_world (update_report f t) = t_world t"
  "t_restore_needed (update_report f t) = t_restore_needed t"
  "t_original_mode (update_report f t) = t_original_mode t"
  by (simp_all add: update_report_def)

lemma length_buf_write_part:
  "length src \<le> length buf - off \<Longrightarrow> length (buf_write off src buf) = length buf"
  by (cases "off \<le> length buf") (auto simp: buf_write_def)

lemma length_read_blocks:
  "read_blocks h ops lba n buf w = (r, b, w') \<Longrightarrow> length b = length buf"
  by (auto simp: read_blocks_def Let_def split: prod.splits if_splits dest: length_execute_simple)

text \<open>A report that only records a failure.\<close>

definition failed :: "report_1581 \<Rightarrow> report_1581 \<Rightarrow> bool" where
  "failed r r' \<longleftrightarrow> tr_code r' \<noteq> PROBE_OK \<and>
     (\<exists>c s e. r' = r\<lparr>tr_code := c, tr_reason := s, tr_sense := e\<rparr>)"

lemma failed_command: "failed r (report_failure operation result r)"
  by (simp add: failed_def report_failure_sel)

lemma failed_interrupted: "c \<noteq> PROBE_OK \<Longrightarrow> failed r (r\<lparr>tr_code := c, tr_reason := s\<rparr>)"
  unfolding failed_def by (intro conjI exI [of _ c] exI [of _ s] exI [of _ "tr_sense r"]) simp_all

lemma read_image_report:
  "read_complete_image h ops lba img rep w = (ok, img', rep', w') \<Longrightarrow>
     length img' = length img \<and>
     (if ok then rep' = rep else failed rep rep')"
proof (induction h ops lba img rep w rule: read_complete_image.induct)
  case (1 h ops lba img rep w)
  show ?case
  proof (cases "lba < M65_1581_BLOCKS")
    case False
    with "1.prems" show ?thesis by (simp add: read_complete_image.simps)
  next
    case True
    define blocks where "blocks = (if M65_1581_BLOCKS - lba > M65_READ_CHUNK_BLOCKS
      then M65_READ_CHUNK_BLOCKS else M65_1581_BLOCKS - lba)"
    obtain stop w1 where i: "read_interrupted h w = (stop, w1)" by force
    let ?chunk = "take (blocks * M65_BLOCK_SIZE) (drop (lba * M65_BLOCK_SIZE) img)"
    obtain r b w2 where rb: "read_blocks h ops (of_nat lba) (of_nat blocks) ?chunk w1 = (r, b, w2)"
      by (metis prod_cases3)
    have b: "length (buf_write (lba * M65_BLOCK_SIZE) b img) = length img"
      by (rule length_buf_write_part) (simp add: length_read_blocks [OF rb])
    note unfolded = "1.prems" [unfolded read_complete_image.simps [of h ops lba] Let_def,
        folded blocks_def, simplified i rb prod.case True if_True]
    consider "stop" | "\<not> stop" "\<not> command_good r" | "\<not> stop" "command_good r" by blast
    then show ?thesis
    proof cases
      case 1
      with unfolded show ?thesis by (auto intro: failed_interrupted)
    next
      case 2
      with unfolded b show ?thesis by (auto intro: failed_command)
    next
      case 3
      with unfolded have "read_complete_image h ops (lba + blocks)
          (buf_write (lba * M65_BLOCK_SIZE) b img) rep w2 = (ok, img', rep', w')" by simp
      from "1.IH" [OF True refl blocks_def i [symmetric] refl _ refl rb [symmetric]] this b 3
      show ?thesis by simp
    qed
  qed
qed

section \<open>Assertions between the stages\<close>

definition triple :: "('a \<Rightarrow> bool) \<Rightarrow> ('a \<Rightarrow> bool \<times> 'a) \<Rightarrow> ('a \<Rightarrow> bool) \<Rightarrow> ('a \<Rightarrow> bool) \<Rightarrow> bool" where
  "triple P stage Q R \<longleftrightarrow>
     (\<forall>t t'. P t \<longrightarrow> (stage t = (True, t') \<longrightarrow> Q t') \<and> (stage t = (False, t') \<longrightarrow> R t'))"

lemma tripleI:
  assumes "\<And>t ok t'. P t \<Longrightarrow> stage t = (ok, t') \<Longrightarrow> if ok then Q t' else R t'"
  shows "triple P stage Q R"
  unfolding triple_def using assms by (metis (full_types))

lemma triple_Nil: "triple P (run_stages []) P R"
  by (simp add: triple_def)

lemma triple_Cons:
  assumes "triple P stage Q R" and "triple Q (run_stages rest) S R"
  shows "triple P (run_stages (stage # rest)) S R"
  using assms unfolding triple_def by (auto split: prod.splits bool.splits)

lemma triple_weaken: "triple P stage Q R \<Longrightarrow> (\<And>t. P' t \<Longrightarrow> P t) \<Longrightarrow> triple P' stage Q R"
  by (auto simp: triple_def)

text \<open>What every point before the verdict has: no success claimed yet.\<close>

definition undecided :: "report_1581 \<Rightarrow> bool" where
  "undecided r \<longleftrightarrow> tr_code r \<noteq> PROBE_OK \<and> tr_status r = STATUS_INCONCLUSIVE \<and>
     \<not> tr_controller_restored r \<and> \<not> tr_repeated_reads_match r \<and> tr_image_length r = 0"

text \<open>The saved page is well formed; once the mask is read, the request is the saved page with
  the 1581 geometry, within the mask.\<close>

definition page_saved :: "'s test_run \<Rightarrow> bool" where
  "page_saved t \<longleftrightarrow> tr_original_saved (t_report t) \<and> flexible_wf (mp_flexible (t_original_mode t)) \<and>
     flexible_wf (tr_original (t_report t)) \<and>
     fp_page (tr_original (t_report t)) = fp_page (mp_flexible (t_original_mode t))"

definition request_made :: "'s test_run \<Rightarrow> bool" where
  "request_made t \<longleftrightarrow> page_saved t \<and>
     tr_requested (t_report t) = m65_set_1581_geometry (tr_original (t_report t)) \<and>
     m65_geometry_changes_allowed (tr_original (t_report t)) (tr_requested (t_report t))
       (tr_changeable (t_report t)) = Inr ()"

text \<open>Neither depends on the rest of the run.\<close>

lemma request_made_frame [simp]:
  "page_saved (t\<lparr>t_world := w\<rparr>) = page_saved t" "request_made (t\<lparr>t_world := w\<rparr>) = request_made t"
  "page_saved (t\<lparr>t_readback_mode := m\<rparr>) = page_saved t"
  "request_made (t\<lparr>t_readback_mode := m\<rparr>) = request_made t"
  "page_saved (t\<lparr>t_boundary := b\<rparr>) = page_saved t" "request_made (t\<lparr>t_boundary := b\<rparr>) = request_made t"
  "page_saved (t\<lparr>t_second_image := i\<rparr>) = page_saved t"
  "request_made (t\<lparr>t_second_image := i\<rparr>) = request_made t"
  "page_saved (t\<lparr>t_restore_needed := x\<rparr>) = page_saved t"
  "request_made (t\<lparr>t_restore_needed := x\<rparr>) = request_made t"
  by (simp_all add: page_saved_def request_made_def)

definition saved_part :: "report_1581 \<Rightarrow> bool \<times> flexible_disk_page \<times> flexible_disk_page \<times> flexible_disk_page" where
  "saved_part r = (tr_original_saved r, tr_original r, tr_requested r, tr_changeable r)"

lemma saved_part_simps [simp]:
  "saved_part (r\<lparr>tr_code := c\<rparr>) = saved_part r" "saved_part (r\<lparr>tr_status := st\<rparr>) = saved_part r"
  "saved_part (r\<lparr>tr_reason := s\<rparr>) = saved_part r" "saved_part (r\<lparr>tr_sense := e\<rparr>) = saved_part r"
  "saved_part (r\<lparr>tr_accepted := a\<rparr>) = saved_part r"
  "saved_part (r\<lparr>tr_exclusive_acquired := b\<rparr>) = saved_part r"
  "saved_part (r\<lparr>tr_controller_changed := b\<rparr>) = saved_part r"
  "saved_part (r\<lparr>tr_controller_restored := b\<rparr>) = saved_part r"
  "saved_part (r\<lparr>tr_boundary_lba_9_read := b\<rparr>) = saved_part r"
  "saved_part (r\<lparr>tr_boundary_lba_1599_read := b\<rparr>) = saved_part r"
  "saved_part (r\<lparr>tr_repeated_reads_match := b\<rparr>) = saved_part r"
  "saved_part (r\<lparr>tr_image := i\<rparr>) = saved_part r" "saved_part (r\<lparr>tr_image_length := n\<rparr>) = saved_part r"
  "saved_part (report_failure operation result r) = saved_part r"
  by (simp_all add: saved_part_def)

lemma request_made_report:
  assumes "saved_part r = saved_part (t_report t)"
  shows "page_saved (t\<lparr>t_report := r\<rparr>) = page_saved t" "request_made (t\<lparr>t_report := r\<rparr>) = request_made t"
  using assms by (simp_all add: page_saved_def request_made_def saved_part_def)

lemma request_made_update [simp]:
  assumes "saved_part (f (t_report t)) = saved_part (t_report t)"
  shows "page_saved (update_report f t) = page_saved t" "request_made (update_report f t) = request_made t"
  using request_made_report [OF assms] by (simp_all add: update_report_def)

lemma saved_part_saved: "request_made t \<Longrightarrow> tr_original_saved (t_report t) \<and> page_saved t"
  by (simp add: request_made_def page_saved_def)

definition sense_plans :: "request list" where
  "sense_plans = [sense_plan False, sense_plan True]"

type_synonym 's log_world = "('s \<times> event list) world"

text \<open>After \<open>k\<close> of the plan's parts, from the world \<open>w\<close> in which access was acquired.\<close>

definition part_plan :: "nat \<Rightarrow> flexible_disk_page \<Rightarrow> request list" where
  "part_plan k p = concat (take k
     [[sense_plan False], [sense_plan True], select_plan p, [sense_plan False],
      [read_plan 9 1], [read_plan 1599 1], image_plan @ image_plan])"

definition at_part :: "nat \<Rightarrow> 's log_world \<Rightarrow> ('s \<times> event list) test_run \<Rightarrow> bool" where
  "at_part k w t \<longleftrightarrow>
     undecided (t_report t) \<and> sends (part_plan k (tr_requested (t_report t))) True w (t_world t) \<and>
     (if k = 0 then \<not> tr_original_saved (t_report t) else page_saved t) \<and>
     (2 \<le> k \<longrightarrow> request_made t) \<and>
     (3 \<le> k \<longrightarrow> select_plan (tr_requested (t_report t)) \<noteq> []) \<and> (t_restore_needed t \<longleftrightarrow> 3 \<le> k) \<and>
     (tr_controller_changed (t_report t) \<longleftrightarrow> 3 \<le> k) \<and>
     (4 \<le> k \<longrightarrow> m65_geometry_is_1581 (tr_accepted (t_report t))) \<and>
     (tr_boundary_lba_9_read (t_report t) \<longleftrightarrow> 5 \<le> k) \<and>
     (tr_boundary_lba_1599_read (t_report t) \<longleftrightarrow> 6 \<le> k)"

text \<open>Where a stage jumps to the clean-up.\<close>

definition stopped :: "'s log_world \<Rightarrow> ('s \<times> event list) test_run \<Rightarrow> bool" where
  "stopped w t \<longleftrightarrow>
     tr_code (t_report t) \<noteq> PROBE_OK \<and> tr_status (t_report t) \<noteq> STATUS_SUPPORTED \<and>
     \<not> tr_controller_restored (t_report t) \<and>
     sends (part_plan 7 (tr_requested (t_report t))) False w (t_world t) \<and>
     (tr_original_saved (t_report t) \<longrightarrow> page_saved t) \<and>
     (if t_restore_needed t then request_made t
      else \<not> tr_controller_changed (t_report t) \<and> sends sense_plans False w (t_world t))"

definition completed :: "'s log_world \<Rightarrow> ('s \<times> event list) test_run \<Rightarrow> bool" where
  "completed w t \<longleftrightarrow>
     tr_code (t_report t) = PROBE_OK \<and> tr_status (t_report t) = STATUS_SUPPORTED \<and>
     \<not> tr_controller_restored (t_report t) \<and>
     sends (part_plan 7 (tr_requested (t_report t))) True w (t_world t) \<and>
     request_made t \<and> select_plan (tr_requested (t_report t)) \<noteq> [] \<and>
     t_restore_needed t \<and> tr_controller_changed (t_report t) \<and>
     m65_geometry_is_1581 (tr_accepted (t_report t)) \<and>
     tr_boundary_lba_9_read (t_report t) \<and> tr_boundary_lba_1599_read (t_report t) \<and>
     tr_repeated_reads_match (t_report t) \<and>
     (\<exists>img. tr_image (t_report t) = Some img \<and> length img = M65_1581_IMAGE_SIZE) \<and>
     tr_image_length (t_report t) = M65_1581_IMAGE_SIZE"

lemma part_plan_Suc:
  "part_plan 0 p = []"
  "part_plan (Suc 0) p = part_plan 0 p @ [sense_plan False]"
  "part_plan 2 p = part_plan (Suc 0) p @ [sense_plan True]"
  "part_plan 3 p = part_plan 2 p @ select_plan p"
  "part_plan 4 p = part_plan 3 p @ [sense_plan False]"
  "part_plan 5 p = part_plan 4 p @ [read_plan 9 1]"
  "part_plan 6 p = part_plan 5 p @ [read_plan 1599 1]"
  "part_plan 7 p = part_plan 6 p @ (image_plan @ image_plan)"
  by (simp_all add: part_plan_def)

lemma part_plan_prefix: "i \<le> j \<Longrightarrow> \<exists>rest. part_plan j p = part_plan i p @ rest"
  unfolding part_plan_def using take_add [of i "j - i"] by (metis concat_append le_add_diff_inverse)

lemma sends_part:
  assumes "sends (part_plan i p) False w w'" and "i \<le> j"
  shows "sends (part_plan j p) False w w'"
proof -
  obtain rest where "part_plan j p = part_plan i p @ rest" using part_plan_prefix [OF assms(2)] by auto
  with assms(1) show ?thesis by (simp add: sends_stop)
qed

lemma sense_plans_part: "sense_plans = part_plan 2 p"
  by (simp add: sense_plans_def part_plan_Suc)

section \<open>The stages\<close>

lemma sends_next:
  assumes "sends p True w w1" and "sends q ok w1 w2" and "p' = p @ q"
  shows "sends p' ok w w2"
  using sends_trans [OF assms(1,2)] assms(3) by simp

lemma stopped_failed:
  assumes "sends (part_plan i (tr_requested (t_report t))) False w (t_world t)" and "i \<le> 7"
    and "undecided (t_report t)"
    and "tr_original_saved (t_report t) \<Longrightarrow> page_saved t"
    and "if t_restore_needed t then request_made t
         else \<not> tr_controller_changed (t_report t) \<and> i \<le> 2"
  shows "stopped w (update_report (report_failure operation result) t)"
proof -
  have "\<not> t_restore_needed t \<longrightarrow> sends sense_plans False w (t_world t)"
    using assms(1,5) sends_part [of i "tr_requested (t_report t)" w "t_world t" 2]
    by (simp add: sense_plans_part [of "tr_requested (t_report t)"])
  then show ?thesis
    using assms sends_part [OF assms(1,2)]
    by (auto simp: stopped_def undecided_def page_saved_def request_made_def)
qed

lemma save_original_triple:
  "triple (at_part 0 w) (save_original (logged_host h) (logged ops)) (at_part 1 w) (stopped w)"
proof (rule tripleI)
  fix t ok t'
  assume t: "at_part 0 w t" and e: "save_original (logged_host h) (logged ops) t = (ok, t')"
  obtain r m w1 where ms: "mode_sense (logged_host h) (logged ops) False (t_original_mode t) (t_world t) = (r, m, w1)"
    by (metis prod_cases3)
  have s: "sends (part_plan 1 p) (command_good r) w w1" for p
    by (rule sends_next [OF _ mode_sense_sends [OF ms]]) (use t in \<open>auto simp: at_part_def part_plan_Suc\<close>)
  show "if ok then at_part 1 w t' else stopped w t'"
  proof (cases "command_good r")
    case True
    with e ms s t mode_sense_wf [OF ms] show ?thesis
      by (auto simp: save_original_def Let_def at_part_def undecided_def page_saved_def)
  next
    case False
    let ?t = "t\<lparr>t_original_mode := m, t_world := w1\<rparr>"
    have "ok = False" "t' = update_report (report_failure ''save original MODE SENSE parameters'' r) ?t"
      using e ms False by (auto simp: save_original_def Let_def stop_failed_def)
    moreover have "stopped w (update_report (report_failure ''save original MODE SENSE parameters'' r) ?t)"
      by (rule stopped_failed [of 1]) (use t s False in \<open>auto simp: at_part_def\<close>)
    ultimately show ?thesis by simp
  qed
qed

lemma apply_changeability_wf:
  "flexible_wf f \<Longrightarrow> flexible_wf (m65_apply_changeability f m)"
  by (simp add: flexible_wf_def m65_apply_changeability_def flexible_field_order_def)

lemma apply_changeability_page [simp]: "fp_page (m65_apply_changeability f m) = fp_page f"
  by (simp add: m65_apply_changeability_def)

lemma read_changeable_triple:
  "triple (at_part 1 w) (read_changeable (logged_host h) (logged ops)) (at_part 2 w) (stopped w)"
proof (rule tripleI)
  fix t ok t'
  assume t: "at_part 1 w t" and e: "read_changeable (logged_host h) (logged ops) t = (ok, t')"
  obtain r m w1 where ms: "mode_sense (logged_host h) (logged ops) True (t_changeable_mode t) (t_world t) = (r, m, w1)"
    by (metis prod_cases3)
  have s: "sends (part_plan 2 p) (command_good r) w w1" for p
    by (rule sends_next [OF _ mode_sense_sends [OF ms]]) (use t in \<open>auto simp: at_part_def part_plan_Suc\<close>)
  show "if ok then at_part 2 w t' else stopped w t'"
  proof (cases "command_good r")
    case True
    let ?o = "m65_apply_changeability (tr_original (t_report t)) (mp_flexible m)"
    have o: "flexible_wf ?o" "fp_page ?o = fp_page (tr_original (t_report t))"
      using t by (simp_all add: at_part_def page_saved_def apply_changeability_wf)
    show ?thesis
    proof (cases "m65_geometry_changes_allowed ?o (m65_set_1581_geometry ?o) (mp_flexible m)")
      case (Inl d)
      have s7: "sends (part_plan 7 p) False w w1" for p
        by (rule sends_part [of 2]) (use s [of p] in \<open>auto intro: sends_weaken\<close>)
      have s2: "sends sense_plans False w w1"
        using s [folded sense_plans_part] by (rule sends_weaken) (use True in simp)
      from True Inl e ms t o s7 s2 show ?thesis
        by (auto simp: read_changeable_def Let_def at_part_def undecided_def page_saved_def stopped_def)
    next
      case (Inr u)
      with True e ms s t o show ?thesis
        by (auto simp: read_changeable_def Let_def at_part_def undecided_def page_saved_def request_made_def)
    qed
  next
    case False
    let ?t = "t\<lparr>t_changeable_mode := m, t_world := w1\<rparr>"
    have "ok = False" "t' = update_report (report_failure ''read changeable MODE SENSE mask'' r) ?t"
      using e ms False by (auto simp: read_changeable_def Let_def stop_failed_def)
    moreover have "stopped w (update_report (report_failure ''read changeable MODE SENSE mask'' r) ?t)"
      by (rule stopped_failed [of 2]) (use t s False in \<open>auto simp: at_part_def page_saved_def\<close>)
    ultimately show ?thesis by simp
  qed
qed

lemma stopped_refused:
  assumes "sends (part_plan i (tr_requested (t_report t))) False w (t_world t)" and "i \<le> 7"
    and "undecided (t_report t)" and "request_made t" and "t_restore_needed t"
    and "stop_refused operation result t = (ok, t')"
  shows "\<not> ok \<and> stopped w t'"
proof
  show "\<not> ok" using assms(6) by (auto simp: stop_refused_def Let_def split: if_splits)
  have "page_saved t" using assms(4) by (simp add: request_made_def)
  then have "stopped w (update_report (report_failure operation result) t)"
    using assms by (intro stopped_failed [of i]) auto
  then show "stopped w t'" using assms(6)
    by (auto simp: stop_refused_def Let_def stopped_def page_saved_def request_made_def split: if_splits)
qed

lemma mode_select_good:
  "mode_select h ops p w = (r, w') \<Longrightarrow> command_good r \<Longrightarrow> select_plan p \<noteq> []"
  by (auto simp: mode_select_def select_plan_def command_good_def split: sum.splits)

lemma select_requested_triple:
  "triple (at_part 2 w) (select_requested (logged_host h) (logged ops)) (at_part 3 w) (stopped w)"
proof (rule tripleI)
  fix t ok t'
  assume t: "at_part 2 w t" and e: "select_requested (logged_host h) (logged ops) t = (ok, t')"
  let ?p = "tr_requested (t_report t)"
  obtain r w1 where ms: "mode_select (logged_host h) (logged ops) ?p (t_world t) = (r, w1)" by force
  have "length (fp_page ?p) = 32"
    using t by (simp add: at_part_def request_made_def page_saved_def flexible_wf_def)
  then have s: "sends (part_plan 3 ?p) (command_good r) w w1"
    by (intro sends_next [OF _ mode_select_sends [OF ms]]) (use t in \<open>auto simp: at_part_def part_plan_Suc\<close>)
  let ?t = "t\<lparr>t_restore_needed := True, t_world := w1\<rparr>"
  show "if ok then at_part 3 w t' else stopped w t'"
  proof (cases "command_good r")
    case True
    with e ms s t mode_select_good [OF ms] show ?thesis
      by (auto simp: select_requested_def Let_def at_part_def undecided_def page_saved_def request_made_def)
  next
    case False
    have refused: "stop_refused ''MODE SELECT requested 1581 geometry'' r ?t = (ok, t')"
      using e ms False by (simp add: select_requested_def Let_def)
    have "\<not> ok \<and> stopped w t'"
      by (rule stopped_refused [OF _ _ _ _ _ refused, of 3])
        (use s False t in \<open>auto simp: at_part_def request_made_def page_saved_def\<close>)
    then show ?thesis by simp
  qed
qed

lemma verify_accepted_triple:
  "triple (at_part 3 w) (verify_accepted (logged_host h) (logged ops)) (at_part 4 w) (stopped w)"
proof (rule tripleI)
  fix t ok t'
  assume t: "at_part 3 w t" and e: "verify_accepted (logged_host h) (logged ops) t = (ok, t')"
  let ?p = "tr_requested (t_report t)"
  obtain r m w1 where ms: "mode_sense (logged_host h) (logged ops) False (t_readback_mode t) (t_world t) = (r, m, w1)"
    by (metis prod_cases3)
  have s: "sends (part_plan 4 ?p) (command_good r) w w1"
    by (rule sends_next [OF _ mode_sense_sends [OF ms]]) (use t in \<open>auto simp: at_part_def part_plan_Suc\<close>)
  let ?t = "t\<lparr>t_readback_mode := m, t_world := w1\<rparr>"
  show "if ok then at_part 4 w t' else stopped w t'"
  proof (cases "command_good r")
    case True
    show ?thesis
    proof (cases "m65_geometry_is_1581 (mp_flexible m)")
      case geometry: True
      with True e ms s t show ?thesis
        by (auto simp: verify_accepted_def Let_def at_part_def undecided_def)
    next
      case geometry: False
      have "sends (part_plan 7 ?p) False w w1" by (rule sends_part [of 4]) (use s in \<open>auto intro: sends_weaken\<close>)
      with geometry True e ms t show ?thesis
        by (auto simp: verify_accepted_def Let_def at_part_def undecided_def stopped_def)
    qed
  next
    case False
    have "ok = False" "t' = update_report (report_failure ''verify MODE SENSE parameters'' r) ?t"
      using e ms False by (auto simp: verify_accepted_def Let_def stop_failed_def)
    moreover have "stopped w (update_report (report_failure ''verify MODE SENSE parameters'' r) ?t)"
      by (rule stopped_failed [of 4]) (use t s False in \<open>auto simp: at_part_def\<close>)
    ultimately show ?thesis by simp
  qed
qed

lemma probe_lba_triple:
  assumes k: "3 \<le> k" "k < 7" and "\<And>p. part_plan (Suc k) p = part_plan k p @ [read_plan lba 1]"
    and step: "\<And>t b w1. at_part k w t \<Longrightarrow>
      sends (part_plan (Suc k) (tr_requested (t_report t))) True w w1 \<Longrightarrow>
      at_part (Suc k) w (update_report f (t\<lparr>t_boundary := b, t_world := w1\<rparr>))"
  shows "triple (at_part k w) (probe_lba (logged_host h) (logged ops) (of_nat lba) operation f)
    (at_part (Suc k) w) (stopped w)"
proof (rule tripleI)
  fix t ok t'
  assume t: "at_part k w t"
    and e: "probe_lba (logged_host h) (logged ops) (of_nat lba) operation f t = (ok, t')"
  let ?p = "tr_requested (t_report t)"
  obtain r b w1 where rb: "read_blocks (logged_host h) (logged ops) (of_nat lba) (of_nat 1) (t_boundary t) (t_world t) = (r, b, w1)"
    by (metis prod_cases3)
  have s: "sends (part_plan (Suc k) ?p) (command_good r) w w1"
    by (rule sends_next [OF _ read_blocks_sends [OF rb]]) (use t assms(3) in \<open>auto simp: at_part_def\<close>)
  let ?t = "t\<lparr>t_boundary := b, t_world := w1\<rparr>"
  show "if ok then at_part (Suc k) w t' else stopped w t'"
  proof (cases "command_good r")
    case True
    with e rb s t step show ?thesis by (auto simp: probe_lba_def Let_def)
  next
    case False
    have refused: "stop_refused operation r ?t = (ok, t')"
      using e rb False by (simp add: probe_lba_def Let_def)
    have "\<not> ok \<and> stopped w t'"
      by (rule stopped_refused [OF _ _ _ _ _ refused, of "Suc k"])
        (use s False t k in \<open>auto simp: at_part_def\<close>)
    then show ?thesis by simp
  qed
qed

lemma probe_boundary_triples:
  "triple (at_part 4 w) (probe_lba (logged_host h) (logged ops) 9 operation
     (\<lambda>r. r\<lparr>tr_boundary_lba_9_read := True\<rparr>)) (at_part 5 w) (stopped w)"
  "triple (at_part 5 w) (probe_lba (logged_host h) (logged ops) 1599 operation
     (\<lambda>r. r\<lparr>tr_boundary_lba_1599_read := True\<rparr>)) (at_part 6 w) (stopped w)"
proof -
  note unfold = at_part_def undecided_def
  have s: "Suc 4 = 5" "Suc 5 = 6" by simp_all
  show "triple (at_part 4 w) (probe_lba (logged_host h) (logged ops) 9 operation
     (\<lambda>r. r\<lparr>tr_boundary_lba_9_read := True\<rparr>)) (at_part 5 w) (stopped w)"
    by (rule probe_lba_triple [of 4 9, unfolded s, simplified of_nat_numeral])
      (simp_all add: part_plan_Suc(6) unfold del: One_nat_def)
  show "triple (at_part 5 w) (probe_lba (logged_host h) (logged ops) 1599 operation
     (\<lambda>r. r\<lparr>tr_boundary_lba_1599_read := True\<rparr>)) (at_part 6 w) (stopped w)"
    by (rule probe_lba_triple [of 5 1599, unfolded s, simplified of_nat_numeral])
      (simp_all add: part_plan_Suc(7) unfold del: One_nat_def)
qed

lemma length_host_malloc: "host_malloc h n w = (Some b, w') \<Longrightarrow> length b = n"
  by (auto simp: host_malloc_def Let_def split: prod.splits)

text \<open>What the two complete reads leave in the run: the report either claims success or only
  records why there is none.\<close>

definition read_failed :: "report_1581 \<Rightarrow> report_1581 \<Rightarrow> bool" where
  "read_failed r r' \<longleftrightarrow> (\<exists>i c st s x. r' = r\<lparr>tr_image := i, tr_code := c, tr_status := st, tr_reason := s, tr_sense := x\<rparr> \<and>
     c \<noteq> PROBE_OK \<and> (st = tr_status r \<or> st = STATUS_INCONCLUSIVE))"

definition read_agreed :: "report_1581 \<Rightarrow> report_1581 \<Rightarrow> bool" where
  "read_agreed r r' \<longleftrightarrow> (\<exists>img s. length img = M65_1581_IMAGE_SIZE \<and>
     r' = r\<lparr>tr_image := Some img, tr_repeated_reads_match := True, tr_image_length := M65_1581_IMAGE_SIZE,
       tr_code := PROBE_OK, tr_status := STATUS_SUPPORTED, tr_reason := s\<rparr>)"

lemma read_failedI:
  assumes "failed (r\<lparr>tr_image := i\<rparr>) r'" shows "read_failed r (r'\<lparr>tr_image := j\<rparr>)"
proof -
  from assms obtain c s x where "c \<noteq> PROBE_OK" "r' = r\<lparr>tr_image := i, tr_code := c, tr_reason := s, tr_sense := x\<rparr>"
    unfolding failed_def by auto
  then show ?thesis unfolding read_failed_def
    by (intro exI [of _ j] exI [of _ c] exI [of _ "tr_status r"] exI [of _ s] exI [of _ x]) simp
qed

text \<open>What is sent meanwhile.\<close>

text \<open>The report after two complete reads that differed, and after two that agreed.\<close>

definition differing :: "report_1581 \<Rightarrow> report_1581" where
  "differing r = r\<lparr>tr_code := PROBE_MISMATCH, tr_status := STATUS_INCONCLUSIVE,
     tr_reason := reason_set ''the two complete 819200-byte reads differed''\<rparr>"

definition agreeing :: "report_1581 \<Rightarrow> report_1581" where
  "agreeing r = r\<lparr>tr_repeated_reads_match := True, tr_image_length := M65_1581_IMAGE_SIZE,
     tr_code := PROBE_OK, tr_status := STATUS_SUPPORTED,
     tr_reason := reason_set ''controller accepted 1581 geometry and two complete reads matched''\<rparr>"

lemma second_read_outcome:
  assumes "read_complete_image h ops 0 b (r\<lparr>tr_image := Some img\<rparr>) w = (ok, b', r2, w')"
    and len: "length img = M65_1581_IMAGE_SIZE"
  shows "ok \<Longrightarrow> read_agreed r (agreeing r2)" "ok \<Longrightarrow> read_failed r (differing r2)" "\<not> ok \<Longrightarrow> read_failed r r2"
proof -
  note R = read_image_report [OF assms(1)]
  show "read_agreed r (agreeing r2)" if ok
    unfolding read_agreed_def using R len that
    by (intro exI [of _ img] exI [of _ "tr_reason (agreeing r2)"]) (simp add: agreeing_def)
  show "read_failed r (differing r2)" if ok
    unfolding read_failed_def
    by (rule exI [of _ "Some img"], rule exI [of _ PROBE_MISMATCH], rule exI [of _ STATUS_INCONCLUSIVE],
      intro exI [of _ "tr_reason (differing r2)"] exI [of _ "tr_sense r"]) (use R that in \<open>simp add: differing_def\<close>)
  show "read_failed r r2" if "\<not> ok"
  proof -
    have "failed (r\<lparr>tr_image := Some img\<rparr>) r2" using R that by simp
    from read_failedI [OF this, of "tr_image r2"] show ?thesis by simp
  qed
qed

lemma read_twice_cases:
  assumes "read_twice h ops t = (ok, t')"
  obtains (no_memory) first second w1 w2 r' where "host_malloc h M65_1581_IMAGE_SIZE (t_world t) = (first, w1)"
      "host_malloc h M65_1581_IMAGE_SIZE w1 = (second, w2)" "\<not> ok"
      "t' = t\<lparr>t_second_image := second, t_world := w2, t_report := r'\<rparr>" "read_failed (t_report t) r'"
  | (first) img second w1 w2 img1 r1 w3 r' where "host_malloc h M65_1581_IMAGE_SIZE (t_world t) = (Some img, w1)"
      "host_malloc h M65_1581_IMAGE_SIZE w1 = (Some second, w2)" "\<not> ok"
      "read_complete_image h ops 0 img ((t_report t)\<lparr>tr_image := Some img\<rparr>) w2 = (False, img1, r1, w3)"
      "t' = t\<lparr>t_second_image := Some second, t_world := w3, t_report := r'\<rparr>" "read_failed (t_report t) r'"
  | (second) img second w1 w2 img1 r1 w3 ok2 img2 r2 w4 r' where "host_malloc h M65_1581_IMAGE_SIZE (t_world t) = (Some img, w1)"
      "host_malloc h M65_1581_IMAGE_SIZE w1 = (Some second, w2)"
      "read_complete_image h ops 0 img ((t_report t)\<lparr>tr_image := Some img\<rparr>) w2 = (True, img1, r1, w3)"
      "read_complete_image h ops 0 second ((t_report t)\<lparr>tr_image := Some img1\<rparr>) w3 = (ok2, img2, r2, w4)"
      "ok \<longrightarrow> ok2" "t' = t\<lparr>t_second_image := Some img2, t_world := w4, t_report := r'\<rparr>"
      "if ok then read_agreed (t_report t) r' else read_failed (t_report t) r'"
proof -
  obtain first w1 where m1: "host_malloc h M65_1581_IMAGE_SIZE (t_world t) = (first, w1)" by force
  obtain second w2 where m2: "host_malloc h M65_1581_IMAGE_SIZE w1 = (second, w2)" by force
  show thesis
  proof (cases "first = None \<or> second = None")
    case True
    let ?r = "(t_report t)\<lparr>tr_image := first, tr_code := PROBE_TRANSPORT,
      tr_reason := reason_set ''unable to allocate two 819200-byte read buffers''\<rparr>"
    from True assms m1 m2 have "\<not> ok" "t' = t\<lparr>t_second_image := second, t_world := w2, t_report := ?r\<rparr>"
      by (auto simp: read_twice_def Let_def update_report_def split: option.splits)
    moreover have "read_failed (t_report t) ?r"
      unfolding read_failed_def
      by (rule exI [of _ first], rule exI [of _ PROBE_TRANSPORT], rule exI [of _ "tr_status (t_report t)"],
        intro exI [of _ "tr_reason ?r"] exI [of _ "tr_sense (t_report t)"]) simp
    ultimately show thesis by (rule no_memory [OF m1 m2])
  next
    case False
    then obtain img snd_img where some: "first = Some img" "second = Some snd_img" by auto
    note m = m1 [unfolded some] m2 [unfolded some]
    obtain ok1 img1 r1 w3 where i1: "read_complete_image h ops 0 img ((t_report t)\<lparr>tr_image := Some img\<rparr>) w2 = (ok1, img1, r1, w3)"
      by (metis prod_cases4)
    obtain ok2 img2 r2 w4 where i2: "read_complete_image h ops 0 snd_img ((t_report t)\<lparr>tr_image := Some img1\<rparr>) w3 = (ok2, img2, r2, w4)"
      by (metis prod_cases4)
    note R = read_image_report [OF i1] read_image_report [OF i2]
    note e = assms [unfolded read_twice_def Let_def m prod.case option.case]
    show thesis
    proof (cases ok1)
      case False
      with e i1 have "\<not> ok" "t' = t\<lparr>t_second_image := Some snd_img, t_world := w3, t_report := r1\<lparr>tr_image := Some img1\<rparr>\<rparr>"
        by (auto simp: update_report_def)
      with R(1) False m i1 show thesis by (intro first) (auto intro: read_failedI)
    next
      case True
      with R(1) have r1: "r1 = (t_report t)\<lparr>tr_image := Some img\<rparr>" by simp
      have i1': "read_complete_image h ops 0 img ((t_report t)\<lparr>tr_image := Some img\<rparr>) w2 = (True, img1, r1, w3)"
        using i1 True by simp
      let ?r = "if \<not> ok2 then r2 else if img1 \<noteq> img2 then differing r2 else agreeing r2"
      have out: "ok = (ok2 \<and> img1 = img2)" "t' = t\<lparr>t_second_image := Some img2, t_world := w4, t_report := ?r\<rparr>"
        using e i1 i2 True r1 by (auto simp: update_report_def differing_def agreeing_def split: if_splits)
      have len: "length img1 = M65_1581_IMAGE_SIZE" using R(1) length_host_malloc [OF m(1)] by simp
      have "if ok then read_agreed (t_report t) ?r else read_failed (t_report t) ?r"
        using second_read_outcome [OF i2 len] out(1) by simp
      from second [OF m i1' i2 _ out(2) this] out(1) show thesis by blast
    qed
  qed
qed

lemma image_plan_0: "map (\<lambda>i. read_plan (10 * i) 10) [0..<160] = image_plan"
  by (simp only: image_plan_def)

lemma image_sends:
  "read_complete_image (logged_host h) (logged ops) 0 img rep w = (ok, img', rep', w') \<Longrightarrow> sends image_plan ok w w'"
  using read_image_sends [of h ops 0 img rep w ok img' rep' w'] by (simp only: image_plan_0 mult_0_right)

lemma read_twice_sends:
  assumes "read_twice (logged_host h) (logged ops) t = (ok, t')"
  shows "sends (image_plan @ image_plan) ok (t_world t) (t_world t')"
  using assms
proof (cases rule: read_twice_cases)
  case (no_memory first second w1 w2)
  then have "sends [] True (t_world t) (t_world t')"
    using trace_malloc [OF no_memory(1)] trace_malloc [OF no_memory(2)] by (simp add: sends_def)
  from sends_stop [OF sends_weaken [OF this, where ok' = False], of "image_plan @ image_plan"] no_memory(3) show ?thesis by simp
next
  case (first img b w1 w2 img1 r1 w3)
  have "trace w2 = trace (t_world t)" using trace_malloc [OF first(1)] trace_malloc [OF first(2)] by simp
  note s = sends_stop [OF sends_from [OF this image_sends [OF first(4)]], of image_plan]
  from first(5) have "t_world t' = w3" by simp
  with s first(3) show ?thesis by simp
next
  case (second img snd_img w1 w2 img1 r1 w3 ok2 img2 r2 w4)
  have "trace w2 = trace (t_world t)" using trace_malloc [OF second(1)] trace_malloc [OF second(2)] by simp
  note s = sends_trans [OF sends_from [OF this image_sends [OF second(3)]] image_sends [OF second(4)]]
  from second(6) have "t_world t' = w4" by simp
  with sends_weaken [OF s, of ok] second(5) show ?thesis by simp
qed

lemma read_twice_triple:
  "triple (at_part 6 w) (read_twice (logged_host h) (logged ops)) (completed w) (stopped w)"
proof (rule tripleI)
  fix t ok t'
  assume t: "at_part 6 w t" and e: "read_twice (logged_host h) (logged ops) t = (ok, t')"
  have "sends (part_plan 6 (tr_requested (t_report t))) True w (t_world t)" using t by (simp add: at_part_def)
  from sends_trans [OF this read_twice_sends [OF e]]
  have s: "sends (part_plan 7 (tr_requested (t_report t))) ok w (t_world t')" by (simp add: part_plan_Suc(8))
  obtain i u r where t': "t' = t\<lparr>t_second_image := i, t_world := u, t_report := r\<rparr>"
      "if ok then read_agreed (t_report t) r else read_failed (t_report t) r"
    using e
  proof (cases rule: read_twice_cases)
    case (no_memory a b w1 w2 r)
    from that [OF no_memory(4)] no_memory(3,5) show thesis by simp
  next
    case (first img b w1 w2 img1 r1 w3 r)
    from that [OF first(5)] first(3,6) show thesis by simp
  next
    case (second img b w1 w2 img1 r1 w3 ok2 img2 r2 w4 r)
    from that [OF second(6)] second(7) show thesis by simp
  qed
  show "if ok then completed w t' else stopped w t'"
  proof (cases ok)
    case True
    with t' s t show ?thesis
      by (auto simp: read_agreed_def at_part_def undecided_def completed_def request_made_report saved_part_saved)
  next
    case False
    with t' s t show ?thesis
      by (auto simp: read_failed_def at_part_def undecided_def stopped_def request_made_report saved_part_saved)
  qed
qed

lemma test_stages_triple:
  "triple (at_part 0 w) (run_stages (test_stages (logged_host h) (logged ops))) (completed w) (stopped w)"
  unfolding test_stages_def probe_boundaries_def append.simps
  by (intro triple_Cons [OF save_original_triple] triple_Cons [OF read_changeable_triple]
      triple_Cons [OF select_requested_triple] triple_Cons [OF verify_accepted_triple]
      triple_Cons [OF probe_boundary_triples(1)] triple_Cons [OF probe_boundary_triples(2)]
      triple_Cons [OF read_twice_triple] triple_Nil)

end
