(* ===== verification/M65_Fake.thy ===== *)
theory M65_Fake
  imports M65_Test1581
begin

text \<open>
  The simulated transport of the test suite (\<open>tests/fake_transport.c\<close>): a controller with a
  current mode page, a mask of changeable bits and the faults the tests inject. It provides the
  transport contract, and it is the concrete device on which the theorems about the probe are
  exercised. Its interrupt injection (\<open>m65_probe_request_interrupt\<close>) is a pending signal.
\<close>

record fake_transport =
  f_acquire_status :: transport_status
  f_release_status :: transport_status
  f_fail_status :: transport_status
  f_fail_opcode :: u8
  f_fail_occurrence :: nat
  f_opcode_counts :: "u8 \<Rightarrow> nat"
  f_acquire_count :: nat
  f_release_count :: nat
  f_read_count :: nat
  f_mode_select_count :: nat
  f_acquired :: bool
  f_desired_mode_rejected :: bool
  f_accept_wrong_geometry :: bool
  f_mismatch_repeated_read :: bool
  f_interrupt_after_desired :: bool
  f_original_page :: bytes
  f_current_page :: bytes
  f_mask_page :: bytes
  f_signal_pending :: bool

section \<open>Access\<close>

definition fake_acquire :: "string \<Rightarrow> fake_transport \<Rightarrow> transport_status \<times> string \<times> fake_transport" where
  "fake_acquire detail fake =
     (let fake = fake\<lparr>f_acquire_count := f_acquire_count fake + 1\<rparr>
      in if f_acquire_status fake \<noteq> TRANSPORT_OK
         then (f_acquire_status fake, error_text ''simulated acquire failure'', fake)
         else (TRANSPORT_OK, detail, fake\<lparr>f_acquired := True\<rparr>))"

definition fake_release :: "string \<Rightarrow> fake_transport \<Rightarrow> transport_status \<times> string \<times> fake_transport" where
  "fake_release detail fake =
     (let fake = fake\<lparr>f_release_count := f_release_count fake + 1\<rparr>
      in if f_release_status fake \<noteq> TRANSPORT_OK
         then (f_release_status fake, error_text ''simulated release failure'', fake)
         else (TRANSPORT_OK, detail, fake\<lparr>f_acquired := False\<rparr>))"

section \<open>Responses\<close>

text \<open>Each returns the new content of the data buffer and the result.\<close>

definition ascii :: "string \<Rightarrow> bytes" where
  "ascii text = map of_char text"

definition fill_mode_response ::
    "bytes \<Rightarrow> nat \<Rightarrow> bytes \<Rightarrow> command_result \<Rightarrow> bytes \<times> command_result" where
  "fill_mode_response data capacity page result =
     (if capacity < 40
      then (data, result\<lparr>r_transport_status := TRANSPORT_PROTOCOL\<rparr>)
      else (buf_write 8 page (m65_write_be16 (zeroed capacity) 0 38), result\<lparr>r_transferred := 40\<rparr>))"

definition fill_inquiry :: "bytes \<Rightarrow> nat \<Rightarrow> command_result \<Rightarrow> bytes \<times> command_result" where
  "fill_inquiry data capacity result =
     (if capacity < 36
      then (data, result\<lparr>r_transport_status := TRANSPORT_PROTOCOL\<rparr>)
      else (buf_write 32 (ascii ''0200'')
             (buf_write 16 (ascii ''USB UF000x      '')
               (buf_write 8 (ascii ''TEAC    '') ((zeroed capacity)[4 := 31]))),
            result\<lparr>r_transferred := 36\<rparr>))"

definition fill_capacity :: "bytes \<Rightarrow> nat \<Rightarrow> command_result \<Rightarrow> bytes \<times> command_result" where
  "fill_capacity data capacity result =
     (if capacity < 8
      then (data, result\<lparr>r_transport_status := TRANSPORT_PROTOCOL\<rparr>)
      else (m65_write_be32 (m65_write_be32 data 0 1439) 4 512, result\<lparr>r_transferred := 8\<rparr>))"

definition fake_format_descriptor :: "bytes \<Rightarrow> nat \<Rightarrow> u32 \<Rightarrow> u8 \<Rightarrow> u32 \<Rightarrow> bytes" where
  "fake_format_descriptor data off blocks code block_size =
     (m65_write_be32 data off blocks)
       [off + 4 := code, off + 5 := ucast (drop_bit 16 block_size),
        off + 6 := ucast (drop_bit 8 block_size), off + 7 := ucast block_size]"

definition fill_format_capacities :: "bytes \<Rightarrow> nat \<Rightarrow> command_result \<Rightarrow> bytes \<times> command_result" where
  "fill_format_capacities data capacity result =
     (if capacity < 20
      then (data, result\<lparr>r_transport_status := TRANSPORT_PROTOCOL\<rparr>)
      else (fake_format_descriptor
             (fake_format_descriptor ((zeroed capacity)[3 := 16]) 4 1440 2 512) 12 1600 0 512,
            result\<lparr>r_transferred := 20\<rparr>))"

text \<open>The pattern a read returns: the low byte of each absolute position.\<close>

definition fill_read ::
    "fake_transport \<Rightarrow> m65_command \<Rightarrow> command_result \<Rightarrow> bytes \<times> command_result \<times> fake_transport" where
  "fill_read fake command result =
     (let lba = (case m65_read_be32 (Some (c_cdb command)) (c_cdb_length command) 2 of
                   None \<Rightarrow> 0 | Some v \<Rightarrow> v);
          fake = fake\<lparr>f_read_count := f_read_count fake + 1\<rparr>;
          data = map (\<lambda>index. of_nat (unat lba * M65_BLOCK_SIZE + index)) [0..<c_data_length command];
          data = (if f_mismatch_repeated_read fake \<and> f_read_count fake \<ge> 53 \<and> c_data_length command > 0
                  then data[0 := data ! 0 XOR 0xff] else data)
      in (data, result\<lparr>r_transferred := c_data_length command\<rparr>, fake))"

section \<open>Commands\<close>

definition fake_mode_select ::
    "fake_transport \<Rightarrow> m65_command \<Rightarrow> command_result \<Rightarrow> command_result \<times> fake_transport" where
  "fake_mode_select fake command result =
     (let fake = fake\<lparr>f_mode_select_count := f_mode_select_count fake + 1\<rparr>;
          page = take 32 (drop 8 (command_data command))
      in if f_desired_mode_rejected fake \<and> page \<noteq> f_original_page fake
         then (result\<lparr>r_scsi_status := 0x02,
                      r_sense := \<lparr>sense_valid = True, sense_response_code = 0x70, sense_key = 0x05,
                                  sense_asc = 0x26, sense_ascq = 0x00\<rparr>\<rparr>, fake)
         else
           let fake = fake\<lparr>f_current_page := page\<rparr>;
               fake = (if f_accept_wrong_geometry fake \<and> f_current_page fake \<noteq> f_original_page fake
                       then fake\<lparr>f_current_page := (f_current_page fake)[4 := 1]\<rparr> else fake);
               fake = (if f_interrupt_after_desired fake \<and> f_current_page fake \<noteq> f_original_page fake
                       then fake\<lparr>f_signal_pending := True\<rparr> else fake)
           in (result\<lparr>r_transferred := c_data_length command\<rparr>, fake))"

definition fake_execute :: "m65_command \<Rightarrow> fake_transport \<Rightarrow> command_result \<times> bytes \<times> fake_transport" where
  "fake_execute command fake =
     (let opcode = c_cdb command ! 0;
          data = command_data command;
          result = zero_result
      in if \<not> f_acquired fake
         then (result\<lparr>r_transport_status := TRANSPORT_PROTOCOL, r_detail := ''not acquired''\<rparr>, data, fake)
         else
           let fake = fake\<lparr>f_opcode_counts := (f_opcode_counts fake)
                             (opcode := f_opcode_counts fake opcode + 1)\<rparr>
           in if f_fail_occurrence fake \<noteq> 0 \<and> opcode = f_fail_opcode fake \<and>
                 f_opcode_counts fake opcode = f_fail_occurrence fake
              then (result\<lparr>r_transport_status := f_fail_status fake,
                           r_detail := ''simulated command failure''\<rparr>, data, fake)
              else if opcode = M65_OPCODE_TEST_UNIT_READY then (result, data, fake)
              else if opcode = M65_OPCODE_INQUIRY then
                let (data, result) = fill_inquiry data (c_data_length command) result
                in (result, data, fake)
              else if opcode = M65_OPCODE_READ_CAPACITY_10 then
                let (data, result) = fill_capacity data (c_data_length command) result
                in (result, data, fake)
              else if opcode = M65_OPCODE_READ_FORMAT_CAPACITIES then
                let (data, result) = fill_format_capacities data (c_data_length command) result
                in (result, data, fake)
              else if opcode = M65_OPCODE_MODE_SENSE_10 then
                let (data, result) = fill_mode_response data (c_data_length command)
                      (if c_cdb command ! 2 AND 0xc0 = 0x40 then f_mask_page fake else f_current_page fake)
                      result
                in (result, data, fake)
              else if opcode = M65_OPCODE_MODE_SELECT_10 then
                let (result, fake) = fake_mode_select fake command result
                in (result, data, fake)
              else if opcode = M65_OPCODE_READ_10 then
                let (data, result, fake) = fill_read fake command result
                in (result, data, fake)
              else (result\<lparr>r_transport_status := TRANSPORT_PROTOCOL\<rparr>, data, fake))"

definition fake_ops :: "fake_transport transport_ops" where
  "fake_ops = \<lparr>acquire_exclusive = fake_acquire, execute = fake_execute, release_exclusive = fake_release\<rparr>"

section \<open>Set-up\<close>

definition fake_offsets :: "nat list" where
  "fake_offsets = [2, 3, 4, 5, 6, 7, 8, 9, 28, 29]"

definition fake_transport_set_all_geometry_changeable :: "bool \<Rightarrow> fake_transport \<Rightarrow> fake_transport" where
  "fake_transport_set_all_geometry_changeable changeable fake =
     (let page = (replicate 32 0)[0 := M65_FLEXIBLE_DISK_PAGE, 1 := 30]
      in fake\<lparr>f_mask_page :=
           (if changeable then fold (\<lambda>offset p. p[offset := 0xff]) fake_offsets page else page)\<rparr>)"

definition fake_initial_page :: bytes where
  "fake_initial_page =
     (let p = (replicate 32 0)[0 := M65_FLEXIBLE_DISK_PAGE, 1 := 30];
          p = m65_write_be16 p 2 500;
          p = p[4 := 2, 5 := 18];
          p = m65_write_be16 p 6 512;
          p = m65_write_be16 p 8 80
      in m65_write_be16 p 28 300)"

definition fake_transport_init :: fake_transport where
  "fake_transport_init =
     fake_transport_set_all_geometry_changeable True
       \<lparr>f_acquire_status = TRANSPORT_OK, f_release_status = TRANSPORT_OK,
        f_fail_status = TRANSPORT_IO, f_fail_opcode = 0, f_fail_occurrence = 0,
        f_opcode_counts = (\<lambda>_. 0), f_acquire_count = 0, f_release_count = 0, f_read_count = 0,
        f_mode_select_count = 0, f_acquired = False, f_desired_mode_rejected = False,
        f_accept_wrong_geometry = False, f_mismatch_repeated_read = False,
        f_interrupt_after_desired = False, f_original_page = fake_initial_page,
        f_current_page = fake_initial_page, f_mask_page = replicate 32 0,
        f_signal_pending = False\<rparr>"

definition fake_transport_is_restored :: "fake_transport \<Rightarrow> bool" where
  "fake_transport_is_restored fake \<longleftrightarrow> f_current_page fake = f_original_page fake"

text \<open>A host that delivers the injected signal and whose allocations succeed.\<close>

definition fake_host :: "fake_transport host" where
  "fake_host = \<lparr>h_signals = (\<lambda>fake. (f_signal_pending fake, fake\<lparr>f_signal_pending := False\<rparr>)),
     h_malloc = (\<lambda>n fake. (Some [], fake)), h_stack_block = []\<rparr>"

section \<open>The contract\<close>

lemma fake_mode_select_acquired:
  "fake_mode_select fake c result = (r, fake') \<Longrightarrow>
     f_acquired fake' = f_acquired fake \<and> f_fail_status fake' = f_fail_status fake"
  by (auto simp: fake_mode_select_def Let_def split: if_splits)

lemma fake_execute_acquired:
  assumes "fake_execute c fake = (r, b, fake')"
  shows "f_acquired fake' = f_acquired fake" and "f_fail_status fake' = f_fail_status fake"
  using assms
  by (auto simp: fake_execute_def Let_def fill_read_def split: if_splits prod.splits
      dest: fake_mode_select_acquired)

lemma fake_execute_exact:
  assumes "fake_execute c fake = (r, b, fake')" and "f_fail_status fake \<noteq> TRANSPORT_OK"
    and "command_good r" and "m65_validate_command c = Inr ()" and "exact_data_required c"
  shows "r_transferred r = c_data_length c"
proof -
  have "c_cdb c ! 0 = M65_OPCODE_READ_10 \<or> c_cdb c ! 0 = M65_OPCODE_MODE_SELECT_10"
    using validate_command_Inr_cases(2) [OF assms(4)] assms(5)
    by (auto simp: exact_data_required_def split: if_splits)
  then show ?thesis using assms
    by (auto simp: fake_execute_def Let_def fill_read_def fake_mode_select_def command_good_def
        split: if_splits prod.splits)
qed

interpretation fake: transport_contract fake_ops f_acquired "\<lambda>fake. f_fail_status fake \<noteq> TRANSPORT_OK"
proof unfold_locales
  show "\<And>d s d' s'. acquire_exclusive fake_ops d s = (TRANSPORT_OK, d', s') \<Longrightarrow> f_acquired s'"
    by (auto simp: fake_ops_def fake_acquire_def Let_def split: if_splits)
qed (auto simp: fake_ops_def fake_acquire_def fake_release_def Let_def fake_execute_acquired
      fake_execute_exact split: if_splits,
    auto simp: fake_execute_def Let_def)

end
