(* ===== verification/M65_FakeRuns.thy ===== *)
theory M65_FakeRuns
  imports M65_Fake
begin

text \<open>
  What the simulated controller of \<open>tests/fake_transport.c\<close> answers to each command of the probe,
  and the whole 1581 test on a controller without faults. These are the runs on which the general
  theorems about the probe are exercised.
\<close>

section \<open>One command\<close>

text \<open>A controller in use, with no fault injected and no signal pending.\<close>

definition quiet :: "fake_transport world \<Rightarrow> bool" where
  "quiet w \<longleftrightarrow> \<not> w_interrupted w \<and> f_acquired (w_state w) \<and> f_fail_occurrence (w_state w) = 0 \<and>
     \<not> f_signal_pending (w_state w) \<and> \<not> f_desired_mode_rejected (w_state w) \<and>
     \<not> f_interrupt_after_desired (w_state w)"

lemma fake_ops_sel [simp]:
  "acquire_exclusive fake_ops = fake_acquire" "release_exclusive fake_ops = fake_release"
  by (simp_all add: fake_ops_def)

lemma no_signal: "\<not> f_signal_pending s \<Longrightarrow> s\<lparr>f_signal_pending := False\<rparr> = s"
  by (cases s) simp

lemma deliver_quiet: "\<not> f_signal_pending (w_state w) \<Longrightarrow> deliver_signals fake_host w = w"
  by (cases w) (simp add: deliver_signals_def fake_host_def no_signal)

lemma clear_quiet:
  "\<not> f_signal_pending (w_state w) \<Longrightarrow> \<not> w_interrupted w \<Longrightarrow> m65_probe_clear_interrupt fake_host w = w"
  by (cases w) (simp add: m65_probe_clear_interrupt_def deliver_quiet)

lemma read_quiet: "quiet w \<Longrightarrow> read_interrupted fake_host w = (False, w)"
  by (simp add: read_interrupted_def deliver_quiet quiet_def)

lemma execute_quiet:
  assumes "quiet w" and "m65_validate_command (simple_command cdb dir d n) = Inr ()"
  shows "execute_simple fake_host fake_ops cdb dir d n w =
    (let (r, new, s) = fake_execute (simple_command cdb dir d n) (w_state w)
     in (r, fill_buffer new (case d of None \<Rightarrow> [] | Some b \<Rightarrow> b), w\<lparr>w_state := s\<rparr>))"
  using assms
  by (simp add: execute_simple_def execute_checked_def read_quiet fake_ops_def command_data_def simple_command_def)

section \<open>MODE SENSE\<close>

lemma decode_flexible_take:
  assumes "32 \<le> length x"
  shows "decode_flexible (take 32 x) 32 out = decode_flexible x 32 out"
  using assms by (simp add: decode_flexible_def be16_or_zero_def m65_read_be16_def available_def)

text \<open>A 40-byte response with one page of the standard length, in any larger buffer.\<close>

lemma parse_one_page:
  assumes f: "flexible_wf f" "fp_page f ! 1 = 30"
    and d: "length d = 256" "take 8 d = [0, 38, 0, 0, 0, 0, 0, 0]" "take 32 (drop 8 d) = fp_page f"
  shows "\<exists>m. m65_parse_mode_parameters (Some d) 40 out = Inr m \<and>
             mp_flexible m = f\<lparr>fp_field_changeable := replicate 20 False\<rparr>"
proof -
  have p: "length (fp_page f) = 32" "fp_page f ! 0 AND 0x3f = 5" "fp_page f ! 0 AND 0x40 = 0"
    using f(1) by (simp_all add: flexible_wf_def)
  have h: "d ! i = [0, 38, 0, 0, 0, 0, 0, 0] ! i" if "i < 8" for i
    using that d(2) [symmetric] by simp
  have n: "d ! (8 + i) = fp_page f ! i" if "i < 32" for i
  proof -
    have "take 32 (drop 8 d) ! i = d ! (8 + i)" using that d(1) by simp
    then show ?thesis using d(3) by simp
  qed
  have be: "be16_or_zero (fp_page f) 32 off = the (be16_at (fp_page f) off)" if "off + 2 \<le> 32" for off
    using be16_or_zero_page [of off 32 "fp_page f"] that p(1) by simp
  have dec: "decode_flexible (drop 8 d) 32 o' = Inr (f\<lparr>fp_field_changeable := replicate 20 False\<rparr>)" for o'
  proof -
    have "decode_flexible (drop 8 d) 32 o' = decode_flexible (fp_page f) 32 o'"
      using decode_flexible_take [of "drop 8 d" o'] d by simp
    also have "\<dots> = Inr (f\<lparr>fp_field_changeable := replicate 20 False\<rparr>)"
      using f p be [of 2] be [of 6] be [of 8] be [of 28]
      by (simp add: decode_flexible_def flexible_wf_def)
    finally show ?thesis .
  qed
  have v: "d ! 0 = 0" "d ! 1 = 38" "d ! 6 = 0" "d ! 7 = 0" "d ! 8 = fp_page f ! 0" "d ! 9 = 30"
    using h [of 0] h [of 1] h [of 6] h [of 7] n [of 0] n [of 1] f(2) by simp_all
  show ?thesis
    using p v dec
    by (simp add: m65_parse_mode_parameters_def m65_read_be16_def available_def Let_def
        mode_page_loop.simps [of _ 40 8] del: One_nat_def)
qed

lemma simple_10:
  assumes "length (fst cdb) = 16" "snd cdb = 10" "i < 10"
  shows "c_cdb (simple_command cdb dir d n) ! i = fst cdb ! i"
  using assms by (simp add: simple_command_def buf_write_def nth_append)

lemma simple_sel [simp]:
  "c_cdb_length (simple_command cdb dir d n) = snd cdb" "c_direction (simple_command cdb dir d n) = dir"
  "c_data (simple_command cdb dir d n) = d" "c_data_length (simple_command cdb dir d n) = n"
  by (simp_all add: simple_command_def)

lemma mode_sense_cdb:
  "fst (m65_cdb_mode_sense_10 ch 256) ! 0 = 0x5a"
  "fst (m65_cdb_mode_sense_10 ch 256) ! 2 AND 0xc0 = 0x40 \<longleftrightarrow> ch"
  "length (fst (m65_cdb_mode_sense_10 ch n)) = 16" "snd (m65_cdb_mode_sense_10 ch n) = 10"
  by (simp_all add: m65_cdb_mode_sense_10_def cdb_clear_def m65_write_be16_def)

lemma mode_sense_valid:
  "m65_validate_command (simple_command (m65_cdb_mode_sense_10 ch 256) DATA_IN (Some (zeroed 256)) 256) = Inr ()"
proof -
  let ?c = "simple_command (m65_cdb_mode_sense_10 ch 256) DATA_IN (Some (zeroed 256)) 256"
  have "c_cdb ?c ! 0 = 0x5a" by (simp add: simple_10 mode_sense_cdb)
  then show ?thesis
    by (simp add: m65_validate_command_def validate_data_def Let_def mode_sense_cdb)
qed

text \<open>The command counter the simulation keeps.\<close>

definition counted :: "u8 \<Rightarrow> fake_transport \<Rightarrow> fake_transport" where
  "counted opcode s = s\<lparr>f_opcode_counts := (f_opcode_counts s)(opcode := f_opcode_counts s opcode + 1)\<rparr>"

lemma mode_sense_quiet:
  assumes q: "quiet w" and f: "flexible_wf f" "fp_page f ! 1 = 30"
    and page: "fp_page f = (if ch then f_mask_page (w_state w) else f_current_page (w_state w))"
  shows "\<exists>m. mode_sense fake_host fake_ops ch p w =
      (zero_result\<lparr>r_transferred := 40\<rparr>, m, w\<lparr>w_state := counted 0x5a (w_state w)\<rparr>) \<and>
    mp_flexible m = f\<lparr>fp_field_changeable := replicate 20 False\<rparr>"
proof -
  let ?c = "simple_command (m65_cdb_mode_sense_10 ch 256) DATA_IN (Some (zeroed 256)) 256"
  let ?d = "buf_write 8 (fp_page f) (m65_write_be16 (zeroed 256) 0 38)"
  have p32: "length (fp_page f) = 32" using f(1) by (simp add: flexible_wf_def)
  have "c_cdb ?c ! 0 = 0x5a" "c_cdb ?c ! 2 = fst (m65_cdb_mode_sense_10 ch 256) ! 2"
    by (simp_all add: simple_10 mode_sense_cdb)
  then have e: "fake_execute ?c (w_state w) =
      (zero_result\<lparr>r_transferred := 40\<rparr>, ?d, counted 0x5a (w_state w))"
    using q page by (simp add: fake_execute_def quiet_def Let_def fill_mode_response_def mode_sense_cdb counted_def)
  have len: "length ?d = 256" using p32 by (simp add: length_buf_write m65_write_be16_def)
  have w38: "m65_write_be16 (zeroed 256) 0 38 = (zeroed 256)[0 := 0, 1 := 38]"
    by (simp add: m65_write_be16_def)
  have "take 8 ((zeroed 256)[0 := 0, 1 := 38]) ! i = [0, 38, 0, 0, 0, 0, 0, 0 :: u8] ! i" if "i < 8" for i
  proof -
    from that have "i = 0 \<or> i = 1 \<or> i = 2 \<or> i = 3 \<or> i = 4 \<or> i = 5 \<or> i = 6 \<or> i = 7" by arith
    then show ?thesis by (elim disjE) (simp_all add: nth_list_update)
  qed
  then have "take 8 (m65_write_be16 (zeroed 256) 0 38) = [0, 38, 0, 0, 0, 0, 0, 0]"
    unfolding w38 by (intro nth_equalityI) simp_all
  then have t8: "take 8 ?d = [0, 38, 0, 0, 0, 0, 0, 0]" by (simp add: buf_write_def m65_write_be16_def)
  have t32: "take 32 (drop 8 ?d) = fp_page f"
    using p32 drop_take_buf_write [of 8 "fp_page f" "m65_write_be16 (zeroed 256) 0 38"]
    by (simp add: m65_write_be16_def)
  obtain m where m: "m65_parse_mode_parameters (Some ?d) 40 p = Inr m"
    "mp_flexible m = f\<lparr>fp_field_changeable := replicate 20 False\<rparr>"
    using parse_one_page [OF f len t8 t32] by blast
  have x: "execute_simple fake_host fake_ops (m65_cdb_mode_sense_10 ch 256) DATA_IN (Some (zeroed 256)) 256 w =
      (zero_result\<lparr>r_transferred := 40\<rparr>, ?d, w\<lparr>w_state := counted 0x5a (w_state w)\<rparr>)"
    unfolding execute_quiet [OF q mode_sense_valid] e using len by (simp add: fill_buffer_full)
  show ?thesis
    using x m by (intro exI [of _ m]) (simp add: mode_sense_def Let_def command_good_def)
qed


section \<open>MODE SELECT\<close>

lemma mode_select_cdb:
  "fst (m65_cdb_mode_select_10 n) ! 0 = 0x55" "length (fst (m65_cdb_mode_select_10 n)) = 16"
  "snd (m65_cdb_mode_select_10 n) = 10"
  by (simp_all add: m65_cdb_mode_select_10_def cdb_clear_def m65_write_be16_def)

lemma simple_select_command:
  "simple_command (m65_cdb_mode_select_10 40) DATA_OUT (Some d) 40 = select_command d 15000"
  by (simp add: simple_command_def select_command_def cdb_mode_select_40 buf_write_def zeroed_def)
    (simp add: numeral_eq_Suc)

lemma select_payload_valid:
  assumes "flexible_wf p" "fp_page p ! 1 = 30"
  shows "\<exists>d. m65_build_mode_select_payload p 40 = Inr d \<and> length d = 40 \<and>
    m65_validate_command (simple_command (m65_cdb_mode_select_10 40) DATA_OUT (Some d) 40) = Inr ()"
proof -
  have len: "length (fp_page p) = 32" using assms(1) by (simp add: flexible_wf_def)
  let ?d = "replicate 8 0 @ 5 # drop 1 (fp_page p)"
  have "m65_build_mode_select_payload p 40 = Inr ?d"
    using payload_eq [OF len] assms by (simp add: flexible_wf_def)
  moreover have "m65_validate_command (select_command ?d 15000) = Inr ()"
    by (rule select_command_valid) (use len assms(2) in \<open>simp_all add: nth_append\<close>)
  ultimately show ?thesis using len
    by (intro exI [of _ ?d]) (simp add: simple_select_command)
qed

lemma mode_select_quiet:
  assumes q: "quiet w" and f: "flexible_wf f" "fp_page f ! 1 = 30"
  shows "mode_select fake_host fake_ops f w =
     (zero_result\<lparr>r_transferred := 40\<rparr>,
      w\<lparr>w_state := (counted 0x55 (w_state w))\<lparr>
           f_mode_select_count := f_mode_select_count (w_state w) + 1,
           f_current_page := (if f_accept_wrong_geometry (w_state w) \<and>
                                 5 # drop 1 (fp_page f) \<noteq> f_original_page (w_state w)
                              then (5 # drop 1 (fp_page f))[4 := 1] else 5 # drop 1 (fp_page f))\<rparr>\<rparr>)"
proof -
  have p: "length (fp_page f) = 32" "fp_page f ! 0 AND 0x3f = 5" "fp_page f ! 0 AND 0x40 = 0"
    using f(1) by (simp_all add: flexible_wf_def)
  define pg where "pg = 5 # drop 1 (fp_page f)"
  define d where "d = replicate 8 0 @ pg"
  have pay: "m65_build_mode_select_payload f 40 = Inr d"
    using payload_eq [OF p(1)] p f(2) by (simp add: d_def pg_def)
  have len: "length d = 40" "length pg = 32" using p(1) by (simp_all add: d_def pg_def)
  let ?c = "simple_command (m65_cdb_mode_select_10 40) DATA_OUT (Some d) 40"
  have "d ! 8 = pg ! 0" "d ! 9 = pg ! 1" by (simp_all add: d_def nth_append)
  then have v: "m65_validate_command ?c = Inr ()"
    unfolding simple_select_command
    by (intro select_command_valid) (use p f(2) in \<open>simp_all add: d_def pg_def\<close>)
  let ?s = "(counted 0x55 (w_state w))\<lparr>
      f_mode_select_count := f_mode_select_count (w_state w) + 1,
      f_current_page := (if f_accept_wrong_geometry (w_state w) \<and> pg \<noteq> f_original_page (w_state w)
                         then pg[4 := 1] else pg)\<rparr>"
  have op: "c_cdb ?c ! 0 = 0x55" by (simp add: simple_10 mode_select_cdb)
  have pg: "take 32 (drop 8 (command_data ?c)) = pg"
    using len by (simp add: command_data_def d_def)
  have e: "fake_execute ?c (w_state w) = (zero_result\<lparr>r_transferred := 40\<rparr>, d, ?s)"
    using q by (simp add: fake_execute_def quiet_def Let_def fake_mode_select_def op pg counted_def)
      (simp add: command_data_def)
  have "mode_select fake_host fake_ops f w = (zero_result\<lparr>r_transferred := 40\<rparr>, w\<lparr>w_state := ?s\<rparr>)"
    using execute_quiet [OF q v] unfolding e by (simp add: mode_select_def pay len)
  then show ?thesis unfolding pg_def .
qed

section \<open>READ (10)\<close>

lemma read_cdb:
  "fst (m65_cdb_read_10 lba n) ! 0 = 0x28" "length (fst (m65_cdb_read_10 lba n)) = 16"
  "snd (m65_cdb_read_10 lba n) = 10"
  by (simp_all add: m65_cdb_read_10_def cdb_clear_def m65_write_be16_def m65_write_be32_def)

lemma read_fields:
  "m65_read_be32 (Some (c_cdb (simple_command (m65_cdb_read_10 lba n) dir d len))) 10 2 = Some lba"
  "m65_read_be16 (Some (c_cdb (simple_command (m65_cdb_read_10 lba n) dir d len))) 10 7 = Some n"
proof -
  let ?cdb = "c_cdb (simple_command (m65_cdb_read_10 lba n) dir d len)"
  have at: "?cdb ! i = fst (m65_cdb_read_10 lba n) ! i" if "i < 10" for i
    by (rule simple_10) (use that in \<open>simp_all add: read_cdb\<close>)
  let ?f = "fst (m65_cdb_read_10 lba n)"
  have "?f ! 2 = ucast (drop_bit 24 lba)" "?f ! 3 = ucast (drop_bit 16 lba AND 0xff)"
    "?f ! 4 = ucast (drop_bit 8 lba AND 0xff)" "?f ! 5 = ucast (lba AND 0xff)"
    "?f ! 7 = ucast (drop_bit 8 n)" "?f ! 8 = ucast (n AND 0xff)"
    by (simp_all add: m65_cdb_read_10_def cdb_clear_def m65_write_be16_def m65_write_be32_def)
  then have v: "?cdb ! 2 = ucast (drop_bit 24 lba)" "?cdb ! 3 = ucast (drop_bit 16 lba AND 0xff)"
    "?cdb ! 4 = ucast (drop_bit 8 lba AND 0xff)" "?cdb ! 5 = ucast (lba AND 0xff)"
    "?cdb ! 7 = ucast (drop_bit 8 n)" "?cdb ! 8 = ucast (n AND 0xff)"
    by (simp_all add: at)
  show "m65_read_be32 (Some ?cdb) 10 2 = Some lba"
    using be32_join_split [of lba] v by (simp add: m65_read_be32_def available_def del: ucast_and_0xff)
  show "m65_read_be16 (Some ?cdb) 10 7 = Some n"
    using be16_join_split [of n] v by (simp add: m65_read_be16_def available_def del: ucast_and_0xff)
qed

text \<open>The bytes of the simulated medium.\<close>

definition medium :: "nat \<Rightarrow> nat \<Rightarrow> bytes" where
  "medium pos n = map (\<lambda>i. of_nat (pos + i)) [0..<n]"

lemma read_blocks_quiet:
  assumes q: "quiet w" and m: "\<not> f_mismatch_repeated_read (w_state w)" and n: "0 < n" "n < 65536"
    and lba: "lba < 4294967296" and b: "length b = n * 512"
  shows "\<exists>cnt. read_blocks fake_host fake_ops (of_nat lba) (of_nat n) b w =
     (zero_result\<lparr>r_transferred := n * 512\<rparr>, medium (lba * 512) (n * 512),
      w\<lparr>w_state := (w_state w)\<lparr>f_opcode_counts := cnt, f_read_count := f_read_count (w_state w) + 1\<rparr>\<rparr>)"
proof -
  let ?n = "of_nat n :: u16" and ?lba = "of_nat lba :: u32"
  have un: "unat ?n = n" using n(2) by (simp add: unat_of_nat take_bit_nat_eq_self_iff)
  have ul: "unat ?lba = lba" using lba by (simp add: unat_of_nat take_bit_nat_eq_self_iff)
  have n0: "?n \<noteq> 0" using un n(1) by (metis unat_0 less_numeral_extra(3))
  let ?c = "simple_command (m65_cdb_read_10 ?lba ?n) DATA_IN (Some b) (n * 512)"
  have op: "c_cdb ?c ! 0 = 0x28" by (simp add: simple_10 read_cdb)
  have v: "m65_validate_command ?c = Inr ()"
    using op read_fields(2) [of ?lba ?n] n0 un n(1)
    by (simp add: m65_validate_command_def validate_data_def Let_def read_cdb)
  obtain cnt where e: "fake_execute ?c (w_state w) =
      (zero_result\<lparr>r_transferred := n * 512\<rparr>, medium (lba * 512) (n * 512),
       (w_state w)\<lparr>f_opcode_counts := cnt, f_read_count := f_read_count (w_state w) + 1\<rparr>)"
    using q op m read_fields(1) [of ?lba ?n] ul
    by (simp add: fake_execute_def quiet_def Let_def fill_read_def read_cdb medium_def layout_consts
        del: of_nat_add of_nat_mult)
  have "length (medium (lba * 512) (n * 512)) = length b" using b by (simp add: medium_def)
  then show ?thesis
    using execute_quiet [OF q v] un unfolding e
    by (intro exI [of _ cnt]) (simp add: read_blocks_def Let_def layout_consts fill_buffer_full)
qed

lemma read_image_quiet:
  assumes "length img = 819200" and "take (5120 * k) img = medium 0 (5120 * k)" and "k \<le> 160"
    and "quiet w" "\<not> f_mismatch_repeated_read (w_state w)"
  shows "\<exists>cnt n. read_complete_image fake_host fake_ops (10 * k) img rep w =
     (True, medium 0 819200, rep,
      w\<lparr>w_state := (w_state w)\<lparr>f_opcode_counts := cnt, f_read_count := n\<rparr>\<rparr>)"
  using assms
proof (induction "160 - k" arbitrary: k img w)
  case 0
  then have "k = 160" by simp
  with 0 have "img = medium 0 819200" by simp
  then show ?case
    using \<open>k = 160\<close>
    by (intro exI [of _ "f_opcode_counts (w_state w)"] exI [of _ "f_read_count (w_state w)"])
      (simp add: read_complete_image.simps layout_consts)
next
  case (Suc j)
  then have k: "k < 160" by simp
  let ?chunk = "take 5120 (drop (5120 * k) img)"
  have len: "length ?chunk = 10 * 512" using k Suc.prems(1) by simp
  obtain cnt where rb: "read_blocks fake_host fake_ops (of_nat (10 * k)) (of_nat 10) ?chunk w =
     (zero_result\<lparr>r_transferred := 10 * 512\<rparr>, medium (10 * k * 512) (10 * 512),
      w\<lparr>w_state := (w_state w)\<lparr>f_opcode_counts := cnt, f_read_count := f_read_count (w_state w) + 1\<rparr>\<rparr>)"
    using read_blocks_quiet [OF Suc.prems(4,5), of 10 "10 * k" ?chunk] k len by auto
  let ?img = "buf_write (5120 * k) (medium (5120 * k) 5120) img"
  let ?w = "w\<lparr>w_state := (w_state w)\<lparr>f_opcode_counts := cnt, f_read_count := f_read_count (w_state w) + 1\<rparr>\<rparr>"
  have l: "length (medium p n) = n" for p n by (simp add: medium_def)
  have img: "length ?img = 819200" using k Suc.prems(1) by (simp add: length_buf_write l)
  have md: "medium 0 (5120 * Suc k) = medium 0 (5120 * k) @ medium (5120 * k) 5120"
    unfolding medium_def by (rule nth_equalityI) (auto simp: nth_append)
  have tk: "take (5120 * Suc k) ?img = medium 0 (5120 * Suc k)"
    unfolding md using Suc.prems(1,2) k by (simp add: buf_write_def l)
  have q: "quiet ?w" "\<not> f_mismatch_repeated_read (w_state ?w)"
    using Suc.prems(4,5) by (simp_all add: quiet_def)
  obtain cnt' n' where ih: "read_complete_image fake_host fake_ops (10 * Suc k) ?img rep ?w =
     (True, medium 0 819200, rep, ?w\<lparr>w_state := (w_state ?w)\<lparr>f_opcode_counts := cnt', f_read_count := n'\<rparr>\<rparr>)"
    using Suc.hyps(1) [OF _ img tk _ q] Suc.hyps(2) k by (metis Suc_leI diff_Suc diff_Suc_1 diff_commute diff_diff_left plus_1_eq_Suc)
  have lt: "10 * k < M65_1581_BLOCKS" using k by (simp add: layout_consts)
  have bl: "(if 10 < M65_1581_BLOCKS - 10 * k then 10 else M65_1581_BLOCKS - 10 * k) = 10"
    using k by (auto simp: layout_consts)
  have ar: "10 * M65_BLOCK_SIZE = 5120" "10 * k * M65_BLOCK_SIZE = 5120 * k" "10 * k + 10 = 10 * Suc k"
    "10 * k * 512 = 5120 * k" "(10 :: nat) * 512 = 5120"
    by (simp_all add: layout_consts)
  have "read_complete_image fake_host fake_ops (10 * k) img rep w =
      read_complete_image fake_host fake_ops (10 * Suc k) ?img rep ?w"
    using rb by (subst read_complete_image.simps)
      (simp add: lt bl ar read_quiet [OF Suc.prems(4)] command_good_def Let_def del: mult_Suc_right)
  with ih show ?case by auto
qed


section \<open>A conforming controller\<close>

text \<open>A controller without faults whose page \<open>f\<close> may be given the 1581 geometry under its mask \<open>g\<close>.\<close>

definition conforming :: "flexible_disk_page \<Rightarrow> flexible_disk_page \<Rightarrow> fake_transport \<Rightarrow> bool" where
  "conforming f g s \<longleftrightarrow>
     flexible_wf f \<and> fp_page f ! 0 = 5 \<and> fp_page f ! 1 = 30 \<and> flexible_wf g \<and> fp_page g ! 1 = 30 \<and>
     m65_geometry_changes_allowed f (m65_set_1581_geometry f) g = Inr () \<and>
     f_acquire_status s = TRANSPORT_OK \<and> f_release_status s = TRANSPORT_OK \<and>
     f_fail_occurrence s = 0 \<and> \<not> f_desired_mode_rejected s \<and> \<not> f_accept_wrong_geometry s \<and>
     \<not> f_mismatch_repeated_read s \<and> \<not> f_interrupt_after_desired s \<and> \<not> f_signal_pending s \<and>
     f_current_page s = fp_page f \<and> f_mask_page s = fp_page g"

lemma set_1581_congs:
  assumes "fp_page a = fp_page b"
  shows "fp_page (m65_set_1581_geometry a) = fp_page (m65_set_1581_geometry b)"
    and "m65_geometry_changes_allowed a c d = m65_geometry_changes_allowed b c d"
    and "m65_geometry_changes_allowed c a d = m65_geometry_changes_allowed c b d"
    and "m65_geometry_changes_allowed c d a = m65_geometry_changes_allowed c d b"
  using assms by (simp_all add: page_write m65_geometry_changes_allowed_def)

lemma good_result [simp]: "command_good (zero_result\<lparr>r_transferred := n\<rparr>)" "command_good zero_result"
  by (simp_all add: command_good_def)

lemma is_1581_field [simp]:
  "m65_geometry_is_1581 (f\<lparr>fp_field_changeable := x\<rparr>) = m65_geometry_is_1581 f"
  by (simp add: m65_geometry_is_1581_def)

lemma page_head: "length (p :: bytes) = 32 \<Longrightarrow> p ! 0 = 5 \<Longrightarrow> 5 # drop 1 p = p"
  by (cases p) auto

lemma run_stages_append:
  "run_stages (xs @ ys) t =
     (case run_stages xs t of (True, t') \<Rightarrow> run_stages ys t' | (False, t') \<Rightarrow> (False, t'))"
  by (induction xs arbitrary: t) (auto split: prod.split bool.split)

definition device :: "bytes \<Rightarrow> bytes \<Rightarrow> fake_transport world \<Rightarrow> bool" where
  "device current msk w \<longleftrightarrow> quiet w \<and> \<not> f_accept_wrong_geometry (w_state w) \<and>
     \<not> f_mismatch_repeated_read (w_state w) \<and> f_release_status (w_state w) = TRANSPORT_OK \<and>
     f_current_page (w_state w) = current \<and> f_mask_page (w_state w) = msk"

lemma device_update [simp]:
  "device c m (w\<lparr>w_state := (w_state w)\<lparr>f_opcode_counts := cnt\<rparr>\<rparr>) = device c m w"
  "device c m (w\<lparr>w_state := (w_state w)\<lparr>f_opcode_counts := cnt, f_read_count := n\<rparr>\<rparr>) = device c m w"
  by (simp_all add: device_def quiet_def)

lemma device_mode_sense:
  assumes "device c m w" and "flexible_wf f" "fp_page f ! 1 = 30" "fp_page f = (if ch then m else c)"
  shows "\<exists>p' w'. mode_sense fake_host fake_ops ch p w = (zero_result\<lparr>r_transferred := 40\<rparr>, p', w') \<and>
    device c m w' \<and> mp_flexible p' = f\<lparr>fp_field_changeable := replicate 20 False\<rparr>"
proof -
  have q: "quiet w" and pg: "fp_page f = (if ch then f_mask_page (w_state w) else f_current_page (w_state w))"
    using assms(1,4) by (simp_all add: device_def)
  from mode_sense_quiet [OF q assms(2,3) pg, of p] assms(1) show ?thesis
    unfolding counted_def by (metis device_update(1))
qed

lemma device_mode_select:
  assumes "device c m w" and "flexible_wf f" "fp_page f ! 1 = 30" "fp_page f ! 0 = 5"
  shows "\<exists>w'. mode_select fake_host fake_ops f w = (zero_result\<lparr>r_transferred := 40\<rparr>, w') \<and>
    device (fp_page f) m w'"
proof -
  have q: "quiet w" using assms(1) by (simp add: device_def)
  have pg: "5 # drop 1 (fp_page f) = fp_page f"
    using page_head assms(2,4) by (simp add: flexible_wf_def)
  show ?thesis
    using mode_select_quiet [OF q assms(2,3)] assms(1) unfolding pg
    by (auto simp: device_def quiet_def counted_def)
qed

lemma device_read_blocks:
  assumes "device c m w" and "0 < n" "n < 65536" "lba < 4294967296" "length b = n * 512"
  shows "\<exists>w'. read_blocks fake_host fake_ops (of_nat lba) (of_nat n) b w =
    (zero_result\<lparr>r_transferred := n * 512\<rparr>, medium (lba * 512) (n * 512), w') \<and> device c m w'"
proof -
  have q: "quiet w" "\<not> f_mismatch_repeated_read (w_state w)" using assms(1) by (simp_all add: device_def)
  from read_blocks_quiet [OF q assms(2-5)] device_update(2) [where c = c and m = m and w = w] assms(1) show ?thesis by blast
qed

lemma device_read_image:
  assumes "device c m w" and "length img = 819200"
  shows "\<exists>w'. read_complete_image fake_host fake_ops 0 img rep w = (True, medium 0 819200, rep, w') \<and> device c m w'"
proof -
  have "take (5120 * 0) img = medium 0 (5120 * 0)" by (simp add: medium_def)
  moreover have q: "quiet w" "\<not> f_mismatch_repeated_read (w_state w)"
    using assms(1) by (simp_all add: device_def)
  ultimately have "\<exists>cnt n. read_complete_image fake_host fake_ops (10 * 0) img rep w =
     (True, medium 0 819200, rep, w\<lparr>w_state := (w_state w)\<lparr>f_opcode_counts := cnt, f_read_count := n\<rparr>\<rparr>)"
    using assms(2) by (intro read_image_quiet) simp_all
  with device_update(2) [where c = c and m = m and w = w] assms(1) show ?thesis by auto
qed

lemma device_malloc: "host_malloc fake_host n w = (Some (zeroed n), w)"
  by (cases w) (simp add: host_malloc_def fake_host_def)

lemma conforming_start:
  assumes "conforming f g (w_state w)"
  shows "\<exists>s. acquire_exclusive fake_ops [] (w_state (m65_probe_clear_interrupt fake_host w)) = (TRANSPORT_OK, [], s) \<and>
    device (fp_page f) (fp_page g) ((m65_probe_clear_interrupt fake_host w)\<lparr>w_state := s\<rparr>)"
proof -
  have "m65_probe_clear_interrupt fake_host w = w\<lparr>w_interrupted := False\<rparr>"
    using assms by (simp add: m65_probe_clear_interrupt_def deliver_quiet conforming_def)
  with assms show ?thesis
    by (simp add: fake_ops_def fake_acquire_def conforming_def device_def quiet_def)
qed

text \<open>The pages as decoded, without their changeability, and the request the test makes from them.\<close>

abbreviation bare :: "flexible_disk_page \<Rightarrow> flexible_disk_page" where
  "bare p \<equiv> p\<lparr>fp_field_changeable := replicate 20 False\<rparr>"

definition request_for :: "flexible_disk_page \<Rightarrow> flexible_disk_page \<Rightarrow> flexible_disk_page" where
  "request_for f g = m65_set_1581_geometry (m65_apply_changeability (bare f) (bare g))"

lemma conforming_request:
  assumes "conforming f g s0"
  shows "fp_page (request_for f g) = fp_page (m65_set_1581_geometry f)" "flexible_wf (request_for f g)"
    "fp_page (request_for f g) ! 0 = 5" "fp_page (request_for f g) ! 1 = 30"
    "m65_geometry_changes_allowed (m65_apply_changeability (bare f) (bare g)) (request_for f g) (bare g) = Inr ()"
proof -
  let ?o = "m65_apply_changeability (bare f) (bare g)"
  have c: "flexible_wf f" "fp_page f ! 0 = 5" "fp_page f ! 1 = 30" using assms by (simp_all add: conforming_def)
  have o: "fp_page ?o = fp_page f" "flexible_wf ?o"
    using c by (simp_all add: m65_apply_changeability_def flexible_wf_def flexible_field_order_def)
  show q: "fp_page (request_for f g) = fp_page (m65_set_1581_geometry f)" "flexible_wf (request_for f g)"
    using set_1581_congs(1) [OF o(1)] set_1581_wf [OF o(2)] by (simp_all add: request_for_def)
  have len: "length (fp_page f) = 32" using c(1) by (simp add: flexible_wf_def)
  show "fp_page (request_for f g) ! 0 = 5" "fp_page (request_for f g) ! 1 = 30"
    using c len unfolding q by (simp_all add: set_1581_page_eq)
  show "m65_geometry_changes_allowed ?o (request_for f g) (bare g) = Inr ()"
    using assms set_1581_congs(2) [OF o(1)] set_1581_congs(3) [OF q(1)] set_1581_congs(4) [of "bare g" g]
    by (simp add: conforming_def request_for_def)
qed

text \<open>The run up to the two complete reads.\<close>

lemma conforming_probed:
  assumes c: "conforming f g s0" and d: "device (fp_page f) (fp_page g) (t_world t)"
    and b: "length (t_boundary t) = 512"
  obtains t' where "run_stages ([save_original fake_host fake_ops, read_changeable fake_host fake_ops,
      select_requested fake_host fake_ops, verify_accepted fake_host fake_ops] @
      probe_boundaries fake_host fake_ops) t = (True, t')"
    "device (fp_page (request_for f g)) (fp_page g) (t_world t')" "t_restore_needed t'"
    "tr_original_saved (t_report t')" "mp_flexible (t_original_mode t') = bare f"
proof -
  let ?q = "request_for f g"
  have c': "flexible_wf f" "fp_page f ! 1 = 30" "flexible_wf g" "fp_page g ! 1 = 30"
    using c by (simp_all add: conforming_def)
  note q = conforming_request [OF c]
  obtain m1 w1 where s1: "mode_sense fake_host fake_ops False (t_original_mode t) (t_world t) =
      (zero_result\<lparr>r_transferred := 40\<rparr>, m1, w1)" "device (fp_page f) (fp_page g) w1" "mp_flexible m1 = bare f"
    using device_mode_sense [OF d c'(1,2), of False "t_original_mode t"] by auto
  obtain m2 w2 where s2: "mode_sense fake_host fake_ops True (t_changeable_mode t) w1 =
      (zero_result\<lparr>r_transferred := 40\<rparr>, m2, w2)" "device (fp_page f) (fp_page g) w2" "mp_flexible m2 = bare g"
    using device_mode_sense [OF s1(2) c'(3,4), of True "t_changeable_mode t"] by auto
  obtain w3 where s3: "mode_select fake_host fake_ops ?q w2 = (zero_result\<lparr>r_transferred := 40\<rparr>, w3)"
    "device (fp_page ?q) (fp_page g) w3"
    using device_mode_select [OF s2(2) q(2,4,3)] by auto
  obtain m4 w4 where s4: "mode_sense fake_host fake_ops False (t_readback_mode t) w3 =
      (zero_result\<lparr>r_transferred := 40\<rparr>, m4, w4)" "device (fp_page ?q) (fp_page g) w4" "mp_flexible m4 = bare ?q"
    using device_mode_sense [OF s3(2) q(2,4), of False "t_readback_mode t"] by auto
  obtain w5 where s5: "read_blocks fake_host fake_ops 9 1 (t_boundary t) w4 =
      (zero_result\<lparr>r_transferred := 512\<rparr>, medium 4608 512, w5)" "device (fp_page ?q) (fp_page g) w5"
    using device_read_blocks [OF s4(2), of 1 9 "t_boundary t"] b by auto
  obtain w6 where s6: "read_blocks fake_host fake_ops 1599 1 (medium 4608 512) w5 =
      (zero_result\<lparr>r_transferred := 512\<rparr>, medium 818688 512, w6)" "device (fp_page ?q) (fp_page g) w6"
    using device_read_blocks [OF s5(2), of 1 1599 "medium 4608 512"] by (auto simp: medium_def)
  have "m65_geometry_is_1581 ?q" by (simp add: request_for_def)
  with that show thesis
    using s1 s2 s3 s4 s5 s6 q(5) unfolding request_for_def
    by (simp add: probe_boundaries_def save_original_def read_changeable_def select_requested_def
        verify_accepted_def probe_lba_def update_report_def Let_def)
qed

lemma conforming_stages:
  assumes c: "conforming f g s0" and d: "device (fp_page f) (fp_page g) (t_world t)"
    and b: "length (t_boundary t) = 512"
  shows "\<exists>t'. run_stages (test_stages fake_host fake_ops) t = (True, t') \<and>
     device (fp_page (m65_set_1581_geometry f)) (fp_page g) (t_world t') \<and> t_restore_needed t' \<and>
     tr_original_saved (t_report t') \<and>
     mp_flexible (t_original_mode t') = bare f \<and>
     tr_code (t_report t') = PROBE_OK \<and> tr_status (t_report t') = STATUS_SUPPORTED \<and>
     tr_image (t_report t') = Some (medium 0 819200) \<and>
     tr_image_length (t_report t') = M65_1581_IMAGE_SIZE"
proof -
  let ?q = "request_for f g"
  obtain t6 where t6: "run_stages ([save_original fake_host fake_ops, read_changeable fake_host fake_ops,
      select_requested fake_host fake_ops, verify_accepted fake_host fake_ops] @
      probe_boundaries fake_host fake_ops) t = (True, t6)"
    "device (fp_page ?q) (fp_page g) (t_world t6)" "t_restore_needed t6"
    "tr_original_saved (t_report t6)" "mp_flexible (t_original_mode t6) = bare f"
    by (rule conforming_probed [OF assms])
  have l: "length (zeroed M65_1581_IMAGE_SIZE) = 819200" by (simp add: layout_consts)
  let ?r = "(t_report t6)\<lparr>tr_image := Some (zeroed M65_1581_IMAGE_SIZE)\<rparr>"
  obtain w7 where s7: "read_complete_image fake_host fake_ops 0 (zeroed M65_1581_IMAGE_SIZE) ?r (t_world t6) =
      (True, medium 0 819200, ?r, w7)" "device (fp_page ?q) (fp_page g) w7"
    using device_read_image [OF t6(2) l, of ?r] by auto
  let ?r' = "?r\<lparr>tr_image := Some (medium 0 819200)\<rparr>"
  obtain w8 where s8: "read_complete_image fake_host fake_ops 0 (zeroed M65_1581_IMAGE_SIZE) ?r' w7 =
      (True, medium 0 819200, ?r', w8)" "device (fp_page ?q) (fp_page g) w8"
    using device_read_image [OF s7(2) l, of ?r'] by auto
  obtain t7 where t7: "read_twice fake_host fake_ops t6 = (True, t7)" "t_world t7 = w8"
    "t_restore_needed t7" "tr_original_saved (t_report t7)" "mp_flexible (t_original_mode t7) = bare f"
    "tr_code (t_report t7) = PROBE_OK" "tr_status (t_report t7) = STATUS_SUPPORTED"
    "tr_image (t_report t7) = Some (medium 0 819200)" "tr_image_length (t_report t7) = M65_1581_IMAGE_SIZE"
    using s7(1) s8(1) t6 by (simp add: read_twice_def device_malloc update_report_def Let_def)
  have "run_stages (test_stages fake_host fake_ops) t = (True, t7)"
    using t6(1) t7(1) unfolding test_stages_def append_assoc [symmetric] run_stages_append by simp
  with t7 s8(2) conforming_request(1) [OF c] show ?thesis by auto
qed

text \<open>The whole test on a conforming controller.\<close>

lemma conforming_test:
  assumes c: "conforming f g (w_state w)"
  shows "\<exists>r w'. m65_test_1581 fake_host (Some fake_ops) True (Some r0) w = (PROBE_OK, Some r, w') \<and>
     tr_status r = STATUS_SUPPORTED \<and> tr_image r = Some (medium 0 819200) \<and> tr_controller_restored r \<and>
     f_current_page (w_state w') = f_current_page (w_state w) \<and> \<not> f_acquired (w_state w')"
proof -
  let ?w = "m65_probe_clear_interrupt fake_host w"
  obtain s where a: "acquire_exclusive fake_ops [] (w_state ?w) = (TRANSPORT_OK, [], s)"
    "device (fp_page f) (fp_page g) (?w\<lparr>w_state := s\<rparr>)"
    using conforming_start [OF c] by auto
  let ?r = "(initial_report True)\<lparr>tr_reason := error_text [], tr_exclusive_acquired := True\<rparr>"
  let ?t = "start_run fake_host ?r (?w\<lparr>w_state := s\<rparr>)"
  have sr: "t_world ?t = ?w\<lparr>w_state := s\<rparr>" "length (t_boundary ?t) = 512"
    by (simp_all add: start_run_def layout_consts)
  obtain t where t: "run_stages (test_stages fake_host fake_ops) ?t = (True, t)"
     "device (fp_page (m65_set_1581_geometry f)) (fp_page g) (t_world t)" "t_restore_needed t"
     "tr_original_saved (t_report t)"
     "mp_flexible (t_original_mode t) = f\<lparr>fp_field_changeable := replicate 20 False\<rparr>"
     "tr_code (t_report t) = PROBE_OK" "tr_status (t_report t) = STATUS_SUPPORTED"
     "tr_image (t_report t) = Some (medium 0 819200)" "tr_image_length (t_report t) = M65_1581_IMAGE_SIZE"
    using conforming_stages [OF c, of ?t] a(2) sr by auto
  let ?f = "f\<lparr>fp_field_changeable := replicate 20 False\<rparr>"
  have f: "flexible_wf ?f" "fp_page ?f ! 1 = 30" "fp_page ?f ! 0 = 5"
    using c by (simp_all add: conforming_def flexible_wf_def)
  have clear: "m65_probe_clear_interrupt fake_host (t_world t) = t_world t"
    using t(2) by (intro clear_quiet) (simp_all add: device_def quiet_def)
  obtain w9 where s9: "mode_select fake_host fake_ops ?f (t_world t) = (zero_result\<lparr>r_transferred := 40\<rparr>, w9)"
    "device (fp_page ?f) (fp_page g) w9"
    using device_mode_select [OF t(2) f] by auto
  let ?c = "test_cleanup fake_host fake_ops t"
  have ro: "restore_original fake_host fake_ops t =
      update_report (\<lambda>r. r\<lparr>tr_controller_restored := True\<rparr>) (t\<lparr>t_world := w9\<rparr>)"
    using t(3-5) clear s9 by (simp add: restore_original_def)
  have fin: "tr_code (t_report ?c) = PROBE_OK" "tr_status (t_report ?c) = STATUS_SUPPORTED"
      "tr_image (t_report ?c) = Some (medium 0 819200)" "tr_controller_restored (t_report ?c)"
      "f_current_page (w_state (t_world ?c)) = fp_page f" "\<not> f_acquired (w_state (t_world ?c))"
    using t(6-8) s9(2)
    by (simp_all add: test_cleanup_def ro release_transport_def update_report_def Let_def
        discard_image_def fake_ops_sel fake_release_def device_def)
  have "m65_test_1581 fake_host (Some fake_ops) True (Some r0) w = (PROBE_OK, Some (t_report ?c), t_world ?c)"
    using a(1) t(1) fin(1)
    by (simp add: m65_test_1581_def test_1581_body_def Let_def initial_report_def zero_report_1581_def)
  with fin c show ?thesis by (auto simp: conforming_def)
qed

end
