(* ===== verification/M65_Erase.thy ===== *)
theory M65_Erase
  imports M65_ProbeTrace
begin

text \<open>
  Recording the calls of a probe changes nothing it does: every operation of \<open>src/probe.c\<close> over a
  recording host and transport is the operation over the host and transport themselves, with the
  record beside it. What is proved of recorded runs therefore speaks of all runs.
\<close>

section \<open>Recording changes nothing\<close>

text \<open>The world of a recorded run with the record removed.\<close>

definition erase :: "('s \<times> event list) world \<Rightarrow> 's world" where
  "erase w = \<lparr>w_interrupted = w_interrupted w, w_state = fst (w_state w)\<rparr>"

lemma erase_sel [simp]: "w_interrupted (erase w) = w_interrupted w" "w_state (erase w) = fst (w_state w)"
  by (simp_all add: erase_def)

lemma erase_update [simp]:
  "erase (w\<lparr>w_interrupted := b\<rparr>) = (erase w)\<lparr>w_interrupted := b\<rparr>"
  "erase (w\<lparr>w_state := (s, log)\<rparr>) = (erase w)\<lparr>w_state := s\<rparr>"
  by (simp_all add: erase_def)

named_theorems erased \<open>operations commute with removing the record\<close>

lemma erase_deliver [erased]: "deliver_signals h (erase w) = erase (deliver_signals (logged_host h) w)"
  by (cases "w_state w") (simp add: deliver_signals_def logged_host_def Let_def
      m65_probe_request_interrupt_def split: prod.split)

lemma erase_clear [erased]:
  "m65_probe_clear_interrupt h (erase w) = erase (m65_probe_clear_interrupt (logged_host h) w)"
  by (simp add: m65_probe_clear_interrupt_def erased)

lemma erase_read [erased]:
  "read_interrupted h (erase w) = apsnd erase (read_interrupted (logged_host h) w)"
  by (simp add: read_interrupted_def Let_def erased)

lemma erase_malloc [erased]: "host_malloc h n (erase w) = apsnd erase (host_malloc (logged_host h) n w)"
  by (cases "w_state w") (simp add: host_malloc_def logged_host_def Let_def split: prod.split)

lemma erase_execute_checked [erased]:
  "execute_checked h ops c (erase w) = apsnd (apsnd erase) (execute_checked (logged_host h) (logged ops) c w)"
  by (simp add: execute_checked_def Let_def erased logged_execute split: sum.split prod.split)

lemma erase_execute_simple [erased]:
  "execute_simple h ops cdb dir d n (erase w) =
     apsnd (apsnd erase) (execute_simple (logged_host h) (logged ops) cdb dir d n w)"
  by (simp add: execute_simple_def erased)

lemma erase_mode_sense [erased]:
  "mode_sense h ops ch p (erase w) = apsnd (apsnd erase) (mode_sense (logged_host h) (logged ops) ch p w)"
  by (simp add: mode_sense_def erased Let_def split: prod.split sum.split)

lemma erase_mode_select [erased]:
  "mode_select h ops p (erase w) = apsnd erase (mode_select (logged_host h) (logged ops) p w)"
  by (simp add: mode_select_def erased Let_def split: prod.split sum.split)

lemma erase_read_blocks [erased]:
  "read_blocks h ops lba n b (erase w) = apsnd (apsnd erase) (read_blocks (logged_host h) (logged ops) lba n b w)"
  by (simp add: read_blocks_def erased Let_def split: prod.split)

lemma erase_read_image [erased]:
  "read_complete_image h ops lba img rep (erase w) =
     apsnd (apsnd (apsnd erase)) (read_complete_image (logged_host h) (logged ops) lba img rep w)"
proof (induction "M65_1581_BLOCKS - lba" arbitrary: lba img rep w rule: less_induct)
  case less
  show ?case
  proof (cases "lba < M65_1581_BLOCKS")
    case False
    then show ?thesis by (simp add: read_complete_image.simps)
  next
    case True
    define n where "n = (if M65_1581_BLOCKS - lba > M65_READ_CHUNK_BLOCKS
      then M65_READ_CHUNK_BLOCKS else M65_1581_BLOCKS - lba)"
    have IH: "read_complete_image h ops (lba + n) img rep (erase w) =
        apsnd (apsnd (apsnd erase)) (read_complete_image (logged_host h) (logged ops) (lba + n) img rep w)"
      for img rep w
      by (rule less) (use True in \<open>auto simp: n_def\<close>)
    obtain stop w1 where i: "read_interrupted (logged_host h) w = (stop, w1)" by force
    obtain r b w2 where rb: "read_blocks (logged_host h) (logged ops) (of_nat lba) (of_nat n)
        (take (n * M65_BLOCK_SIZE) (drop (lba * M65_BLOCK_SIZE) img)) w1 = (r, b, w2)"
      by (metis prod_cases3)
    show ?thesis
      unfolding read_complete_image.simps [of h ops lba] read_complete_image.simps [of "logged_host h" "logged ops" lba]
      using True IH by (simp add: Let_def n_def [symmetric] erased i rb)
  qed
qed

definition erase_run :: "('s \<times> event list) test_run \<Rightarrow> 's test_run" where
  "erase_run t =
     \<lparr>t_report = t_report t, t_original_mode = t_original_mode t, t_changeable_mode = t_changeable_mode t,
      t_readback_mode = t_readback_mode t, t_boundary = t_boundary t,
      t_second_image = t_second_image t, t_restore_needed = t_restore_needed t,
      t_world = erase (t_world t)\<rparr>"

lemma erase_run_sel [simp]:
  "t_report (erase_run t) = t_report t" "t_original_mode (erase_run t) = t_original_mode t"
  "t_changeable_mode (erase_run t) = t_changeable_mode t" "t_readback_mode (erase_run t) = t_readback_mode t"
  "t_boundary (erase_run t) = t_boundary t" "t_second_image (erase_run t) = t_second_image t"
  "t_restore_needed (erase_run t) = t_restore_needed t" "t_world (erase_run t) = erase (t_world t)"
  by (simp_all add: erase_run_def)

lemma erase_run_update [simp]:
  "erase_run (t\<lparr>t_report := r\<rparr>) = (erase_run t)\<lparr>t_report := r\<rparr>"
  "erase_run (t\<lparr>t_original_mode := m\<rparr>) = (erase_run t)\<lparr>t_original_mode := m\<rparr>"
  "erase_run (t\<lparr>t_changeable_mode := m\<rparr>) = (erase_run t)\<lparr>t_changeable_mode := m\<rparr>"
  "erase_run (t\<lparr>t_readback_mode := m\<rparr>) = (erase_run t)\<lparr>t_readback_mode := m\<rparr>"
  "erase_run (t\<lparr>t_boundary := b\<rparr>) = (erase_run t)\<lparr>t_boundary := b\<rparr>"
  "erase_run (t\<lparr>t_second_image := i\<rparr>) = (erase_run t)\<lparr>t_second_image := i\<rparr>"
  "erase_run (t\<lparr>t_restore_needed := x\<rparr>) = (erase_run t)\<lparr>t_restore_needed := x\<rparr>"
  "erase_run (t\<lparr>t_world := w\<rparr>) = (erase_run t)\<lparr>t_world := erase w\<rparr>"
  by (simp_all add: erase_run_def)

text \<open>A stage and the same stage over a recording transport.\<close>

definition erases :: "('t \<Rightarrow> 'u) \<Rightarrow> ('t \<Rightarrow> bool \<times> 't) \<Rightarrow> ('u \<Rightarrow> bool \<times> 'u) \<Rightarrow> bool" where
  "erases E f g \<longleftrightarrow> (\<forall>t. g (E t) = apsnd E (f t))"

lemma erases_run_stages:
  "list_all2 (erases E) fs gs \<Longrightarrow> run_stages gs (E t) = apsnd E (run_stages fs t)"
proof (induction fs gs arbitrary: t rule: list_all2_induct)
  case (Cons f fs g gs)
  then show ?case by (cases "f t") (auto simp: erases_def split: bool.split)
qed simp

lemma erase_save_original:
  "erases erase_run (save_original (logged_host h) (logged ops)) (save_original h (ops :: 's transport_ops))"
  unfolding erases_def
proof
  fix t :: "('s \<times> event list) test_run"
  obtain r m w where "mode_sense (logged_host h) (logged ops) False (t_original_mode t) (t_world t) = (r, m, w)"
    by (metis prod_cases3)
  then show "save_original h ops (erase_run t) = apsnd erase_run (save_original (logged_host h) (logged ops) t)"
    by (simp add: save_original_def erased Let_def stop_failed_def update_report_def)
qed

lemma erase_read_changeable:
  "erases erase_run (read_changeable (logged_host h) (logged ops)) (read_changeable h (ops :: 's transport_ops))"
  unfolding erases_def
proof
  fix t :: "('s \<times> event list) test_run"
  obtain r m w where "mode_sense (logged_host h) (logged ops) True (t_changeable_mode t) (t_world t) = (r, m, w)"
    by (metis prod_cases3)
  then show "read_changeable h ops (erase_run t) = apsnd erase_run (read_changeable (logged_host h) (logged ops) t)"
    by (simp add: read_changeable_def erased Let_def stop_failed_def update_report_def split: sum.split)
qed

lemma erase_select_requested:
  "erases erase_run (select_requested (logged_host h) (logged ops)) (select_requested h (ops :: 's transport_ops))"
  unfolding erases_def
proof
  fix t :: "('s \<times> event list) test_run"
  obtain r w where "mode_select (logged_host h) (logged ops) (tr_requested (t_report t)) (t_world t) = (r, w)"
    by force
  then show "select_requested h ops (erase_run t) = apsnd erase_run (select_requested (logged_host h) (logged ops) t)"
    by (simp add: select_requested_def erased Let_def stop_refused_def update_report_def)
qed

lemma erase_verify_accepted:
  "erases erase_run (verify_accepted (logged_host h) (logged ops)) (verify_accepted h (ops :: 's transport_ops))"
  unfolding erases_def
proof
  fix t :: "('s \<times> event list) test_run"
  obtain r m w where "mode_sense (logged_host h) (logged ops) False (t_readback_mode t) (t_world t) = (r, m, w)"
    by (metis prod_cases3)
  then show "verify_accepted h ops (erase_run t) = apsnd erase_run (verify_accepted (logged_host h) (logged ops) t)"
    by (simp add: verify_accepted_def erased Let_def stop_failed_def update_report_def)
qed

lemma erase_probe_lba:
  "erases erase_run (probe_lba (logged_host h) (logged ops) lba operation f)
     (probe_lba h (ops :: 's transport_ops) lba operation f)"
  unfolding erases_def
proof
  fix t :: "('s \<times> event list) test_run"
  obtain r b w where "read_blocks (logged_host h) (logged ops) lba 1 (t_boundary t) (t_world t) = (r, b, w)"
    by (metis prod_cases3)
  then show "probe_lba h ops lba operation f (erase_run t) =
      apsnd erase_run (probe_lba (logged_host h) (logged ops) lba operation f t)"
    by (simp add: probe_lba_def erased Let_def stop_refused_def update_report_def)
qed

lemma erase_read_twice:
  "erases erase_run (read_twice (logged_host h) (logged ops)) (read_twice h (ops :: 's transport_ops))"
  unfolding erases_def
proof
  fix t :: "('s \<times> event list) test_run"
  obtain first w1 where m1: "host_malloc (logged_host h) M65_1581_IMAGE_SIZE (t_world t) = (first, w1)" by force
  obtain second w2 where m2: "host_malloc (logged_host h) M65_1581_IMAGE_SIZE w1 = (second, w2)" by force
  obtain ok1 img1 r1 w3 where i1: "read_complete_image (logged_host h) (logged ops) 0 (the first)
      ((t_report t)\<lparr>tr_image := first\<rparr>) w2 = (ok1, img1, r1, w3)" by (metis prod_cases4)
  obtain ok2 img2 r2 w4 where i2: "read_complete_image (logged_host h) (logged ops) 0 (the second)
      (r1\<lparr>tr_image := Some img1\<rparr>) w3 = (ok2, img2, r2, w4)" by (metis prod_cases4)
  show "read_twice h ops (erase_run t) = apsnd erase_run (read_twice (logged_host h) (logged ops) t)"
    using m1 m2 i1 i2
    by (cases first; cases second; simp add: read_twice_def erased Let_def update_report_def)
qed

lemma erase_test_stages:
  "run_stages (test_stages h ops) (erase_run t) =
     apsnd erase_run (run_stages (test_stages (logged_host h) (logged ops)) t)"
  by (rule erases_run_stages)
    (simp add: test_stages_def probe_boundaries_def erase_save_original erase_read_changeable
      erase_select_requested erase_verify_accepted erase_probe_lba erase_read_twice)

lemma erase_restore: "restore_original h ops (erase_run t) =
    erase_run (restore_original (logged_host h) (logged ops) t)"
proof -
  obtain r w where "mode_select (logged_host h) (logged ops) (mp_flexible (t_original_mode t))
      (m65_probe_clear_interrupt (logged_host h) (t_world t)) = (r, w)" by force
  then show ?thesis by (simp add: restore_original_def erased Let_def update_report_def)
qed

lemma erase_release: "release_transport ops (erase_run t) = erase_run (release_transport (logged ops) t)"
proof -
  obtain st d s where "release_exclusive ops [] (fst (w_state (t_world t))) = (st, d, s)"
    by (metis prod_cases3)
  then show ?thesis
    by (simp add: release_transport_def logged_release Let_def update_report_def)
qed

lemma erase_cleanup: "test_cleanup h ops (erase_run t) = erase_run (test_cleanup (logged_host h) (logged ops) t)"
  by (simp add: test_cleanup_def erase_restore erase_release discard_image_def update_report_def)

lemma erase_start: "start_run h r (erase w) = erase_run (start_run (logged_host h) r w)"
  by (simp add: start_run_def erase_run_def logged_host_def)

text \<open>The test over a recording transport is the test over the transport.\<close>

lemma erase_test_1581:
  "m65_test_1581 h T ack r0 (erase w) =
     apsnd (apsnd erase) (m65_test_1581 (logged_host h) (map_option logged T) ack r0 w)"
proof -
  have body: "test_1581_body h T ack (erase w) =
      apsnd erase (test_1581_body (logged_host h) (map_option logged T) ack w)"
  proof (cases "ack \<and> T \<noteq> None")
    case False
    then show ?thesis by (auto simp: test_1581_body_def Let_def erased)
  next
    case True
    then obtain ops where T: "T = Some ops" by auto
    let ?w = "m65_probe_clear_interrupt (logged_host h) w"
    obtain st d s where a: "acquire_exclusive ops (tr_reason (initial_report ack)) (fst (w_state ?w)) = (st, d, s)"
      by (metis prod_cases3)
    let ?w1 = "?w\<lparr>w_state := (s, snd (w_state ?w) @ [Acquired st])\<rparr>"
    let ?r = "(initial_report ack)\<lparr>tr_reason := error_text d, tr_exclusive_acquired := True\<rparr>"
    obtain ok t where rs: "run_stages (test_stages (logged_host h) (logged ops))
        (start_run (logged_host h) ?r ?w1) = (ok, t)" by force
    have rs': "run_stages (test_stages h ops) (start_run h ?r (erase ?w1)) = (ok, erase_run t)"
      unfolding erase_start erase_test_stages rs by simp
    show ?thesis using True T a rs rs'
      by (auto simp: test_1581_body_def Let_def erased logged_acquire erase_cleanup)
  qed
  then show ?thesis by (cases r0) (simp_all add: m65_test_1581_def Let_def split: prod.split)
qed


section \<open>Inspection\<close>

lemma erase_inspect_input [erased]:
  "inspect_input h ops operation cdb b rep (erase w) =
     apsnd (apsnd (apsnd erase)) (inspect_input (logged_host h) (logged ops) operation cdb b rep w)"
  by (simp add: inspect_input_def erased Let_def split: prod.split)

lemma erase_inspect_stop: "inspect_stop rep (erase w) = apsnd (apsnd erase) (inspect_stop rep w)"
  by (simp add: inspect_stop_def)

lemma erase_inspect_stages:
  "list_all2 (erases (apsnd erase)) (inspect_stages (logged_host h) (logged ops)) (inspect_stages h ops)"
  by (simp add: inspect_stages_def erases_def split_paired_All inspect_inquiry_def inspect_unit_ready_def
      inspect_capacity_def inspect_formats_def inspect_current_mode_def inspect_changeable_mode_def
      erased erase_inspect_stop Let_def split: prod.split option.split sum.split)

lemma erase_inspect_cleanup: "inspect_cleanup ops (rep, erase w) = apsnd erase (inspect_cleanup (logged ops) (rep, w))"
  by (simp add: inspect_cleanup_def logged_release Let_def split: prod.split)

lemma erase_inspect:
  "m65_inspect h T r0 (erase w) =
     apsnd (apsnd erase) (m65_inspect (logged_host h) (map_option logged T) r0 w)"
proof -
  have body: "inspect_body h ops (erase w) = apsnd erase (inspect_body (logged_host h) (logged ops) w)" for ops
  proof -
    let ?w = "m65_probe_clear_interrupt (logged_host h) w"
    obtain st d s where a: "acquire_exclusive ops (ir_reason zero_inspect_report) (fst (w_state ?w)) = (st, d, s)"
      by (metis prod_cases3)
    let ?w1 = "?w\<lparr>w_state := (s, snd (w_state ?w) @ [Acquired st])\<rparr>"
    let ?r = "zero_inspect_report\<lparr>ir_code := PROBE_TRANSPORT, ir_reason := error_text d\<rparr>"
    obtain ok r w2 where rs: "run_stages (inspect_stages (logged_host h) (logged ops)) (?r, ?w1) = (ok, r, w2)"
      by (metis prod_cases3)
    have rs': "run_stages (inspect_stages h ops) (?r, erase ?w1) = (ok, r, erase w2)"
      using erases_run_stages [OF erase_inspect_stages, of h ops "(?r, ?w1)"] rs by simp
    show ?thesis using a rs rs'
      by (auto simp: inspect_body_def Let_def erased logged_acquire erase_inspect_cleanup)
  qed
  show ?thesis by (cases T; cases r0; simp add: m65_inspect_def body Let_def split: prod.split)
qed

end
