(* ===== verification/M65_ProbeClient.thy ===== *)
theory M65_ProbeClient
  imports M65_Test1581
begin

text \<open>
  What the probe (\<open>src/probe.c\<close>) keeps, and what it may rely on over a transport that keeps its contract:
  exclusive access is held from the acquisition to the release, whatever happens between, and a successful
  read is never short.
\<close>

section \<open>Invariants of the probe\<close>

text \<open>Whatever a command, a signal and an allocation keep, the commands of the probe keep.\<close>

locale probe_keeper =
  fixes ops :: "'s transport_ops" and inv :: "'s \<Rightarrow> bool" and host :: "'s host"
  assumes execute_inv: "execute ops c s = (r, b, s') \<Longrightarrow> inv s \<Longrightarrow> inv s'"
    and signals_inv: "h_signals host s = (x, s') \<Longrightarrow> inv s \<Longrightarrow> inv s'"
    and malloc_inv: "h_malloc host n s = (m, s') \<Longrightarrow> inv s \<Longrightarrow> inv s'"
begin

definition keeps :: "'s world \<Rightarrow> 's world \<Rightarrow> bool" where
  "keeps w w' \<longleftrightarrow> (inv (w_state w) \<longrightarrow> inv (w_state w'))"

lemma keeps_refl [simp]: "keeps w w"
  by (simp add: keeps_def)

lemma keeps_trans: "keeps w w1 \<Longrightarrow> keeps w1 w2 \<Longrightarrow> keeps w w2"
  by (auto simp: keeps_def)

lemma keepsD: "keeps w w' \<Longrightarrow> inv (w_state w) \<Longrightarrow> inv (w_state w')"
  by (simp add: keeps_def)

lemma deliver_keeps: "keeps w (deliver_signals host w)"
  using signals_inv by (auto simp: keeps_def deliver_signals_def m65_probe_request_interrupt_def Let_def
      split: prod.split)

lemma clear_keeps: "keeps w (m65_probe_clear_interrupt host w)"
  using deliver_keeps [of w] by (simp add: keeps_def m65_probe_clear_interrupt_def)

lemma read_interrupted_keeps: "read_interrupted host w = (b, w') \<Longrightarrow> keeps w w'"
  using deliver_keeps [of w] by (auto simp: read_interrupted_def Let_def)

lemma malloc_keeps: "host_malloc host n w = (b, w') \<Longrightarrow> keeps w w'"
  using malloc_inv by (auto simp: host_malloc_def Let_def keeps_def split: prod.splits)

lemma execute_simple_keeps:
  assumes "execute_simple host ops cdb dir d n w = (r, b, w')"
  shows "keeps w w'"
proof -
  obtain stop w1 where i: "read_interrupted host w = (stop, w1)" by force
  obtain r1 b1 s1 where e: "execute ops (simple_command cdb dir d n) (w_state w1) = (r1, b1, s1)"
    by (metis prod_cases3)
  have "keeps w1 (w1\<lparr>w_state := s1\<rparr>)"
    using execute_inv [OF e] by (simp add: keeps_def)
  with read_interrupted_keeps [OF i] assms i e show ?thesis
    by (auto simp: execute_simple_def execute_checked_def Let_def intro: keeps_trans
        split: sum.splits if_splits)
qed

lemma mode_sense_keeps: "mode_sense host ops ch p w = (r, m, w') \<Longrightarrow> keeps w w'"
  by (auto simp: mode_sense_def Let_def dest: execute_simple_keeps split: prod.splits if_splits sum.splits)

lemma mode_select_keeps: "mode_select host ops p w = (r, w') \<Longrightarrow> keeps w w'"
  by (auto simp: mode_select_def Let_def dest: execute_simple_keeps split: prod.splits sum.splits)

lemma read_blocks_keeps: "read_blocks host ops lba n b w = (r, b', w') \<Longrightarrow> keeps w w'"
  by (auto simp: read_blocks_def Let_def dest: execute_simple_keeps split: prod.splits if_splits)

lemma read_image_keeps:
  "read_complete_image host ops lba img rep w = (ok, img', rep', w') \<Longrightarrow> keeps w w'"
proof (induction "M65_1581_BLOCKS - lba" arbitrary: lba img rep w rule: less_induct)
  case less
  show ?case
  proof (cases "lba < M65_1581_BLOCKS")
    case False
    with less.prems show ?thesis by (simp add: read_complete_image.simps)
  next
    case True
    define n where "n = (if M65_1581_BLOCKS - lba > M65_READ_CHUNK_BLOCKS
      then M65_READ_CHUNK_BLOCKS else M65_1581_BLOCKS - lba)"
    obtain stop w1 where i: "read_interrupted host w = (stop, w1)" by force
    obtain r b w2 where rb: "read_blocks host ops (of_nat lba) (of_nat n)
        (take (n * M65_BLOCK_SIZE) (drop (lba * M65_BLOCK_SIZE) img)) w1 = (r, b, w2)"
      by (metis prod_cases3)
    have IH: "keeps w2 w'" if "read_complete_image host ops (lba + n)
        (buf_write (lba * M65_BLOCK_SIZE) b img) rep w2 = (ok, img', rep', w')"
      by (rule less.hyps [OF _ that]) (use True in \<open>auto simp: n_def\<close>)
    have "keeps w w1" "keeps w w2"
      using read_interrupted_keeps [OF i] read_blocks_keeps [OF rb] by (auto intro: keeps_trans)
    with less.prems IH show ?thesis
      unfolding read_complete_image.simps [of host ops lba]
      using True by (auto simp: Let_def n_def [symmetric] i rb intro: keeps_trans split: if_splits)
  qed
qed

section \<open>Whole runs\<close>

definition stage_keeps :: "('t \<Rightarrow> 's world) \<Rightarrow> ('t \<Rightarrow> bool \<times> 't) \<Rightarrow> bool" where
  "stage_keeps world stage \<longleftrightarrow> (\<forall>t ok t'. stage t = (ok, t') \<longrightarrow> keeps (world t) (world t'))"

lemma run_stages_keeps:
  "list_all (stage_keeps world) stages \<Longrightarrow> run_stages stages t = (ok, t') \<Longrightarrow> keeps (world t) (world t')"
proof (induction stages arbitrary: t)
  case (Cons stage stages)
  obtain ok1 t1 where s: "stage t = (ok1, t1)" by force
  with Cons.prems(1) have "keeps (world t) (world t1)" by (auto simp: stage_keeps_def)
  with s Cons show ?case by (cases ok1) (auto intro: keeps_trans)
qed simp

lemma test_stages_keep: "list_all (stage_keeps t_world) (test_stages host ops)"
proof -
  have "stage_keeps t_world (save_original host ops)" "stage_keeps t_world (read_changeable host ops)"
    "stage_keeps t_world (verify_accepted host ops)"
    by (auto simp: stage_keeps_def save_original_def read_changeable_def verify_accepted_def Let_def
        stop_failed_def update_report_def dest: mode_sense_keeps
        split: prod.splits if_splits sum.splits)
  moreover have "stage_keeps t_world (select_requested host ops)"
    by (auto simp: stage_keeps_def select_requested_def Let_def stop_refused_def update_report_def
        dest: mode_select_keeps split: prod.splits if_splits)
  moreover have "stage_keeps t_world (probe_lba host ops lba operation f)" for lba operation f
    by (auto simp: stage_keeps_def probe_lba_def Let_def stop_refused_def update_report_def
        dest: read_blocks_keeps split: prod.splits if_splits)
  moreover have "stage_keeps t_world (read_twice host ops)"
    by (auto simp: stage_keeps_def read_twice_def Let_def update_report_def
        dest!: malloc_keeps read_image_keeps intro: keeps_trans
        split: prod.splits if_splits option.splits)
  ultimately show ?thesis by (simp add: test_stages_def probe_boundaries_def)
qed

lemma inspect_input_keeps:
  "inspect_input host ops operation cdb b rep w = (n, b', rep', w') \<Longrightarrow> keeps w w'"
  by (auto simp: inspect_input_def Let_def dest: execute_simple_keeps split: prod.splits if_splits)

lemma inspect_stages_keep: "list_all (stage_keeps snd) (inspect_stages host ops)"
  by (auto simp: inspect_stages_def stage_keeps_def inspect_inquiry_def inspect_unit_ready_def
      inspect_capacity_def inspect_formats_def inspect_current_mode_def inspect_changeable_mode_def
      inspect_stop_def Let_def dest!: inspect_input_keeps execute_simple_keeps
      split: prod.splits option.splits sum.splits if_splits)

lemma restore_keeps: "keeps (t_world t) (t_world (restore_original host ops t))"
proof (cases "t_restore_needed t \<and> tr_original_saved (t_report t)")
  case True
  obtain r w where m: "mode_select host ops (mp_flexible (t_original_mode t))
      (m65_probe_clear_interrupt host (t_world t)) = (r, w)" by force
  have "t_world (restore_original host ops t) = w"
    using True m by (simp add: restore_original_def Let_def update_report_def)
  then show ?thesis using keeps_trans [OF clear_keeps mode_select_keeps [OF m]] by simp
next
  case False
  then have "t_world (restore_original host ops t) = t_world t"
    unfolding restore_original_def if_not_P [OF False] by (simp add: update_report_def)
  then show ?thesis by simp
qed

end

text \<open>What taking and giving back the access keep as well survives whole runs.\<close>

locale probe_session = probe_keeper ops inv host
  for ops :: "'s transport_ops" and inv :: "'s \<Rightarrow> bool" and host :: "'s host" +
  assumes acquire_inv: "acquire_exclusive ops d s = (st, d', s') \<Longrightarrow> inv s \<Longrightarrow> inv s'"
    and release_inv: "release_exclusive ops d s = (st, d', s') \<Longrightarrow> inv s \<Longrightarrow> inv s'"
begin

lemma inspect_sound:
  assumes "m65_inspect host (Some ops) (Some r0) w = (code, r, w')" and "inv (w_state w)"
  shows "inv (w_state w')"
proof -
  let ?w = "m65_probe_clear_interrupt host w"
  obtain st d s where a: "acquire_exclusive ops (ir_reason (zero_inspect_report\<lparr>ir_code := PROBE_TRANSPORT\<rparr>)) (w_state ?w) = (st, d, s)"
    by (metis prod_cases3)
  have s: "inv s" using acquire_inv [OF a] keepsD [OF clear_keeps assms(2)] by simp
  have run: "inv (w_state (snd x'))"
    if "run_stages (inspect_stages host ops) x = (ok, x')" "inv (w_state (snd x))" for ok x x'
    using keepsD run_stages_keeps [OF inspect_stages_keep that(1)] that(2) by blast
  have clean: "inv (w_state (snd (inspect_cleanup ops x)))" if "inv (w_state (snd x))" for x
    using that release_inv by (auto simp: inspect_cleanup_def Let_def split: prod.splits)
  obtain ok rep v where x: "run_stages (inspect_stages host ops)
      (zero_inspect_report\<lparr>ir_code := PROBE_TRANSPORT, ir_reason := error_text d\<rparr>, ?w\<lparr>w_state := s\<rparr>) = (ok, rep, v)"
    by (metis prod_cases3)
  have v: "inv (w_state v)" using run [OF x] s by simp
  have "w' = ?w\<lparr>w_state := s\<rparr> \<or> (\<exists>rep'. w' = snd (inspect_cleanup ops (rep', v)))"
    using assms(1) a x
    by (cases "st = TRANSPORT_OK"; auto simp: m65_inspect_def inspect_body_def Let_def split: prod.splits)
      (metis snd_conv)+
  then show ?thesis using clean [of "(_, v)"] v s by auto
qed

lemma test_cleanup_sound:
  "inv (w_state (t_world t)) \<Longrightarrow> inv (w_state (t_world (test_cleanup host ops t)))"
  using keepsD [OF restore_keeps [of t]] release_inv
  by (auto simp: test_cleanup_def discard_image_def release_transport_def update_report_def Let_def
      split: prod.splits)

lemma test_1581_sound:
  assumes "m65_test_1581 host T ack (Some r0) w = (code, r, w')" and "inv (w_state w)"
    and T: "T = None \<or> T = Some ops"
  shows "inv (w_state w')"
proof -
  let ?w = "m65_probe_clear_interrupt host w"
  have c: "inv (w_state ?w)" using keepsD [OF clear_keeps assms(2)] .
  show ?thesis
  proof (cases "ack \<and> T = Some ops")
    case False
    with T have "\<not> ack \<or> T = None" by blast
    with assms(1) c show ?thesis
      by (cases ack; auto simp: m65_test_1581_def test_1581_body_def Let_def)
  next
    case True
    obtain st d s where a: "acquire_exclusive ops (tr_reason (initial_report True)) (w_state ?w) = (st, d, s)"
      by (metis prod_cases3)
    have s: "inv s" using acquire_inv [OF a] c by simp
    obtain ok t where x: "run_stages (test_stages host ops) (start_run host
        (initial_report True\<lparr>tr_reason := error_text d, tr_exclusive_acquired := True\<rparr>) (?w\<lparr>w_state := s\<rparr>)) = (ok, t)"
      by force
    have "inv (w_state (t_world t))"
      using keepsD [OF run_stages_keeps [OF test_stages_keep x]] s by (simp add: start_run_def)
    moreover have "w' = ?w\<lparr>w_state := s\<rparr> \<or> w' = t_world (test_cleanup host ops t)"
      using assms(1) a x True
      by (cases "st = TRANSPORT_OK") (auto simp: m65_test_1581_def test_1581_body_def Let_def)
    ultimately show ?thesis using test_cleanup_sound s by auto
  qed
qed

end

section \<open>Clients of a transport\<close>

text \<open>A transport that keeps its contract, and a host whose signals and allocations leave it alone.\<close>

locale probe_client = transport_contract ops acquired sound
  for ops :: "'s transport_ops" and acquired :: "'s \<Rightarrow> bool" and sound :: "'s \<Rightarrow> bool" +
  fixes host :: "'s host"
  assumes signals_keep: "h_signals host s = (b, s') \<Longrightarrow> acquired s' = acquired s \<and> (sound s \<longrightarrow> sound s')"
    and malloc_keep: "h_malloc host n s = (m, s') \<Longrightarrow> acquired s' = acquired s \<and> (sound s \<longrightarrow> sound s')"

sublocale probe_client \<subseteq> probe_session ops sound host
  by unfold_locales (auto dest: execute_sound signals_keep malloc_keep acquire_sound release_sound)

sublocale probe_client \<subseteq> held: probe_keeper ops "\<lambda>s. acquired s = a" host for a
  by unfold_locales (auto dest: execute_acquired signals_keep malloc_keep)

context probe_client begin

text \<open>A run that reports success has released the access it acquired.\<close>

lemma inspect_releases:
  assumes "m65_inspect host (Some ops) (Some r0) w = (PROBE_OK, r, w')"
  shows "\<not> acquired (w_state w')"
proof -
  have "\<not> acquired (w_state (snd (inspect_cleanup ops (rep, v))))"
    if "ir_code (fst (inspect_cleanup ops (rep, v))) = PROBE_OK" for rep v
    using that release_ok by (auto simp: inspect_cleanup_def Let_def code_for_transport_def
        split: prod.splits if_splits transport_status.splits)
  moreover have "code_for_transport st = PROBE_OK \<Longrightarrow> st = TRANSPORT_OK" for st
    by (cases st) (simp_all add: code_for_transport_def)
  ultimately show ?thesis using assms
    by (auto simp: m65_inspect_def inspect_body_def Let_def split: prod.splits if_splits)
      (metis fst_conv snd_conv)+
qed

lemma test_1581_releases:
  assumes "m65_test_1581 host (Some ops) ack (Some r0) w = (PROBE_OK, r, w')"
  shows "\<not> acquired (w_state w')"
proof -
  have ok: "code_for_transport st = PROBE_OK \<Longrightarrow> st = TRANSPORT_OK" for st
    by (cases st) (simp_all add: code_for_transport_def)
  have "\<not> acquired (w_state (t_world (test_cleanup host ops t)))"
    if "tr_code (t_report (test_cleanup host ops t)) = PROBE_OK" for t
  proof -
    let ?t = "restore_original host ops t"
    obtain st d s where r: "release_exclusive ops [] (w_state (t_world ?t)) = (st, d, s)"
      by (metis prod_cases3)
    with that have "st = TRANSPORT_OK"
      by (auto simp: test_cleanup_def discard_image_def release_transport_def update_report_def Let_def
          split: if_splits)
    moreover have "w_state (t_world (test_cleanup host ops t)) = s"
      using r by (auto simp: test_cleanup_def discard_image_def release_transport_def update_report_def Let_def)
    ultimately show ?thesis using release_ok r by metis
  qed
  with assms ok show ?thesis
    by (auto simp: m65_test_1581_def test_1581_body_def Let_def initial_report_def split: prod.splits if_splits)
qed

text \<open>Access acquired for the test is held until the clean-up, and without the acknowledgement
  nothing is acquired or released.\<close>

lemma test_holds_access:
  assumes "run_stages (test_stages host ops) t = (ok, t')"
  shows "acquired (w_state (t_world t')) = acquired (w_state (t_world t))"
  using held.keepsD [OF held.run_stages_keeps [OF held.test_stages_keep assms]] by blast

lemma test_1581_refused_keeps:
  assumes "m65_test_1581 host T False r0 w = (code, r, w')"
  shows "acquired (w_state w') = acquired (w_state w)"
  using assms held.keepsD [OF held.clear_keeps [of "acquired (w_state w)" w]]
  by (auto simp: m65_test_1581_def test_1581_body_def Let_def split: option.splits)

text \<open>A good READ (10) has filled its buffer: \<open>read_blocks\<close> never finds a short one.\<close>

lemma read_not_short:
  assumes e: "execute_simple host ops (m65_cdb_read_10 lba n) DATA_IN (Some b) len w = (r, b', w')"
    and "sound (w_state w)" and "command_good r"
  shows "r_transferred r = len"
proof -
  let ?c = "simple_command (m65_cdb_read_10 lba n) DATA_IN (Some b) len"
  have v: "m65_validate_command ?c = Inr ()"
    using e assms(3)
    by (auto simp: execute_simple_def execute_checked_def command_good_def split: sum.splits)
  obtain stop w1 where i: "read_interrupted host w = (stop, w1)" by force
  have s1: "sound (w_state w1)" using read_interrupted_keeps [OF i] assms(2) by (simp add: keeps_def)
  have "\<not> stop" using e assms(3) v i
    by (auto simp: execute_simple_def execute_checked_def command_good_def Let_def split: if_splits)
  then obtain b1 s2 where x: "execute ops ?c (w_state w1) = (r, b1, s2)"
    using e v i by (auto simp: execute_simple_def execute_checked_def Let_def split: prod.splits)
  have "exact_data_required ?c"
    by (simp add: exact_data_required_def simple_command_def m65_cdb_read_10_def cdb_clear_def
        m65_write_be16_def m65_write_be32_def buf_write_def nth_append)
  from execute_exact [OF x s1 assms(3) v this] show ?thesis by (simp add: simple_command_def)
qed

end

end
