(* ===== verification/M65_TestBasis.thy ===== *)
theory M65_TestBasis
  imports M65_TestRuns M65_FakeRuns M65_Erase M65_ProbeClient
begin

text \<open>
  Whole runs of the 1581 test (\<open>src/probe.c\<close>): the clean-up and its outcomes, the two ways a test
  ends, and a concrete run. The properties are in \<open>M65_TestProps\<close>.
\<close>

section \<open>Restoration\<close>

lemma select_plan_page: "fp_page p = fp_page q \<Longrightarrow> select_plan p = select_plan q"
  by (simp add: select_plan_def m65_build_mode_select_payload_def Let_def)

lemma select_plan_wf:
  assumes "flexible_wf p"
  shows "select_plan p =
    (if fp_page p ! 1 = 30
     then [plan_of (m65_cdb_mode_select_10 40) DATA_OUT (Some (replicate 8 0 @ 5 # drop 1 (fp_page p)))]
     else [])"
  using assms by (simp add: select_plan_def payload_eq flexible_wf_def)

lemma select_plan_requested:
  "flexible_wf p \<Longrightarrow> select_plan (m65_set_1581_geometry p) = [] \<longleftrightarrow> select_plan p = []"
  by (simp add: select_plan_wf set_1581_wf set_1581_page_eq flexible_wf_def [of p])

text \<open>Signals that arrive only while a transport operation runs: between two accesses to the
  flag with nothing in between, none does.\<close>

definition signals_during_commands :: "'s host \<Rightarrow> bool" where
  "signals_during_commands h \<longleftrightarrow> (\<forall>s. \<not> fst (h_signals h (snd (h_signals h s))))"

lemma read_after_clear:
  assumes "signals_during_commands h"
    and "read_interrupted h (m65_probe_clear_interrupt h w) = (stop, w')"
  shows "\<not> stop"
proof -
  obtain a s1 where d1: "h_signals h (w_state w) = (a, s1)" by force
  then have "\<not> fst (h_signals h s1)"
    using assms(1) unfolding signals_during_commands_def by (metis snd_conv)
  with d1 assms(2) show ?thesis
    by (auto simp: read_interrupted_def m65_probe_clear_interrupt_def deliver_signals_def Let_def
        m65_probe_request_interrupt_def split: prod.splits if_splits)
qed

lemma logged_host_signals: "signals_during_commands h \<Longrightarrow> signals_during_commands (logged_host h)"
  by (auto simp: signals_during_commands_def logged_host_def split: prod.split)
   (metis fst_conv snd_conv)

text \<open>The restoring MODE SELECT is sent, unless a signal interrupts it.\<close>

lemma mode_select_sent:
  assumes ms: "mode_select (logged_host h) (logged ops) p (m65_probe_clear_interrupt (logged_host h) w) = (r, w')"
    and p: "flexible_wf p" "select_plan p \<noteq> []" and h: "signals_during_commands h"
  shows "\<exists>c. trace w' = trace w @ [Executed c r] \<and> [request_of c] = select_plan p \<and>
             m65_validate_command c = Inr () \<and> c_direction c = DATA_OUT"
proof -
  have len: "length (fp_page p) = 32" "fp_page p ! 1 = 30"
    using p by (auto simp: select_plan_wf flexible_wf_def [of p] split: if_splits)
  obtain d where d: "m65_build_mode_select_payload p 40 = Inr d"
    using p by (auto simp: select_plan_def split: sum.splits)
  have d_eq: "d = replicate 8 0 @ 5 # drop 1 (fp_page p)"
    using d len p(1) by (simp add: payload_eq flexible_wf_def)
  note d40 = payload_length [OF d len(1)]
  let ?c = "simple_command (m65_cdb_mode_select_10 40) DATA_OUT (Some d) 40"
  have eq: "?c = select_command d 15000"
    by (simp add: simple_command_def select_command_def cdb_mode_select_40 buf_write_def zeroed_def)
      (simp add: numeral_eq_Suc)
  have valid: "m65_validate_command ?c = Inr ()"
    unfolding eq by (rule select_command_valid) (use d_eq len in \<open>simp_all add: nth_append\<close>)
  obtain stop w1 where i: "read_interrupted (logged_host h) (m65_probe_clear_interrupt (logged_host h) w) = (stop, w1)"
    by force
  have "\<not> stop" using read_after_clear [OF logged_host_signals [OF h] i] .
  moreover have "trace w1 = trace w" using trace_read_interrupted [OF i] by simp
  ultimately have "trace w' = trace w @ [Executed ?c r]"
    using ms d d40 valid i
    by (auto simp: mode_select_def execute_simple_def execute_checked_def Let_def logged_execute trace_def
        split: prod.splits)
  moreover have "[request_of ?c] = select_plan p"
    using d by (simp add: select_plan_def request_simple_command)
  ultimately show ?thesis using valid by (auto simp: simple_command_def)
qed


section \<open>The clean-up\<close>

text \<open>What the clean-up sends after the body: at most the restoring MODE SELECT, then the release.\<close>

lemma restore_original_sends:
  assumes "flexible_wf (mp_flexible (t_original_mode t))"
  shows "sends (if t_restore_needed t \<and> tr_original_saved (t_report t)
                then select_plan (mp_flexible (t_original_mode t)) else []) False
           (t_world t) (t_world (restore_original (logged_host h) (logged ops) t))"
proof (cases "t_restore_needed t \<and> tr_original_saved (t_report t)")
  case True
  let ?w = "m65_probe_clear_interrupt (logged_host h) (t_world t)"
  obtain r w' where ms: "mode_select (logged_host h) (logged ops) (mp_flexible (t_original_mode t)) ?w = (r, w')"
    by force
  have "sends (select_plan (mp_flexible (t_original_mode t))) False ?w w'"
    by (rule sends_weaken [OF mode_select_sends [OF ms]]) (use assms in \<open>simp_all add: flexible_wf_def\<close>)
  then have "sends (select_plan (mp_flexible (t_original_mode t))) False (t_world t) w'"
    by (rule sends_from [rotated]) simp
  with True ms show ?thesis by (simp add: restore_original_def Let_def)
next
  case False
  then have "t_world (restore_original (logged_host h) (logged ops) t) = t_world t"
    by (auto simp: restore_original_def)
  then show ?thesis using False by (auto simp: sends_refl)
qed

lemma release_transport_trace:
  "\<exists>st. trace (t_world (release_transport (logged ops) t)) = trace (t_world t) @ [Released st] \<and>
     (if st = TRANSPORT_OK
      then t_report (release_transport (logged ops) t) = (t_report t)\<lparr>tr_exclusive_acquired := False\<rparr>
      else tr_code (t_report (release_transport (logged ops) t)) \<noteq> PROBE_OK \<and>
           tr_status (t_report (release_transport (logged ops) t)) = STATUS_INCONCLUSIVE)"
  by (auto simp: release_transport_def logged_release trace_def update_report_def Let_def
      split: prod.split)

lemma release_transport_frame:
  "saved_part (t_report (release_transport ops t)) = saved_part (t_report t)"
  "tr_controller_restored (t_report (release_transport ops t)) = tr_controller_restored (t_report t)"
  "tr_controller_changed (t_report (release_transport ops t)) = tr_controller_changed (t_report t)"
  by (auto simp: release_transport_def update_report_def Let_def split: prod.split)

lemma restore_original_frame:
  "saved_part (t_report (restore_original h ops t)) = saved_part (t_report t)"
  "tr_controller_changed (t_report (restore_original h ops t)) = tr_controller_changed (t_report t)"
  by (auto simp: restore_original_def restore_failure_def update_report_def Let_def split: prod.split)

lemma discard_image_frame [simp]:
  "t_world (discard_image t) = t_world t"
  "saved_part (t_report (discard_image t)) = saved_part (t_report t)"
  "tr_controller_restored (t_report (discard_image t)) = tr_controller_restored (t_report t)"
  "tr_controller_changed (t_report (discard_image t)) = tr_controller_changed (t_report t)"
  "tr_code (t_report (discard_image t)) = tr_code (t_report t)"
  "tr_status (t_report (discard_image t)) = tr_status (t_report t)"
  by (simp_all add: discard_image_def update_report_def)


section \<open>Whole runs\<close>

lemma test_plan_part: "test_plan p = part_plan 7 p"
  by (simp add: test_plan_def part_plan_Suc)

lemma start_run_part: "at_part 0 w (start_run h ((initial_report a)\<lparr>tr_reason := s, tr_exclusive_acquired := True\<rparr>) w)"
  by (simp add: at_part_def start_run_def initial_report_def undecided_def part_plan_Suc(1) sends_refl
      zero_report_1581_def)

text \<open>The two ways a test ends: without exclusive access, or with the clean-up after the stages.\<close>

definition acquire_failed :: "report_1581 \<Rightarrow> bool" where
  "acquire_failed r \<longleftrightarrow> tr_code r \<noteq> PROBE_OK \<and> tr_status r = STATUS_INCONCLUSIVE \<and>
     tr_image r = None \<and> \<not> tr_original_saved r \<and> \<not> tr_controller_changed r \<and> \<not> tr_controller_restored r"

lemma test_1581_cases:
  assumes "m65_test_1581 (logged_host h) (Some (logged ops)) True (Some r0) w = (code, Some r, w')"
  obtains (refused) st where "st \<noteq> TRANSPORT_OK" "trace w' = trace w @ [Acquired st]"
      "acquire_failed r" "code = tr_code r"
  | (run) w1 ok t where "trace w1 = trace w @ [Acquired TRANSPORT_OK]"
      "if ok then completed w1 t else stopped w1 t"
      "r = t_report (test_cleanup (logged_host h) (logged ops) t)"
      "w' = t_world (test_cleanup (logged_host h) (logged ops) t)" "code = tr_code r"
proof -
  let ?w = "m65_probe_clear_interrupt (logged_host h) w"
  obtain st d sl where a: "acquire_exclusive (logged ops) (tr_reason (initial_report True)) (w_state ?w) = (st, d, sl)"
    by (metis prod_cases3)
  let ?w1 = "?w\<lparr>w_state := sl\<rparr>"
  have tr: "trace ?w1 = trace w @ [Acquired st]"
    using a trace_clear [of h w] by (auto simp: logged_acquire trace_def Let_def split: prod.splits)
  let ?r = "(initial_report True)\<lparr>tr_reason := error_text d, tr_exclusive_acquired := True\<rparr>"
  obtain ok t where rs: "run_stages (test_stages (logged_host h) (logged ops)) (start_run (logged_host h) ?r ?w1) = (ok, t)"
    by force
  show thesis
  proof (cases "st = TRANSPORT_OK")
    case False
    then show thesis using assms a tr
      by (intro refused [of st])
        (auto simp: m65_test_1581_def test_1581_body_def Let_def acquire_failed_def initial_report_def
          zero_report_1581_def)
  next
    case True
    have "if ok then completed ?w1 t else stopped ?w1 t"
      using test_stages_triple [of ?w1 h ops] start_run_part [of ?w1 "logged_host h" "error_text d" True] rs
      by (simp add: triple_def)
    with True show thesis using assms a tr rs
      by (intro run [of ?w1 ok t]) (auto simp: m65_test_1581_def test_1581_body_def Let_def)
  qed
qed

section \<open>Outcomes of the clean-up\<close>

lemma restore_outcome:
  "t_report (restore_original h ops t) = (t_report t)\<lparr>tr_controller_restored := True\<rparr> \<and>
     tr_original_saved (t_report t) \<or>
   t_report (restore_original h ops t) = t_report t \<and> \<not> tr_original_saved (t_report t) \<or>
   tr_code (t_report (restore_original h ops t)) \<noteq> PROBE_OK \<and>
     tr_status (t_report (restore_original h ops t)) = STATUS_INCONCLUSIVE \<and>
     tr_controller_restored (t_report (restore_original h ops t)) = tr_controller_restored (t_report t) \<and>
     t_restore_needed t"
  by (auto simp: restore_original_def restore_failure_def update_report_def Let_def split: prod.split)

lemma release_outcome:
  "t_report (release_transport ops t) = (t_report t)\<lparr>tr_exclusive_acquired := False\<rparr> \<or>
   tr_code (t_report (release_transport ops t)) \<noteq> PROBE_OK \<and>
     tr_status (t_report (release_transport ops t)) = STATUS_INCONCLUSIVE"
  by (auto simp: release_transport_def update_report_def Let_def split: prod.split)

lemma cleanup_frame [simp]:
  "saved_part (t_report (test_cleanup h ops t)) = saved_part (t_report t)"
  "tr_controller_changed (t_report (test_cleanup h ops t)) = tr_controller_changed (t_report t)"
  by (simp_all add: test_cleanup_def release_transport_frame restore_original_frame)

lemma saved_part_eq: "saved_part r = saved_part r' \<Longrightarrow>
    tr_original_saved r = tr_original_saved r' \<and> tr_original r = tr_original r' \<and>
    tr_requested r = tr_requested r' \<and> tr_changeable r = tr_changeable r'"
  by (simp add: saved_part_def)

lemmas cleanup_saved = saved_part_eq [OF cleanup_frame(1)]

text \<open>A successful clean-up is the restored, released report; any other has no success to report.\<close>

lemma cleanup_outcome:
  assumes "tr_code (t_report t) = PROBE_OK \<longleftrightarrow> tr_status (t_report t) = STATUS_SUPPORTED"
  shows "tr_code (t_report (test_cleanup h ops t)) = PROBE_OK \<longleftrightarrow>
           tr_status (t_report (test_cleanup h ops t)) = STATUS_SUPPORTED"
    and "tr_status (t_report (test_cleanup h ops t)) = STATUS_SUPPORTED \<Longrightarrow> tr_original_saved (t_report t) \<Longrightarrow>
           tr_status (t_report t) = STATUS_SUPPORTED \<and>
           t_report (test_cleanup h ops t) =
             (t_report t)\<lparr>tr_controller_restored := True, tr_exclusive_acquired := False\<rparr>"
    and "tr_status (t_report (test_cleanup h ops t)) \<noteq> STATUS_SUPPORTED \<Longrightarrow>
           tr_image (t_report (test_cleanup h ops t)) = None"
proof -
  let ?before = "t_report t" and ?restored = "t_report (restore_original h ops t)"
  let ?released = "t_report (release_transport ops (restore_original h ops t))"
  let ?fin = "t_report (test_cleanup h ops t)"
  have r: "?fin = (if tr_status ?released \<noteq> STATUS_SUPPORTED then ?released\<lparr>tr_image := None, tr_image_length := 0\<rparr> else ?released)"
    by (simp add: test_cleanup_def discard_image_def)
  have r1: "tr_code ?restored = PROBE_OK \<longleftrightarrow> tr_status ?restored = STATUS_SUPPORTED"
    using restore_outcome [of h ops t] assms by (elim disjE conjE) simp_all
  have r2: "tr_code ?released = PROBE_OK \<longleftrightarrow> tr_status ?released = STATUS_SUPPORTED"
    using release_outcome [of ops "restore_original h ops t"] r1 by (elim disjE conjE) simp_all
  show "tr_code ?fin = PROBE_OK \<longleftrightarrow> tr_status ?fin = STATUS_SUPPORTED" using r r2 by simp
  show "tr_status ?fin \<noteq> STATUS_SUPPORTED \<Longrightarrow> tr_image ?fin = None" using r by (simp split: if_splits)
  show "tr_status ?before = STATUS_SUPPORTED \<and>
      ?fin = ?before\<lparr>tr_controller_restored := True, tr_exclusive_acquired := False\<rparr>"
    if s: "tr_status ?fin = STATUS_SUPPORTED" and saved: "tr_original_saved ?before"
  proof -
    have s2: "tr_status ?released = STATUS_SUPPORTED" using s r by (simp split: if_splits)
    then have e2: "?released = ?restored\<lparr>tr_exclusive_acquired := False\<rparr>"
      using release_outcome [of ops "restore_original h ops t"] by auto
    then have "tr_status ?restored = STATUS_SUPPORTED" using s2 by simp
    then have "?restored = ?before\<lparr>tr_controller_restored := True\<rparr>"
      using restore_outcome [of h ops t] saved by auto
    with e2 s2 r show ?thesis by simp
  qed
qed

lemma not_restored_outcome:
  assumes "t_restore_needed t" "tr_original_saved (t_report t)"
    and "\<not> tr_controller_restored (t_report (test_cleanup h ops t))"
  shows "tr_code (t_report (test_cleanup h ops t)) \<noteq> PROBE_OK \<and>
         tr_status (t_report (test_cleanup h ops t)) = STATUS_INCONCLUSIVE"
  using assms restore_outcome [of h ops t] release_outcome [of ops "restore_original h ops t"]
    release_transport_frame(2) [of ops "restore_original h ops t"]
  by (auto simp: test_cleanup_def)

section \<open>A concrete controller\<close>

definition initial_structure :: flexible_disk_page where
  "initial_structure = \<lparr>fp_transfer_rate_kbit = 500, fp_heads = 2, fp_sectors_per_track = 18,
     fp_bytes_per_sector = 512, fp_cylinders = 80, fp_medium_rotation_rate_rpm = 300,
     fp_field_changeable = replicate 20 False, fp_page = fake_initial_page\<rparr>"

definition mask_structure :: flexible_disk_page where
  "mask_structure = \<lparr>fp_transfer_rate_kbit = 0xffff, fp_heads = 0xff, fp_sectors_per_track = 0xff,
     fp_bytes_per_sector = 0xffff, fp_cylinders = 0xffff, fp_medium_rotation_rate_rpm = 0xffff,
     fp_field_changeable = replicate 20 False, fp_page = f_mask_page fake_transport_init\<rparr>"

lemma fake_init_conforming: "conforming initial_structure mask_structure fake_transport_init"
proof -
  have z: "replicate 32 (0 :: u8) = [0, 0, 0, 0, 0, 0, 0, 0, 0, 0, 0, 0, 0, 0, 0, 0, 0, 0, 0, 0, 0, 0, 0, 0, 0, 0, 0, 0, 0, 0, 0, 0]"
    by (simp add: numeral_eq_Suc)
  have p: "fake_initial_page = [5, 30, 1, 244, 2, 18, 2, 0, 0, 80, 0, 0, 0, 0, 0, 0, 0, 0, 0, 0, 0, 0, 0, 0, 0, 0, 0, 0, 1, 44, 0, 0]"
    by (simp add: fake_initial_page_def Let_def m65_write_be16_def z)
  have m: "f_mask_page fake_transport_init =
    [5, 30, 255, 255, 255, 255, 255, 255, 255, 255, 0, 0, 0, 0, 0, 0, 0, 0, 0, 0, 0, 0, 0, 0, 0, 0, 0, 0, 255, 255, 0, 0]"
    by (simp add: fake_transport_init_def fake_transport_set_all_geometry_changeable_def Let_def fake_offsets_def z)
  have "flexible_wf initial_structure" "flexible_wf mask_structure"
    by (simp_all add: flexible_wf_def initial_structure_def mask_structure_def p m be16_at_eq)
  moreover have "m65_geometry_changes_allowed initial_structure (m65_set_1581_geometry initial_structure) mask_structure = Inr ()"
  proof -
    have z: "(- 256 :: u8) = 0" by simp
    show ?thesis unfolding changes_allowed_iff byte_change_allowed_def
      by (simp add: geometry_offsets_def mask_structure_def m z)
  qed
  ultimately show ?thesis
    by (simp add: conforming_def initial_structure_def mask_structure_def p m)
      (simp add: fake_transport_init_def fake_transport_set_all_geometry_changeable_def Let_def p)
qed

definition fresh_world :: "fake_transport world" where
  "fresh_world = \<lparr>w_interrupted = False, w_state = fake_transport_init\<rparr>"

definition logged_fresh :: "(fake_transport \<times> event list) world" where
  "logged_fresh = \<lparr>w_interrupted = False, w_state = (fake_transport_init, [])\<rparr>"

lemma logged_fresh_run:
  "\<exists>r w'. m65_test_1581 (logged_host fake_host) (Some (logged fake_ops)) True (Some r0) logged_fresh =
      (PROBE_OK, Some r, w')"
proof -
  have "conforming initial_structure mask_structure (w_state (erase logged_fresh))"
    using fake_init_conforming by (simp add: logged_fresh_def)
  from conforming_test [OF this, of r0] obtain r w' where
    "m65_test_1581 fake_host (Some fake_ops) True (Some r0) (erase logged_fresh) = (PROBE_OK, Some r, w')" by blast
  then show ?thesis
    unfolding erase_test_1581 by (auto simp: apsnd_def map_prod_def split: prod.splits)
qed

section \<open>The verdict\<close>

text \<open>A report whose verdict is true to the run: success is claimed by code and verdict alike and only
  with everything that makes it, and a change that was not undone leaves the verdict open.\<close>

definition supported_report :: "report_1581 \<Rightarrow> bool" where
  "supported_report r \<longleftrightarrow> tr_controller_changed r \<and> tr_controller_restored r \<and>
     tr_requested r = m65_set_1581_geometry (tr_original r) \<and>
     m65_geometry_changes_allowed (tr_original r) (tr_requested r) (tr_changeable r) = Inr () \<and>
     m65_geometry_is_1581 (tr_accepted r) \<and> tr_boundary_lba_9_read r \<and> tr_boundary_lba_1599_read r \<and>
     tr_repeated_reads_match r \<and> tr_image_length r = M65_1581_IMAGE_SIZE \<and>
     (\<exists>img. tr_image r = Some img \<and> length img = M65_1581_IMAGE_SIZE)"

definition true_verdict :: "report_1581 \<Rightarrow> bool" where
  "true_verdict r \<longleftrightarrow> (tr_code r = PROBE_OK \<longleftrightarrow> tr_status r = STATUS_SUPPORTED) \<and>
     (tr_image r \<noteq> None \<longleftrightarrow> tr_status r = STATUS_SUPPORTED) \<and>
     (tr_status r = STATUS_SUPPORTED \<longrightarrow> supported_report r) \<and>
     (tr_controller_changed r \<longrightarrow> \<not> tr_controller_restored r \<longrightarrow> tr_status r = STATUS_INCONCLUSIVE)"

lemma completed_verdict:
  assumes "completed w t" shows "true_verdict (t_report (test_cleanup h ops t))"
proof -
  let ?r = "t_report (test_cleanup h ops t)"
  have saved: "tr_original_saved (t_report t)" "t_restore_needed t"
    using assms by (auto simp: completed_def saved_part_saved)
  have ok: "tr_code (t_report t) = PROBE_OK \<longleftrightarrow> tr_status (t_report t) = STATUS_SUPPORTED"
    using assms by (simp add: completed_def)
  note o = cleanup_outcome [OF ok, of h ops]
  show ?thesis
  proof (cases "tr_status ?r = STATUS_SUPPORTED")
    case True
    with o(2) saved have "?r = (t_report t)\<lparr>tr_controller_restored := True, tr_exclusive_acquired := False\<rparr>" by simp
    with assms show ?thesis by (auto simp: completed_def request_made_def true_verdict_def supported_report_def)
  next
    case False
    with o not_restored_outcome [OF saved(2,1), of h ops] show ?thesis by (auto simp: true_verdict_def)
  qed
qed

lemma stopped_verdict:
  assumes "stopped w t" shows "true_verdict (t_report (test_cleanup h ops t))"
proof -
  let ?r = "t_report (test_cleanup h ops t)"
  have ok: "tr_code (t_report t) = PROBE_OK \<longleftrightarrow> tr_status (t_report t) = STATUS_SUPPORTED"
    using assms by (simp add: stopped_def)
  have "tr_status ?r \<noteq> STATUS_SUPPORTED"
    using assms restore_outcome [of h ops t] release_outcome [of ops "restore_original h ops t"]
    by (auto simp: stopped_def test_cleanup_def)
  moreover have "tr_controller_changed ?r \<longrightarrow> t_restore_needed t \<and> tr_original_saved (t_report t)"
    using assms by (auto simp: stopped_def saved_part_saved split: if_splits)
  ultimately show ?thesis
    using cleanup_outcome [OF ok, of h ops] not_restored_outcome [of t h ops] by (auto simp: true_verdict_def)
qed

lemma verdict_logged:
  assumes "m65_test_1581 (logged_host h) (Some (logged ops)) True (Some r0) w = (code, Some r, w')"
  shows "code = tr_code r" "true_verdict r"
proof -
  have "code = tr_code r \<and> true_verdict r"
    using assms
  proof (cases rule: test_1581_cases)
    case (refused st)
    then show ?thesis by (simp add: acquire_failed_def true_verdict_def)
  next
    case (run w1 ok t)
    then show ?thesis by (cases ok) (simp_all add: completed_verdict stopped_verdict)
  qed
  then show "code = tr_code r" "true_verdict r" by simp_all
qed


end
