(* ===== verification/M65_TestProps.thy ===== *)
theory M65_TestProps
  imports M65_TestBasis
begin

text \<open>
  The properties of the 1581 test (\<open>m65_test_1581\<close> in \<open>src/probe.c\<close>): what its verdict means, what
  it sends, and that it restores the controller.
\<close>

text \<open>Every world is the erasure of a recorded one.\<close>

definition record_world :: "'s world \<Rightarrow> ('s \<times> event list) world" where
  "record_world w = \<lparr>w_interrupted = w_interrupted w, w_state = (w_state w, [])\<rparr>"

lemma erase_record [simp]: "erase (record_world w) = w"
  by (simp add: record_world_def erase_def)

lemma recorded_run:
  assumes "m65_test_1581 h (Some ops) ack r0 w = (code, r, w')"
  obtains w'' where "m65_test_1581 (logged_host h) (Some (logged ops)) ack r0 (record_world w) = (code, r, w'')"
    "erase w'' = w'"
  using erase_test_1581 [of h "Some ops" ack r0 "record_world w"] assms
  by (auto simp: apsnd_def map_prod_def split: prod.splits)



text \<open>C10 On a controller without faults whose mask permits the geometry, the test succeeds: it
  returns the whole medium, and the controller has the page it had before and is released.\<close>

theorem conforming_controller_supported:
  assumes "conforming f g (w_state w)"
  shows "\<exists>r w'. m65_test_1581 fake_host (Some fake_ops) True (Some r0) w = (PROBE_OK, Some r, w') \<and>
     tr_image r = Some (medium 0 819200) \<and>
     f_current_page (w_state w') = f_current_page (w_state w) \<and> \<not> f_acquired (w_state w')"
  using conforming_test [OF assms, of r0] by blast

theorem conforming_controller_supported_witness:
  "\<exists>r w'. m65_test_1581 fake_host (Some fake_ops) True (Some zero_report_1581) fresh_world = (PROBE_OK, Some r, w') \<and>
     f_current_page (w_state w') = f_current_page fake_transport_init"
proof -
  have "conforming initial_structure mask_structure (w_state fresh_world)"
    using fake_init_conforming by (simp add: fresh_world_def)
  from conforming_controller_supported [OF this, of zero_report_1581] show ?thesis
    by (auto simp: fresh_world_def)
qed

section \<open>What is sent\<close>

lemma cleanup_sends:
  assumes wf: "tr_original_saved (t_report t) \<Longrightarrow> page_saved t"
  shows "\<exists>rest st. trace (t_world (test_cleanup (logged_host h) (logged ops) t)) =
      trace (t_world t) @ rest @ [Released st] \<and> checked rest \<and>
      prefix (requests rest) (if t_restore_needed t \<and> tr_original_saved (t_report t)
        then select_plan (tr_original (t_report t)) else [])"
proof -
  let ?t = "restore_original (logged_host h) (logged ops) t"
  have "\<exists>rest. trace (t_world ?t) = trace (t_world t) @ rest \<and> checked rest \<and>
      prefix (requests rest) (if t_restore_needed t \<and> tr_original_saved (t_report t)
        then select_plan (tr_original (t_report t)) else [])"
  proof (cases "t_restore_needed t \<and> tr_original_saved (t_report t)")
    case True
    with wf have p: "flexible_wf (mp_flexible (t_original_mode t))"
      "fp_page (mp_flexible (t_original_mode t)) = fp_page (tr_original (t_report t))"
      by (simp_all add: page_saved_def)
    with restore_original_sends [OF p(1), of h ops] select_plan_page [OF p(2)] True
    show ?thesis by (auto simp: sends_def)
  next
    case False
    then have "t_world ?t = t_world t" by (auto simp: restore_original_def)
    then show ?thesis using False by (intro exI [of _ "[]"]) auto
  qed
  then obtain rest where r: "trace (t_world ?t) = trace (t_world t) @ rest" "checked rest"
      "prefix (requests rest) (if t_restore_needed t \<and> tr_original_saved (t_report t)
        then select_plan (tr_original (t_report t)) else [])" by blast
  obtain st where "trace (t_world (release_transport (logged ops) ?t)) = trace (t_world ?t) @ [Released st]"
    using release_transport_trace [of ops ?t] by blast
  with r show ?thesis
    by (intro exI [of _ rest] exI [of _ st]) (simp add: test_cleanup_def)
qed

text \<open>C2 Whatever the transport and the host do, the test sends nothing without the acknowledgement;
  with it, it acquires access, sends validated commands only, in the fixed order of the plan and
  for the requested page and the saved page only, at most one restoring MODE SELECT last, and
  releases access exactly once.\<close>

theorem test_1581_trace:
  "case m65_test_1581 (logged_host h) (Some (logged ops)) ack (Some r0) w of (code, report, w') \<Rightarrow>
     \<exists>r es. report = Some r \<and> code = tr_code r \<and> trace w' = trace w @ es \<and>
       (if ack then session_trace (test_plan (tr_requested r)) (select_plan (tr_original r)) es
        else es = [] \<and> code = PROBE_USAGE)"
proof (cases ack)
  case False
  then show ?thesis by (simp add: m65_test_1581_def test_1581_body_def Let_def)
next
  case True
  obtain code r w' where run: "m65_test_1581 (logged_host h) (Some (logged ops)) True (Some r0) w = (code, Some r, w')"
    by (cases "test_1581_body (logged_host h) (Some (logged ops)) True w") (auto simp: m65_test_1581_def)
  from run have "code = tr_code r \<and>
    (\<exists>es. trace w' = trace w @ es \<and> session_trace (test_plan (tr_requested r)) (select_plan (tr_original r)) es)"
  proof (cases rule: test_1581_cases)
    case (refused st)
    then show ?thesis by (auto simp: session_trace_def)
  next
    case (run w1 ok t)
    have saved: "tr_original_saved (t_report t) \<Longrightarrow> page_saved t"
      using run(2) by (auto simp: completed_def stopped_def saved_part_saved split: if_splits)
    have "sends (part_plan 7 (tr_requested (t_report t))) False w1 (t_world t)"
      using run(2) by (auto simp: completed_def stopped_def intro: sends_weaken split: if_splits)
    then obtain body where b: "trace (t_world t) = trace w1 @ body" "checked body"
      "prefix (requests body) (part_plan 7 (tr_requested (t_report t)))" by (auto simp: sends_def)
    obtain rest st where c: "trace w' = trace (t_world t) @ rest @ [Released st]" "checked rest"
      "prefix (requests rest) (if t_restore_needed t \<and> tr_original_saved (t_report t)
        then select_plan (tr_original (t_report t)) else [])"
      using cleanup_sends [OF saved, of h ops] run(4) by blast
    have r: "tr_requested r = tr_requested (t_report t)" "tr_original r = tr_original (t_report t)"
      using cleanup_saved [of "logged_host h" "logged ops" t] run(3) by simp_all
    have "prefix (requests rest) (select_plan (tr_original r))" using c(3) r by (auto split: if_splits)
    moreover have "trace w' = trace w @ Acquired TRANSPORT_OK # body @ rest @ [Released st]"
      using run(1) b(1) c(1) by simp
    ultimately show ?thesis using b c(2) r run(5)
      unfolding session_trace_def test_plan_part
      by (intro conjI exI [of _ "Acquired TRANSPORT_OK # body @ rest @ [Released st]"] disjI2 exI [of _ body]
          exI [of _ rest] exI [of _ st]) simp_all
  qed
  with run True show ?thesis by auto
qed

lemma sends_no_write:
  assumes "sends plan False w w'" and "list_all (\<lambda>r. fst (snd r) \<noteq> DATA_OUT) plan"
  shows "writes_of (trace w') = writes_of (trace w)"
proof -
  obtain es where es: "trace w' = trace w @ es" "prefix (requests es) plan"
    using assms(1) by (auto simp: sends_def)
  then have "\<forall>r \<in> set (requests es). fst (snd r) \<noteq> DATA_OUT"
    using assms(2) by (auto simp: list_all_iff prefix_def)
  then have "writes_of es = []" by (simp add: writes_requests filter_empty_conv)
  with es show ?thesis by simp
qed

text \<open>Where the stages or the commands \<open>rest\<close> of the clean-up wrote to the controller, the request was made
  and differs from the saved page.\<close>

lemma write_means_request:
  assumes stage: "if ok then completed w1 t else stopped w1 t"
    and rest: "prefix (requests rest) (if t_restore_needed t \<and> tr_original_saved (t_report t)
        then select_plan (tr_original (t_report t)) else [])"
    and written: "writes_of (trace (t_world t)) \<noteq> writes_of (trace w1) \<or> writes_of rest \<noteq> []"
  shows "t_restore_needed t" "request_made t" "page_saved t" "select_plan (mp_flexible (t_original_mode t)) \<noteq> []"
proof -
  show needed: "t_restore_needed t"
  proof (rule ccontr)
    assume n: "\<not> t_restore_needed t"
    then have "sends sense_plans False w1 (t_world t)"
      using stage by (auto simp: completed_def stopped_def split: if_splits)
    from sends_no_write [OF this] have "writes_of (trace (t_world t)) = writes_of (trace w1)"
      by (simp add: sense_plans_def sense_plan_def plan_of_def)
    moreover have "writes_of rest = []" using rest n by (simp add: writes_requests)
    ultimately show False using written by simp
  qed
  show made: "request_made t"
    using stage needed by (auto simp: completed_def stopped_def split: if_splits)
  show saved: "page_saved t" using made by (simp add: saved_part_saved)
  let ?p = "mp_flexible (t_original_mode t)" and ?r = "t_report t"
  show "select_plan ?p \<noteq> []"
  proof
    assume "select_plan ?p = []"
    then have o: "select_plan (tr_original ?r) = []" using select_plan_page [of ?p "tr_original ?r"] saved
      by (simp add: page_saved_def)
    then have "select_plan (tr_requested ?r) = []"
      using made select_plan_requested [of "tr_original ?r"] saved by (simp add: request_made_def page_saved_def)
    then have "list_all (\<lambda>r. fst (snd r) \<noteq> DATA_OUT) (part_plan 7 (tr_requested ?r))"
      by (simp add: part_plan_Suc image_plan_def read_plan_def sense_plan_def plan_of_def list_all_iff)
    moreover have "sends (part_plan 7 (tr_requested ?r)) False w1 (t_world t)"
      using stage by (auto simp: completed_def stopped_def intro: sends_weaken split: if_splits)
    ultimately have "writes_of (trace (t_world t)) = writes_of (trace w1)" using sends_no_write by blast
    moreover have "writes_of rest = []" using rest o by (simp add: writes_requests split: if_splits)
    ultimately show False using written by simp
  qed
qed

lemma restores_logged:
  assumes signals: "signals_during_commands h"
    and run: "m65_test_1581 (logged_host h) (Some (logged ops)) True (Some r0) w = (code, Some r, w')"
    and written: "writes_of (trace w') \<noteq> writes_of (trace w)"
  shows "\<exists>before c result st. trace w' = before @ [Executed c result, Released st] \<and>
     [request_of c] = select_plan (tr_original r) \<and> c_direction c = DATA_OUT \<and>
     (tr_controller_restored r \<longleftrightarrow> command_good result) \<and>
     (if command_good result then True else code \<noteq> PROBE_OK \<and> tr_status r = STATUS_INCONCLUSIVE)"
  using run
proof (cases rule: test_1581_cases)
  case (refused st)
  with written show ?thesis by simp
next
  case (run w1 ok t)
  have saved: "tr_original_saved (t_report t) \<Longrightarrow> page_saved t"
    using run(2) by (auto simp: completed_def stopped_def saved_part_saved split: if_splits)
  let ?h = "logged_host h" and ?ops = "logged ops"
  have not_yet: "\<not> tr_controller_restored (t_report t)"
    using run(2) by (auto simp: completed_def stopped_def split: if_splits)
  have w1: "writes_of (trace w1) = writes_of (trace w)" using run(1) by simp
  obtain rest st where c: "trace w' = trace (t_world t) @ rest @ [Released st]"
      "prefix (requests rest) (if t_restore_needed t \<and> tr_original_saved (t_report t)
        then select_plan (tr_original (t_report t)) else [])"
    using cleanup_sends [OF saved, of h ops] run(4) by blast
  have "writes_of (trace (t_world t)) \<noteq> writes_of (trace w1) \<or> writes_of rest \<noteq> []"
    using written c(1) w1 by auto
  note request = write_means_request [OF run(2) c(2) this]
  have os: "tr_original_saved (t_report t)" using request(2) by (simp add: saved_part_saved)
  let ?p = "mp_flexible (t_original_mode t)"
  have p: "flexible_wf ?p" "fp_page ?p = fp_page (tr_original (t_report t))"
    using request(3) by (simp_all add: page_saved_def)
  obtain res w2 where ms: "mode_select ?h ?ops ?p (m65_probe_clear_interrupt ?h (t_world t)) = (res, w2)" by force
  obtain c where sent: "trace w2 = trace (t_world t) @ [Executed c res]" "[request_of c] = select_plan ?p"
    "c_direction c = DATA_OUT"
    using mode_select_sent [OF ms p(1) request(4) signals] by blast
  let ?t = "restore_original ?h ?ops t"
  have t: "t_world ?t = w2" "tr_controller_restored (t_report ?t) = command_good res"
    using request(1) os ms not_yet by (auto simp: restore_original_def restore_failure_def Let_def)
  obtain st where "trace (t_world (release_transport ?ops ?t)) = trace (t_world ?t) @ [Released st]"
    using release_transport_trace [of ops ?t] by blast
  then have tr: "trace w' = trace (t_world t) @ [Executed c res, Released st]"
    using run(4) t(1) sent(1) by (simp add: test_cleanup_def)
  have restored: "tr_controller_restored r = command_good res"
    using run(3) t(2) release_transport_frame(2) [of ?ops ?t] by (simp add: test_cleanup_def)
  have "if command_good res then True else code \<noteq> PROBE_OK \<and> tr_status r = STATUS_INCONCLUSIVE"
    using not_restored_outcome [OF request(1) os, of ?h ?ops] restored run(3,5) by simp
  moreover have "[request_of c] = select_plan (tr_original r)"
    using sent(2) select_plan_page [OF p(2)] cleanup_saved [of ?h ?ops t] run(3) by simp
  ultimately show ?thesis using tr restored sent(3) by blast
qed

text \<open>C1 Once anything was written to the controller, the last command before the release is the
  MODE SELECT of the saved page, whatever failed in between, and the report says truthfully whether
  it succeeded; signals may arrive during any transport operation, not between the clean-up's
  clearing of the interrupt flag and its check.\<close>

theorem test_1581_restores:
  assumes signals: "signals_during_commands h"
    and run: "m65_test_1581 (logged_host h) (Some (logged ops)) True (Some r0) w = (code, Some r, w')"
    and written: "writes_of (trace w') \<noteq> writes_of (trace w)"
  shows "\<exists>before c result st. trace w' = before @ [Executed c result, Released st] \<and>
     [request_of c] = select_plan (tr_original r) \<and> c_direction c = DATA_OUT \<and>
     (tr_controller_restored r \<longleftrightarrow> command_good result) \<and>
     (if command_good result then True else code \<noteq> PROBE_OK \<and> tr_status r = STATUS_INCONCLUSIVE)"
  by (rule restores_logged [OF assms])

lemma supported_written:
  assumes "m65_test_1581 (logged_host h) (Some (logged ops)) True (Some r0) w = (PROBE_OK, Some r, w')"
  shows "writes_of (trace w') \<noteq> writes_of (trace w)"
  using assms
proof (cases rule: test_1581_cases)
  case (refused st)
  then show ?thesis by (simp add: acquire_failed_def)
next
  case (run w1 ok t)
  let ?h = "logged_host h" and ?ops = "logged ops"
  have "ok"
  proof (rule ccontr)
    assume "\<not> ok"
    with run(2) have s: "tr_code (t_report t) \<noteq> PROBE_OK" by (simp add: stopped_def)
    then show False
      using run(3,5) restore_outcome [of ?h ?ops t] release_outcome [of ?ops "restore_original ?h ?ops t"]
      by (auto simp: test_cleanup_def)
  qed
  with run(2) have c: "completed w1 t" by simp
  let ?p = "part_plan 7 (tr_requested (t_report t))"
  obtain es where es: "trace (t_world t) = trace w1 @ es" "requests es = ?p"
    using c by (auto simp: completed_def sends_def)
  obtain d where "select_plan (tr_requested (t_report t)) = [d]" "fst (snd d) = DATA_OUT"
    using c by (auto simp: completed_def select_plan_def plan_of_def split: sum.splits)
  then have "writes_of es \<noteq> []"
    by (simp add: writes_requests es(2) part_plan_Suc)
  moreover obtain rest where "trace w' = trace (t_world t) @ rest"
    using cleanup_sends [of t h ops] c run(4) by (auto simp: completed_def saved_part_saved)
  ultimately show ?thesis using run(1) es(1) by simp
qed

theorem test_1581_restores_witness:
  "\<exists>r w' before c result st.
     m65_test_1581 (logged_host fake_host) (Some (logged fake_ops)) True (Some zero_report_1581) logged_fresh =
       (PROBE_OK, Some r, w') \<and>
     trace w' = before @ [Executed c result, Released st] \<and> c_direction c = DATA_OUT"
proof -
  obtain r w' where run: "m65_test_1581 (logged_host fake_host) (Some (logged fake_ops)) True
      (Some zero_report_1581) logged_fresh = (PROBE_OK, Some r, w')"
    using logged_fresh_run by blast
  have signals: "signals_during_commands fake_host"
    by (simp add: signals_during_commands_def fake_host_def)
  have "writes_of (trace w') \<noteq> writes_of (trace logged_fresh)" by (rule supported_written [OF run])
  from test_1581_restores [OF signals run this] run show ?thesis by blast
qed

end
