(* ===== verification/M65_InspectProps.thy ===== *)
theory M65_InspectProps
  imports M65_ProbeTrace
begin

text \<open>
  The inspection (\<open>m65_inspect\<close> in \<open>src/probe.c\<close>) sends six fixed requests and writes nothing.
\<close>

section \<open>The inspection sequence\<close>

definition inspect_plan :: "request list" where
  "inspect_plan =
     [plan_of (m65_cdb_inquiry 96) DATA_IN None, plan_of m65_cdb_test_unit_ready DATA_NONE None,
      plan_of m65_cdb_read_capacity_10 DATA_IN None,
      plan_of (m65_cdb_read_format_capacities 252) DATA_IN None,
      sense_plan False, sense_plan True]"

lemma inspect_input_sends:
  assumes "inspect_input (logged_host h) (logged ops) operation cdb b rep w = (n, b', rep', w')"
    and "snd cdb \<le> 16" "length (fst cdb) = 16"
  shows "sends [plan_of cdb DATA_IN None] (n \<noteq> None) w w'" and "length b' = length b"
    and "n = Some k \<Longrightarrow> k \<le> length b" and "n \<noteq> None \<Longrightarrow> rep' = rep"
    and "n = None \<Longrightarrow> ir_code rep' \<noteq> PROBE_OK"
proof -
  obtain r b1 w1 where e: "execute_simple (logged_host h) (logged ops) cdb DATA_IN (Some b) (length b) w = (r, b1, w1)"
    by (metis prod_cases3)
  have s: "sends [plan_of cdb DATA_IN None] (command_good r) w w1"
    using execute_simple_sends [OF e assms(2,3)] by (simp add: plan_of_in)
  have i: "w' = w1" "b' = b1" "n \<noteq> None \<longrightarrow> command_good r \<and> rep' = rep"
    "n = Some k \<longrightarrow> k \<le> length b1" "n = None \<longrightarrow> ir_code rep' \<noteq> PROBE_OK"
    using assms(1) e
    by (auto simp: inspect_input_def Let_def inspect_failure_def copy_command_failure_def
        code_for_transport_def split: if_splits transport_status.splits)
  show "sends [plan_of cdb DATA_IN None] (n \<noteq> None) w w'"
    unfolding i(1) by (rule sends_weaken [OF s]) (use i(3) in simp)
  show "length b' = length b" using length_execute_simple [OF e] i(2) by simp
  then show "n = Some k \<Longrightarrow> k \<le> length b" "n \<noteq> None \<Longrightarrow> rep' = rep" "n = None \<Longrightarrow> ir_code rep' \<noteq> PROBE_OK"
    using i by auto
qed

text \<open>A stage sends its request; where it stops, the report has a failure code.\<close>

definition inspects :: "request \<Rightarrow> (('s \<times> event list) inspect_run \<Rightarrow> bool \<times> ('s \<times> event list) inspect_run) \<Rightarrow> bool" where
  "inspects r stage \<longleftrightarrow>
     (\<forall>t ok t'. stage t = (ok, t') \<longrightarrow>
        sends [r] ok (snd t) (snd t') \<and> (ok \<or> ir_code (fst t') \<noteq> PROBE_OK))"

lemma inspect_stop_code: "inspect_stop rep w = (ok, t') \<Longrightarrow> \<not> ok \<and> snd t' = w \<and> ir_code (fst t') \<noteq> PROBE_OK"
  by (auto simp: inspect_stop_def split: if_splits)

lemma inspects_input:
  assumes "\<And>rep w. stage (rep, w) =
      (case inspect_input (logged_host h) (logged ops) operation cdb b rep w of
         (None, _, report, w) \<Rightarrow> inspect_stop report w
       | (Some transferred, data, report, w) \<Rightarrow>
           (case parse data transferred report of
              Inl failed_report \<Rightarrow> inspect_stop failed_report w
            | Inr report \<Rightarrow> (True, report, w)))"
    and "snd cdb \<le> 16" "length (fst cdb) = 16"
  shows "inspects (plan_of cdb DATA_IN None) stage"
  unfolding inspects_def
proof (intro allI impI)
  fix t ok t' assume s: "stage t = (ok, t')"
  obtain rep w where t: "t = (rep, w)" by force
  obtain n b' rep' w' where i: "inspect_input (logged_host h) (logged ops) operation cdb b rep w = (n, b', rep', w')"
    by (metis prod_cases4)
  note I = inspect_input_sends [OF i assms(2,3)]
  show "sends [plan_of cdb DATA_IN None] ok (snd t) (snd t') \<and> (ok \<or> ir_code (fst t') \<noteq> PROBE_OK)"
  proof (cases n)
    case None
    with s t i assms(1) have "inspect_stop rep' w' = (ok, t')" by simp
    from inspect_stop_code [OF this] I(1) t show ?thesis by (auto intro: sends_weaken)
  next
    case (Some k)
    show ?thesis
    proof (cases "parse b' k rep'")
      case (Inl fr)
      with Some s t i assms(1) have "inspect_stop fr w' = (ok, t')" by simp
      from inspect_stop_code [OF this] I(1) t show ?thesis by (auto intro: sends_weaken)
    next
      case (Inr fr)
      with Some s t i assms(1) I(1) show ?thesis by auto
    qed
  qed
qed

lemma inspects_stages: "list_all2 inspects inspect_plan (inspect_stages (logged_host h) (logged ops))"
proof -
  have ready: "inspects (plan_of m65_cdb_test_unit_ready DATA_NONE None) (inspect_unit_ready (logged_host h) (logged ops))"
    unfolding inspects_def
  proof (intro allI impI)
    fix t ok t' assume s: "inspect_unit_ready (logged_host h) (logged ops) t = (ok, t')"
    obtain rep w where t: "t = (rep, w)" by force
    obtain r b w' where e: "execute_simple (logged_host h) (logged ops) m65_cdb_test_unit_ready DATA_NONE None 0 w = (r, b, w')"
      by (metis prod_cases3)
    have "ok = command_good r" "snd t' = w'" "ok \<or> ir_code (fst t') \<noteq> PROBE_OK"
      using s t e by (auto simp: inspect_unit_ready_def inspect_failure_def copy_command_failure_def
          code_for_transport_def Let_def split: if_splits transport_status.splits)
    with execute_simple_sends [OF e] t
    show "sends [plan_of m65_cdb_test_unit_ready DATA_NONE None] ok (snd t) (snd t') \<and>
        (ok \<or> ir_code (fst t') \<noteq> PROBE_OK)" by simp
  qed
  have "inspects (plan_of (m65_cdb_inquiry 96) DATA_IN None) (inspect_inquiry (logged_host h) (logged ops))"
    by (rule inspects_input [where operation = "''INQUIRY''" and b = "zeroed 96" and h = h and ops = ops and
        parse = "\<lambda>d n r. map_sum (\<lambda>(detail, parsed). r\<lparr>ir_inquiry := parsed, ir_reason := error_text detail\<rparr>)
          (\<lambda>parsed. r\<lparr>ir_inquiry := parsed\<rparr>) (m65_parse_inquiry (Some d) n (ir_inquiry r))"])
      (auto simp: inspect_inquiry_def split: prod.splits option.splits sum.splits)
  moreover have "inspects (plan_of m65_cdb_read_capacity_10 DATA_IN None) (inspect_capacity (logged_host h) (logged ops))"
    by (rule inspects_input [where operation = "''READ CAPACITY (10)''" and b = "zeroed 8" and h = h and ops = ops and
        parse = "\<lambda>d n r. map_sum (\<lambda>(detail, parsed). r\<lparr>ir_capacity := parsed, ir_reason := error_text detail\<rparr>)
          (\<lambda>parsed. r\<lparr>ir_capacity := parsed\<rparr>) (m65_parse_read_capacity_10 (Some d) n (ir_capacity r))"])
      (auto simp: inspect_capacity_def split: prod.splits option.splits sum.splits)
  moreover have "inspects (plan_of (m65_cdb_read_format_capacities 252) DATA_IN None) (inspect_formats (logged_host h) (logged ops))"
    by (rule inspects_input [where operation = "''READ FORMAT CAPACITIES''" and b = "zeroed 252" and h = h and ops = ops and
        parse = "\<lambda>d n r. map_sum (\<lambda>(detail, parsed). r\<lparr>ir_format_capacities := parsed, ir_reason := error_text detail\<rparr>)
          (\<lambda>parsed. r\<lparr>ir_format_capacities := parsed\<rparr>)
          (m65_parse_format_capacities (Some d) n (ir_format_capacities r))"])
      (auto simp: inspect_formats_def split: prod.splits option.splits sum.splits)
  moreover have "inspects (sense_plan False) (inspect_current_mode (logged_host h) (logged ops))"
    unfolding sense_plan_def
    by (rule inspects_input [where operation = "''MODE SENSE current''" and b = "zeroed 256" and h = h and ops = ops and
        parse = "\<lambda>d n r. map_sum (\<lambda>(detail, parsed). r\<lparr>ir_current_mode := parsed, ir_reason := error_text detail\<rparr>)
          (\<lambda>parsed. r\<lparr>ir_current_mode := parsed\<rparr>) (m65_parse_mode_parameters (Some d) n (ir_current_mode r))"])
      (auto simp: inspect_current_mode_def split: prod.splits option.splits sum.splits)
  moreover have "inspects (sense_plan True) (inspect_changeable_mode (logged_host h) (logged ops))"
    unfolding sense_plan_def
    by (rule inspects_input [where operation = "''MODE SENSE changeable''" and b = "zeroed 256" and h = h and ops = ops and
        parse = "\<lambda>d n r. map_sum (\<lambda>(detail, parsed). r\<lparr>ir_changeable_mode := parsed, ir_reason := error_text detail\<rparr>)
          (\<lambda>parsed. r\<lparr>ir_changeable_mode := parsed, ir_current_mode := (ir_current_mode r)
             \<lparr>mp_flexible := m65_apply_changeability (mp_flexible (ir_current_mode r)) (mp_flexible parsed)\<rparr>\<rparr>)
          (m65_parse_mode_parameters (Some d) n (ir_changeable_mode r))"])
      (auto simp: inspect_changeable_mode_def split: prod.splits option.splits sum.splits)
  ultimately show ?thesis using ready by (simp add: inspect_plan_def inspect_stages_def)
qed

lemma inspects_run:
  "list_all2 inspects plan stages \<Longrightarrow> run_stages stages t = (ok, t') \<Longrightarrow>
     sends plan ok (snd t) (snd t') \<and> (ok \<or> ir_code (fst t') \<noteq> PROBE_OK)"
proof (induction plan stages arbitrary: t rule: list_all2_induct)
  case Nil
  then show ?case by (auto simp: sends_refl)
next
  case (Cons r rs stage stages)
  obtain ok1 t1 where s: "stage t = (ok1, t1)" by (cases "stage t")
  with Cons.hyps(1) have i: "sends [r] ok1 (snd t) (snd t1)" "ok1 \<or> ir_code (fst t1) \<noteq> PROBE_OK"
    unfolding inspects_def by blast+
  show ?case
  proof (cases ok1)
    case True
    with Cons.prems s have "run_stages stages t1 = (ok, t')" by simp
    from Cons.IH [OF this] i True sends_trans [of "[r]" "snd t" "snd t1" rs ok "snd t'"] show ?thesis by simp
  next
    case False
    with Cons.prems s i sends_stop [of "[r]" "snd t" "snd t1" rs] show ?thesis by auto
  qed
qed

text \<open>An inspection ends without exclusive access, or with the release after its stages.\<close>

lemma m65_inspect_cases:
  assumes "m65_inspect (logged_host h) (Some (logged ops)) (Some r0) w = (code, report, w')"
  obtains (refused) r st where "report = Some r" "code = ir_code r" "code \<noteq> PROBE_OK"
      "trace w' = trace w @ [Acquired st]" "st \<noteq> TRANSPORT_OK"
  | (run) r body rel where "report = Some r" "code = ir_code r"
      "trace w' = trace w @ Acquired TRANSPORT_OK # body @ [Released rel]"
      "checked body" "prefix (requests body) inspect_plan"
      "code = PROBE_OK \<longrightarrow> requests body = inspect_plan \<and> rel = TRANSPORT_OK"
proof -
  let ?h = "logged_host h" and ?ops = "logged ops"
  let ?w = "m65_probe_clear_interrupt ?h w"
  obtain st d sl where a: "acquire_exclusive ?ops (ir_reason zero_inspect_report) (w_state ?w) = (st, d, sl)"
    by (metis prod_cases3)
  let ?w1 = "?w\<lparr>w_state := sl\<rparr>"
  have tr1: "trace ?w1 = trace w @ [Acquired st]"
    using a trace_clear [of h w] by (auto simp: logged_acquire trace_def Let_def split: prod.splits)
  let ?r = "zero_inspect_report\<lparr>ir_code := PROBE_TRANSPORT, ir_reason := error_text d\<rparr>"
  show thesis
  proof (cases "st = TRANSPORT_OK")
    case False
    then show thesis using assms a tr1 refused
      by (auto simp: m65_inspect_def inspect_body_def Let_def code_for_transport_def split: transport_status.splits)
  next
    case True
    obtain ok r w2 where rs: "run_stages (inspect_stages ?h ?ops) (?r, ?w1) = (ok, r, w2)"
      by (metis prod_cases3)
    define fin where "fin = (if ok then r\<lparr>ir_code := PROBE_OK, ir_reason := reason_set ''inspection completed''\<rparr> else r)"
    obtain rep w3 where c: "inspect_cleanup ?ops (fin, w2) = (rep, w3)" by force
    have m: "report = Some rep" "code = ir_code rep" "w' = w3"
      using assms a rs True c by (simp_all add: m65_inspect_def inspect_body_def Let_def fin_def)
    obtain rel d2 sl2 where rl: "release_exclusive ?ops [] (w_state w2) = (rel, d2, sl2)" by (metis prod_cases3)
    have "trace w3 = trace w2 @ [Released rel]"
      using c rl by (auto simp: inspect_cleanup_def logged_release trace_def Let_def split: prod.splits if_splits)
    moreover have ran: "sends inspect_plan ok ?w1 w2 \<and> (ok \<or> ir_code r \<noteq> PROBE_OK)"
      using inspects_run [OF inspects_stages rs] by simp
    then obtain body where b: "trace w2 = trace ?w1 @ body" "checked body" "prefix (requests body) inspect_plan"
        "ok \<longrightarrow> requests body = inspect_plan" by (auto simp: sends_def)
    moreover have "code = PROBE_OK \<longrightarrow> ok \<and> rel = TRANSPORT_OK"
      using c rl ran m by (auto simp: inspect_cleanup_def Let_def fin_def code_for_transport_def
          split: if_splits transport_status.splits)
    ultimately show thesis using run [OF m(1,2), of body rel] m(3) tr1 True by simp
  qed
qed

lemma inspect_plan_reads: "prefix (requests es) inspect_plan \<Longrightarrow> writes_of es = []"
proof -
  assume "prefix (requests es) inspect_plan"
  moreover have "\<forall>r \<in> set inspect_plan. fst (snd r) \<noteq> DATA_OUT"
    by (simp add: inspect_plan_def sense_plan_def plan_of_def)
  ultimately have "\<forall>r \<in> set (requests es). fst (snd r) \<noteq> DATA_OUT"
    by (metis Un_iff prefix_def set_append)
  then show ?thesis by (simp add: writes_requests filter_empty_conv)
qed

text \<open>C11 Whatever the transport and the host do, an inspection sends a prefix of its six fixed
  requests, none of which carries data to the device, between one acquisition and one release; it
  reports OK only when all six were sent and the release succeeded.\<close>

theorem inspect_trace:
  "case m65_inspect (logged_host h) (Some (logged ops)) (Some r0) w of (code, report, w') \<Rightarrow>
     \<exists>r es. report = Some r \<and> code = ir_code r \<and> trace w' = trace w @ es \<and>
       session_trace inspect_plan [] es \<and> writes_of es = [] \<and>
       (if code = PROBE_OK then requests es = inspect_plan \<and> last es = Released TRANSPORT_OK else True)"
proof -
  obtain code report w' where m: "m65_inspect (logged_host h) (Some (logged ops)) (Some r0) w = (code, report, w')"
    using prod_cases3 by blast
  then show ?thesis
  proof (cases rule: m65_inspect_cases)
    case (refused r st)
    then show ?thesis using m by (auto simp: session_trace_def)
  next
    case (run r body rel)
    have "session_trace inspect_plan [] (Acquired TRANSPORT_OK # body @ [] @ [Released rel])"
      unfolding session_trace_def using run(4,5)
      by (intro disjI2 exI [of _ body] exI [of _ "[]"] exI [of _ rel]) simp
    then show ?thesis using m run inspect_plan_reads [OF run(5)]
      by (auto intro!: exI [of _ "Acquired TRANSPORT_OK # body @ [Released rel]"])
  qed
qed

end
