(* ===== verification/M65_LateSignal.thy ===== *)
theory M65_LateSignal
  imports M65_TestBasis
begin

text \<open>
  A concrete run of the 1581 test in which a second signal suppresses the restoration
  (\<open>src/probe.c\<close>, the clean-up of \<open>m65_test_1581\<close>).
\<close>

section \<open>A signal in the clean-up\<close>

text \<open>A host that delivers a signal at every access to the flag once the third MODE SENSE, the
  verification, has run: one at the clean-up's clearing of the flag and one at its next check.\<close>

definition late_host :: "fake_transport host" where
  "late_host = fake_host\<lparr>h_signals := (\<lambda>s. (f_opcode_counts s 0x5a \<ge> 3, s))\<rparr>"

definition early :: "fake_transport world \<Rightarrow> bool" where
  "early w \<longleftrightarrow> quiet w \<and> f_opcode_counts (w_state w) 0x5a < 3"

lemma early_read:
  assumes "early w"
  shows "read_interrupted late_host w = read_interrupted fake_host w"
  using assms read_quiet [of w]
  by (cases w) (simp add: early_def quiet_def read_interrupted_def deliver_signals_def late_host_def)

lemma early_execute:
  assumes "early w"
  shows "execute_simple late_host fake_ops cdb dir d n w = execute_simple fake_host fake_ops cdb dir d n w"
  by (simp add: execute_simple_def execute_checked_def early_read [OF assms] split: sum.split)

lemma early_mode_sense:
  "early w \<Longrightarrow> mode_sense late_host fake_ops ch p w = mode_sense fake_host fake_ops ch p w"
  by (simp add: mode_sense_def early_execute)

lemma early_mode_select:
  "early w \<Longrightarrow> mode_select late_host fake_ops p w = mode_select fake_host fake_ops p w"
  by (simp add: mode_select_def early_execute split: sum.split)

text \<open>The controller of the tests that accepts the geometry with a wrong head count.\<close>

definition wrong_world :: "fake_transport world" where
  "wrong_world = \<lparr>w_interrupted = False, w_state = fake_transport_init\<lparr>f_accept_wrong_geometry := True\<rparr>\<rparr>"

lemma one_head_wf:
  assumes "flexible_wf q"
  shows "flexible_wf (q\<lparr>fp_heads := 1, fp_page := (fp_page q)[4 := 1]\<rparr>)"
  using assms unfolding flexible_wf_def be16_at_eq by auto

section \<open>The run up to the clean-up\<close>

abbreviation late_request :: flexible_disk_page where
  "late_request \<equiv> request_for initial_structure mask_structure"

definition late_page :: bytes where
  "late_page = (fp_page late_request)[4 := 1]"

lemma late_structures:
  "flexible_wf initial_structure" "fp_page initial_structure ! 0 = 5" "fp_page initial_structure ! 1 = 30"
  "flexible_wf mask_structure" "fp_page mask_structure ! 1 = 30"
  "f_current_page fake_transport_init = fp_page initial_structure"
  "f_mask_page fake_transport_init = fp_page mask_structure"
  using fake_init_conforming by (simp_all add: conforming_def)

lemma late_original:
  "f_original_page fake_transport_init = fp_page initial_structure" "f_opcode_counts fake_transport_init = (\<lambda>_. 0)"
  "f_mode_select_count fake_transport_init = 0" "f_acquire_count fake_transport_init = 0"
  by (simp_all add: initial_structure_def fake_transport_init_def fake_transport_set_all_geometry_changeable_def Let_def)

lemmas late_request_facts = conforming_request [OF fake_init_conforming]

lemma late_request_sectors: "fp_page late_request ! 5 \<noteq> fp_page initial_structure ! 5"
proof -
  have len: "length (fp_page initial_structure) = 32" using late_structures(1) by (simp add: flexible_wf_def)
  have "fp_page late_request ! 5 = 10"
    using late_structures len unfolding late_request_facts(1) by (simp add: set_1581_page_eq)
  then show ?thesis
    using late_structures by (simp add: flexible_wf_def) (simp add: initial_structure_def)
qed

lemma late_page_other: "late_page \<noteq> fp_page initial_structure"
proof -
  have "late_page ! 5 = fp_page late_request ! 5" by (simp add: late_page_def)
  then show ?thesis using late_request_sectors by auto
qed

text \<open>The world after the acquisition, and after each of the four mode commands.\<close>

definition late_start :: "fake_transport world" where
  "late_start = wrong_world\<lparr>w_state := (w_state wrong_world)\<lparr>f_acquire_count := 1, f_acquired := True\<rparr>\<rparr>"

definition sensed :: "fake_transport world \<Rightarrow> fake_transport world" where
  "sensed w = w\<lparr>w_state := counted 0x5a (w_state w)\<rparr>"

definition changed :: "fake_transport world \<Rightarrow> fake_transport world" where
  "changed w = w\<lparr>w_state := (counted 0x55 (w_state w))\<lparr>f_mode_select_count := 1, f_current_page := late_page\<rparr>\<rparr>"

definition late_end :: "fake_transport world" where
  "late_end = sensed (changed (sensed (sensed late_start)))"

lemma sensed_sel [simp]:
  "quiet (sensed w) = quiet w" "f_opcode_counts (w_state (sensed w)) 0x5a = f_opcode_counts (w_state w) 0x5a + 1"
  "f_current_page (w_state (sensed w)) = f_current_page (w_state w)"
  "f_mask_page (w_state (sensed w)) = f_mask_page (w_state w)"
  "f_original_page (w_state (sensed w)) = f_original_page (w_state w)"
  "f_accept_wrong_geometry (w_state (sensed w)) = f_accept_wrong_geometry (w_state w)"
  "f_mode_select_count (w_state (sensed w)) = f_mode_select_count (w_state w)"
  "f_release_status (w_state (sensed w)) = f_release_status (w_state w)"
  "w_interrupted (sensed w) = w_interrupted w"
  by (simp_all add: sensed_def quiet_def counted_def)

lemma changed_sel [simp]:
  "quiet (changed w) = quiet w" "f_opcode_counts (w_state (changed w)) 0x5a = f_opcode_counts (w_state w) 0x5a"
  "f_current_page (w_state (changed w)) = late_page" "f_mode_select_count (w_state (changed w)) = 1"
  "f_original_page (w_state (changed w)) = f_original_page (w_state w)"
  "f_release_status (w_state (changed w)) = f_release_status (w_state w)"
  "w_interrupted (changed w) = w_interrupted w"
  by (simp_all add: changed_def quiet_def counted_def)

lemma late_start_sel [simp]:
  "quiet late_start" "f_opcode_counts (w_state late_start) 0x5a = 0"
  "f_current_page (w_state late_start) = fp_page initial_structure"
  "f_mask_page (w_state late_start) = fp_page mask_structure"
  "f_original_page (w_state late_start) = fp_page initial_structure"
  "f_accept_wrong_geometry (w_state late_start)" "f_mode_select_count (w_state late_start) = 0"
  "f_release_status (w_state late_start) = TRANSPORT_OK" "\<not> w_interrupted late_start"
  using fake_init_conforming late_original
  by (simp_all add: late_start_def wrong_world_def quiet_def conforming_def)

lemma late_sense:
  assumes "early w" "flexible_wf p" "fp_page p ! 1 = 30"
    and "(if ch then f_mask_page (w_state w) else f_current_page (w_state w)) = fp_page p"
  obtains m where "mode_sense late_host fake_ops ch zero_mode w = (zero_result\<lparr>r_transferred := 40\<rparr>, m, sensed w)"
    "mp_flexible m = bare p"
proof -
  have q: "quiet w" using assms(1) by (simp add: early_def)
  from mode_sense_quiet [OF q assms(2,3) assms(4) [symmetric], of zero_mode] that show thesis
    unfolding early_mode_sense [OF assms(1)] sensed_def by blast
qed

lemma late_select:
  "mode_select late_host fake_ops late_request (sensed (sensed late_start)) =
     (zero_result\<lparr>r_transferred := 40\<rparr>, changed (sensed (sensed late_start)))"
proof -
  let ?w = "sensed (sensed late_start)"
  have "5 # drop 1 (fp_page late_request) = fp_page late_request"
    using page_head [of "fp_page late_request"] late_request_facts(2-4) by (simp add: flexible_wf_def)
  moreover have "fp_page late_request \<noteq> fp_page initial_structure" using late_request_sectors by auto
  moreover have "early ?w" by (simp add: early_def)
  ultimately show ?thesis
    using mode_select_quiet [of ?w late_request] late_request_facts(2,4) early_mode_select [of ?w late_request]
    by (simp add: changed_def late_page_def)
qed

text \<open>The verification finds a wrong head count, and the stages stop with a restoration pending.\<close>

lemma late_stages:
  obtains t where "run_stages (test_stages late_host fake_ops) (start_run late_host
      ((initial_report True)\<lparr>tr_reason := error_text [], tr_exclusive_acquired := True\<rparr>) late_start) = (False, t)"
    "t_world t = late_end" "t_restore_needed t" "tr_original_saved (t_report t)"
    "mp_flexible (t_original_mode t) = bare initial_structure"
    "tr_controller_changed (t_report t)" "\<not> tr_controller_restored (t_report t)"
proof -
  let ?w1 = "sensed late_start" and ?k = "late_request\<lparr>fp_heads := 1, fp_page := late_page\<rparr>"
  let ?w3 = "changed (sensed ?w1)"
  obtain m1 where s1: "mode_sense late_host fake_ops False zero_mode late_start =
      (zero_result\<lparr>r_transferred := 40\<rparr>, m1, ?w1)" "mp_flexible m1 = bare initial_structure"
    by (rule late_sense [of late_start initial_structure False]) (simp_all add: early_def late_structures del: One_nat_def)
  obtain m2 where s2: "mode_sense late_host fake_ops True zero_mode ?w1 =
      (zero_result\<lparr>r_transferred := 40\<rparr>, m2, sensed ?w1)" "mp_flexible m2 = bare mask_structure"
    by (rule late_sense [of ?w1 mask_structure True]) (simp_all add: early_def late_structures del: One_nat_def)
  have k: "flexible_wf ?k" "late_page ! 1 = 30"
    using one_head_wf [OF late_request_facts(2)] late_request_facts(4) by (simp_all add: late_page_def)
  obtain m4 where s4: "mode_sense late_host fake_ops False zero_mode ?w3 =
      (zero_result\<lparr>r_transferred := 40\<rparr>, m4, late_end)" "mp_flexible m4 = bare ?k"
    by (rule late_sense [of ?w3 ?k False]) (simp_all add: early_def k late_end_def del: One_nat_def)
  have bad: "\<not> m65_geometry_is_1581 (mp_flexible m4)" by (simp add: s4(2) m65_geometry_is_1581_def)
  define st where "st = start_run late_host
      ((initial_report True)\<lparr>tr_reason := error_text [], tr_exclusive_acquired := True\<rparr>) late_start"
  have start: "t_world st = late_start" "t_original_mode st = zero_mode" "t_changeable_mode st = zero_mode"
    "t_readback_mode st = zero_mode" "\<not> tr_controller_restored (t_report st)"
    by (simp_all add: st_def start_run_def initial_report_def zero_report_1581_def)
  show thesis
    using that [unfolded st_def [symmetric]] s1 s2 late_select [unfolded request_for_def] s4(1) bad
      late_request_facts(5) [unfolded request_for_def]
    by (simp add: test_stages_def save_original_def read_changeable_def select_requested_def
        verify_accepted_def update_report_def Let_def start)
qed

section \<open>The clean-up\<close>

lemma late_end_sel [simp]:
  "f_opcode_counts (w_state late_end) 0x5a = 3" "f_current_page (w_state late_end) = late_page"
  "f_original_page (w_state late_end) = fp_page initial_structure" "f_mode_select_count (w_state late_end) = 1"
  "f_release_status (w_state late_end) = TRANSPORT_OK" "\<not> w_interrupted late_end"
  by (simp_all add: late_end_def)

lemma late_mode_select:
  "mode_select late_host fake_ops (bare initial_structure) late_end =
     (zero_result\<lparr>r_transport_status := TRANSPORT_IO, r_detail := reason_set ''operation interrupted''\<rparr>,
      late_end\<lparr>w_interrupted := True\<rparr>)"
proof -
  have f: "flexible_wf (bare initial_structure)" "fp_page (bare initial_structure) ! 1 = 30"
    using late_structures by (simp_all add: flexible_wf_def)
  obtain d where d: "m65_build_mode_select_payload (bare initial_structure) 40 = Inr d" "length d = 40"
      "m65_validate_command (simple_command (m65_cdb_mode_select_10 40) DATA_OUT (Some d) 40) = Inr ()"
    using select_payload_valid [OF f] by blast
  have "read_interrupted late_host late_end = (True, late_end\<lparr>w_interrupted := True\<rparr>)"
    by (simp add: read_interrupted_def deliver_signals_def late_host_def m65_probe_request_interrupt_def Let_def)
  with d show ?thesis by (simp add: mode_select_def execute_simple_def execute_checked_def)
qed

lemma late_clear: "m65_probe_clear_interrupt late_host late_end = late_end"
  by (cases "late_end") (use late_end_sel(1,6) in \<open>simp add: m65_probe_clear_interrupt_def deliver_signals_def
    late_host_def m65_probe_request_interrupt_def\<close>)

text \<open>C40 A signal between the clean-up's clearing of the interrupt flag and the check before its
  MODE SELECT suppresses the restoration: the controller keeps the changed page although the
  comment in the clean-up says an interrupt never does that; the report says so truthfully.\<close>

theorem late_signal_suppresses_restoration:
  "\<exists>r w'. m65_test_1581 late_host (Some fake_ops) True (Some zero_report_1581) wrong_world =
      (PROBE_TRANSPORT, Some r, w') \<and>
    tr_controller_changed r \<and> \<not> tr_controller_restored r \<and> tr_status r = STATUS_INCONCLUSIVE \<and>
    f_mode_select_count (w_state w') = 1 \<and> \<not> fake_transport_is_restored (w_state w')"
proof -
  obtain t where t: "run_stages (test_stages late_host fake_ops) (start_run late_host
      ((initial_report True)\<lparr>tr_reason := error_text [], tr_exclusive_acquired := True\<rparr>) late_start) = (False, t)"
    "t_world t = late_end" "t_restore_needed t" "tr_original_saved (t_report t)"
    "mp_flexible (t_original_mode t) = bare initial_structure"
    "tr_controller_changed (t_report t)" "\<not> tr_controller_restored (t_report t)"
    by (rule late_stages)
  let ?t = "restore_original late_host fake_ops t" and ?c = "test_cleanup late_host fake_ops t"
  have rt: "t_world ?t = late_end\<lparr>w_interrupted := True\<rparr>" "tr_controller_changed (t_report ?t)"
    "\<not> tr_controller_restored (t_report ?t)" "tr_code (t_report ?t) = PROBE_TRANSPORT"
    "tr_status (t_report ?t) = STATUS_INCONCLUSIVE"
    using t late_clear late_mode_select
    by (simp_all add: restore_original_def restore_failure_def Let_def command_good_def code_for_transport_def)
  have fin: "tr_code (t_report ?c) = PROBE_TRANSPORT" "tr_status (t_report ?c) = STATUS_INCONCLUSIVE"
      "tr_controller_changed (t_report ?c)" "\<not> tr_controller_restored (t_report ?c)"
      "f_mode_select_count (w_state (t_world ?c)) = 1" "f_current_page (w_state (t_world ?c)) = late_page"
      "f_original_page (w_state (t_world ?c)) = fp_page initial_structure"
    using rt by (simp_all add: test_cleanup_def discard_image_def release_transport_def update_report_def
        Let_def fake_release_def)
  have "m65_probe_clear_interrupt late_host wrong_world = wrong_world"
    by (simp add: m65_probe_clear_interrupt_def deliver_signals_def late_host_def wrong_world_def late_original)
  moreover have "fake_acquire [] (w_state wrong_world) = (TRANSPORT_OK, [], w_state late_start)"
    using fake_init_conforming late_original
    by (simp add: fake_acquire_def wrong_world_def late_start_def conforming_def)
  ultimately have "m65_test_1581 late_host (Some fake_ops) True (Some zero_report_1581) wrong_world =
      (PROBE_TRANSPORT, Some (t_report ?c), t_world ?c)"
    using t(1) fin(1)
    by (simp add: m65_test_1581_def test_1581_body_def Let_def initial_report_def zero_report_1581_def late_start_def)
  with fin late_page_other show ?thesis by (auto simp: fake_transport_is_restored_def)
qed

end
