(* ===== verification/M65_Cbi.thy ===== *)
theory M65_Cbi
  imports M65_Transport
begin

text \<open>
  The USB Control/Bulk/Interrupt transport (\<open>src/cbi.c\<close>) over an adapter for one USB interface.

  The adapter (\<open>M65CbiIo\<close>) is a parameter, a record of its operations: each receives the content
  of the detail buffer (always the 256 bytes of a \<open>char[M65_MAX_ERROR_TEXT]\<close>) and returns its new
  content; data operations also return the bytes stored and the count reported. A function that
  writes through pointers returns the new values: the exchange, the data buffer, the detail and
  the context.
\<close>

datatype cbi_io_status =
    CBI_IO_OK | CBI_IO_STALL | CBI_IO_PERMISSION | CBI_IO_NO_DEVICE
  | CBI_IO_TIMEOUT | CBI_IO_ERROR | CBI_IO_PROTOCOL

record 's cbi_io =
  io_open_seize :: "string \<Rightarrow> 's \<Rightarrow> cbi_io_status \<times> string \<times> 's"
  io_close :: "string \<Rightarrow> 's \<Rightarrow> cbi_io_status \<times> string \<times> 's"
  io_adsc :: "bytes \<Rightarrow> u32 \<Rightarrow> string \<Rightarrow> 's \<Rightarrow> cbi_io_status \<times> string \<times> 's"
  io_bulk_in :: "nat \<Rightarrow> u32 \<Rightarrow> string \<Rightarrow> 's \<Rightarrow> cbi_io_status \<times> bytes \<times> nat \<times> string \<times> 's"
  io_bulk_out :: "bytes \<Rightarrow> nat \<Rightarrow> u32 \<Rightarrow> string \<Rightarrow> 's \<Rightarrow> cbi_io_status \<times> nat \<times> string \<times> 's"
  io_interrupt_in :: "u32 \<Rightarrow> string \<Rightarrow> 's \<Rightarrow> cbi_io_status \<times> bytes \<times> nat \<times> string \<times> 's"
  io_clear_stall :: "data_direction \<Rightarrow> string \<Rightarrow> 's \<Rightarrow> cbi_io_status \<times> string \<times> 's"
  io_prepare_reset :: "string \<Rightarrow> 's \<Rightarrow> cbi_io_status \<times> string \<times> 's"
  io_finish_reset :: "bool \<Rightarrow> string \<Rightarrow> 's \<Rightarrow> cbi_io_status \<times> string \<times> 's"
  io_destroy :: "'s \<Rightarrow> 's"

abbreviation (input) M65_CBI_CDB_LENGTH :: nat where "M65_CBI_CDB_LENGTH \<equiv> 12"
abbreviation (input) M65_CBI_STATUS_LENGTH :: nat where "M65_CBI_STATUS_LENGTH \<equiv> 2"
abbreviation (input) M65_UFI_SENSE_LENGTH :: nat where "M65_UFI_SENSE_LENGTH \<equiv> 18"

record 's cbi_context =
  cc_io :: 's
  cc_opened :: bool
  cc_recovery_required :: bool
  cc_recovery_detail :: string

record cbi_exchange =
  ex_adsc_stalled :: bool
  ex_data_stalled :: bool
  ex_transferred :: nat
  ex_completion :: bytes

definition zero_exchange :: cbi_exchange where
  "zero_exchange = \<lparr>ex_adsc_stalled = False, ex_data_stalled = False, ex_transferred = 0,
                    ex_completion = zeroed M65_CBI_STATUS_LENGTH\<rparr>"

record cbi_adsc =
  adsc_request_type :: u8
  adsc_request :: u8
  adsc_value :: u16
  adsc_index :: u16
  adsc_length :: u16
  adsc_cdb :: bytes

definition m65_cbi_build_adsc :: "u8 \<Rightarrow> bytes option \<Rightarrow> cbi_adsc option" where
  "m65_cbi_build_adsc interface_number cdb =
     (case cdb of
        None \<Rightarrow> None
      | Some block \<Rightarrow>
          Some \<lparr>adsc_request_type = 0x21, adsc_request = 0x00, adsc_value = 0,
                adsc_index = ucast interface_number, adsc_length = of_nat M65_CBI_CDB_LENGTH,
                adsc_cdb = buf_write 0 (take M65_CBI_CDB_LENGTH block) (zeroed M65_CBI_CDB_LENGTH)\<rparr>)"

section \<open>Details\<close>

definition io_status_number :: "cbi_io_status \<Rightarrow> nat" where
  "io_status_number status =
     (case status of CBI_IO_OK \<Rightarrow> 0 | CBI_IO_STALL \<Rightarrow> 1 | CBI_IO_PERMISSION \<Rightarrow> 2
      | CBI_IO_NO_DEVICE \<Rightarrow> 3 | CBI_IO_TIMEOUT \<Rightarrow> 4 | CBI_IO_ERROR \<Rightarrow> 5 | CBI_IO_PROTOCOL \<Rightarrow> 6)"

definition set_detail :: "string \<Rightarrow> string" where
  "set_detail text = error_text text"

definition set_default_io_detail :: "string \<Rightarrow> string \<Rightarrow> cbi_io_status \<Rightarrow> string" where
  "set_default_io_detail detail operation status =
     (if detail = []
      then error_text (operation @ '' failed with CBI I/O status '' @ dec_string (io_status_number status))
      else detail)"

definition append_detail :: "string \<Rightarrow> string \<Rightarrow> string" where
  "append_detail detail text =
     (let used = length detail
      in if used \<ge> M65_MAX_ERROR_TEXT - 1 then detail
         else let available = M65_MAX_ERROR_TEXT - used - 1
              in detail @ take available text)"

definition append_clause :: "string \<Rightarrow> string \<Rightarrow> string" where
  "append_clause detail clause =
     (if clause = [] then detail
      else append_detail (if detail \<noteq> [] then append_detail detail ''; '' else detail) clause)"

section \<open>Losing and tracking the phase\<close>

definition io_status_loses_phase :: "cbi_io_status \<Rightarrow> bool" where
  "io_status_loses_phase status \<longleftrightarrow>
     status = CBI_IO_TIMEOUT \<or> status = CBI_IO_PROTOCOL \<or> status = CBI_IO_ERROR"

definition require_recovery :: "string \<Rightarrow> string \<Rightarrow> 's cbi_context \<Rightarrow> 's cbi_context" where
  "require_recovery detail fallback ctx =
     (if cc_recovery_required ctx then ctx
      else ctx\<lparr>cc_recovery_required := True,
               cc_recovery_detail := set_detail (if detail \<noteq> [] then detail else fallback)\<rparr>)"

definition phase_io_failure ::
    "cbi_io_status \<Rightarrow> string \<Rightarrow> string \<Rightarrow> 's cbi_context \<Rightarrow> cbi_io_status \<times> string \<times> 's cbi_context" where
  "phase_io_failure status operation detail ctx =
     (let detail = set_default_io_detail detail operation status
      in (status, detail,
          if io_status_loses_phase status then require_recovery detail operation ctx else ctx))"

definition map_io_status :: "cbi_io_status \<Rightarrow> transport_status" where
  "map_io_status status =
     (case status of
        CBI_IO_OK \<Rightarrow> TRANSPORT_OK
      | CBI_IO_PERMISSION \<Rightarrow> TRANSPORT_PERMISSION
      | CBI_IO_NO_DEVICE \<Rightarrow> TRANSPORT_NO_DEVICE
      | CBI_IO_TIMEOUT \<Rightarrow> TRANSPORT_TIMEOUT
      | CBI_IO_ERROR \<Rightarrow> TRANSPORT_IO
      | CBI_IO_STALL \<Rightarrow> TRANSPORT_PROTOCOL
      | CBI_IO_PROTOCOL \<Rightarrow> TRANSPORT_PROTOCOL)"

section \<open>One exchange\<close>

type_synonym 's exchanged = "cbi_io_status \<times> cbi_exchange \<times> bytes \<times> string \<times> 's cbi_context"

text \<open>The command-completion interrupt.\<close>

definition completion_phase ::
    "'s cbi_io \<Rightarrow> u32 \<Rightarrow> cbi_exchange \<Rightarrow> bytes \<Rightarrow> string \<Rightarrow> 's cbi_context \<Rightarrow> 's exchanged" where
  "completion_phase ops timeout_ms exchange data detail ctx =
     (let (status, new, transferred, detail, s) = io_interrupt_in ops timeout_ms detail (cc_io ctx);
          ctx = ctx\<lparr>cc_io := s\<rparr>;
          exchange = exchange\<lparr>ex_completion := fill_buffer new (ex_completion exchange)\<rparr>
      in if status \<noteq> CBI_IO_OK then
           let (status, detail, ctx) =
                 phase_io_failure status ''CBI command-completion interrupt'' detail ctx
           in (status, exchange, data, detail, ctx)
         else if transferred \<noteq> M65_CBI_STATUS_LENGTH then
           let detail = set_detail ''CBI command-completion interrupt was not exactly two bytes''
           in (CBI_IO_PROTOCOL, exchange, data, detail,
               require_recovery detail ''CBI completion interrupt had an invalid length'' ctx)
         else (CBI_IO_OK, exchange, data, detail, ctx))"

text \<open>The bulk transfer of a direction; none for \<open>M65_DATA_NONE\<close>.\<close>

definition bulk_transfer ::
    "'s cbi_io \<Rightarrow> data_direction \<Rightarrow> bytes \<Rightarrow> nat \<Rightarrow> u32 \<Rightarrow> string \<Rightarrow> 's cbi_context \<Rightarrow>
     cbi_io_status \<times> bytes \<times> nat \<times> string \<times> 's cbi_context" where
  "bulk_transfer ops direction data data_length timeout_ms detail ctx =
     (case direction of
        DATA_IN \<Rightarrow>
          let (status, new, transferred, detail, s) =
                io_bulk_in ops data_length timeout_ms detail (cc_io ctx)
          in (status, fill_buffer new data, transferred, detail, ctx\<lparr>cc_io := s\<rparr>)
      | DATA_OUT \<Rightarrow>
          let (status, transferred, detail, s) =
                io_bulk_out ops data data_length timeout_ms detail (cc_io ctx)
          in (status, data, transferred, detail, ctx\<lparr>cc_io := s\<rparr>)
      | DATA_NONE \<Rightarrow> (CBI_IO_OK, data, 0, detail, ctx))"

definition run_exchange ::
    "'s cbi_io \<Rightarrow> bytes \<Rightarrow> data_direction \<Rightarrow> bytes \<Rightarrow> nat \<Rightarrow> u32 \<Rightarrow> string \<Rightarrow> 's cbi_context \<Rightarrow>
     's exchanged" where
  "run_exchange ops cdb direction data data_length timeout_ms detail ctx =
     (let exchange = zero_exchange;
          (status, detail, s) = io_adsc ops cdb timeout_ms detail (cc_io ctx);
          ctx = ctx\<lparr>cc_io := s\<rparr>
      in if status = CBI_IO_STALL then
           (CBI_IO_OK, exchange\<lparr>ex_adsc_stalled := True\<rparr>, data, detail, ctx)
         else if status \<noteq> CBI_IO_OK then
           let (status, detail, ctx) = phase_io_failure status ''ADSC'' detail ctx
           in (status, exchange, data, detail, ctx)
         else
           let (status, data, transferred, detail, ctx) =
                 bulk_transfer ops direction data data_length timeout_ms detail ctx;
               exchange = exchange\<lparr>ex_transferred := transferred\<rparr>
           in if status = CBI_IO_STALL then
                let exchange = exchange\<lparr>ex_data_stalled := True\<rparr>;
                    (status, detail, s) = io_clear_stall ops direction detail (cc_io ctx);
                    ctx = ctx\<lparr>cc_io := s\<rparr>
                in if status \<noteq> CBI_IO_OK then
                     let (status, detail, ctx) =
                           phase_io_failure status ''clear bulk pipe stall'' detail ctx
                     in (status, exchange, data, detail, ctx)
                   else completion_phase ops timeout_ms exchange data detail ctx
              else if status \<noteq> CBI_IO_OK then
                let (status, detail, ctx) = phase_io_failure status ''bulk data phase'' detail ctx
                in (status, exchange, data, detail, ctx)
              else if transferred > data_length then
                let detail = set_detail ''CBI bulk phase reported more bytes than its buffer''
                in (CBI_IO_PROTOCOL, exchange, data, detail,
                    require_recovery detail ''CBI bulk phase returned an invalid byte count'' ctx)
              else completion_phase ops timeout_ms exchange data detail ctx)"

section \<open>Recovery\<close>

definition describe_recovery_failure :: "'s cbi_context \<Rightarrow> string \<Rightarrow> string" where
  "describe_recovery_failure ctx failure =
     (let detail = set_detail ''CBI command-block recovery required after: '';
          detail = append_detail detail
            (if cc_recovery_detail ctx \<noteq> [] then cc_recovery_detail ctx
             else ''a previous command lost phase synchronization'');
          detail = append_detail detail ''; reset failed: ''
      in append_detail detail (if failure \<noteq> [] then failure else ''unspecified transport error''))"

definition reset_cdb :: bytes where
  "reset_cdb = [0x1d, 0x04, 0xff, 0xff, 0xff, 0xff, 0xff, 0xff, 0xff, 0xff, 0xff, 0xff]"

text \<open>The outcome of the reset exchange: whether it completed, the first failure and its text.\<close>

definition reset_exchange_outcome ::
    "cbi_io_status \<Rightarrow> cbi_exchange \<Rightarrow> string \<Rightarrow> bool \<times> cbi_io_status \<times> string" where
  "reset_exchange_outcome status exchange phase_detail =
     (if status \<noteq> CBI_IO_OK then (False, status, append_clause [] phase_detail)
      else if ex_adsc_stalled exchange then
        (False, CBI_IO_PROTOCOL, append_clause [] ''CBI command-block reset ADSC stalled'')
      else if ex_data_stalled exchange then
        (False, CBI_IO_PROTOCOL,
         append_clause [] ''CBI command-block reset unexpectedly had a data stall'')
      else if ex_completion exchange ! 0 \<noteq> 0 \<or> ex_completion exchange ! 1 \<noteq> 0 then
        (False, CBI_IO_PROTOCOL,
         append_clause [] ''CBI command-block reset returned nonzero UFI status'')
      else (True, CBI_IO_OK, []))"

text \<open>After a completed reset both bulk pipes are cleared, whatever the first of them returns.\<close>

definition clear_after_reset ::
    "'s cbi_io \<Rightarrow> cbi_io_status \<Rightarrow> string \<Rightarrow> 's cbi_context \<Rightarrow> cbi_io_status \<times> string \<times> 's cbi_context" where
  "clear_after_reset ops first_failure failure ctx =
     (let (in_status, in_detail, s) = io_clear_stall ops DATA_IN [] (cc_io ctx);
          (out_status, out_detail, s) = io_clear_stall ops DATA_OUT [] s;
          ctx = ctx\<lparr>cc_io := s\<rparr>;
          (first_failure, failure) =
            (if in_status \<noteq> CBI_IO_OK
             then (in_status, append_clause failure
                    (set_default_io_detail in_detail ''clear bulk-IN after CBI reset'' in_status))
             else (first_failure, failure));
          (first_failure, failure) =
            (if out_status \<noteq> CBI_IO_OK
             then (if first_failure = CBI_IO_OK then out_status else first_failure,
                   append_clause failure
                    (set_default_io_detail out_detail ''clear bulk-OUT after CBI reset'' out_status))
             else (first_failure, failure))
      in (first_failure, failure, ctx))"

text \<open>Consuming the reset permission, and the recovered context.\<close>

definition finish_reset ::
    "'s cbi_io \<Rightarrow> bool \<Rightarrow> cbi_io_status \<Rightarrow> string \<Rightarrow> string \<Rightarrow> 's cbi_context \<Rightarrow>
     cbi_io_status \<times> string \<times> 's cbi_context" where
  "finish_reset ops reset_completed first_failure failure detail ctx =
     (let recovered = (reset_completed \<and> first_failure = CBI_IO_OK);
          (finish_status, finish_detail, s) = io_finish_reset ops recovered [] (cc_io ctx);
          ctx = ctx\<lparr>cc_io := s\<rparr>;
          (first_failure, failure, recovered) =
            (if finish_status \<noteq> CBI_IO_OK
             then (if first_failure = CBI_IO_OK then finish_status else first_failure,
                   append_clause failure
                     (set_default_io_detail finish_detail ''finish CBI command-block reset'' finish_status),
                   False)
             else (first_failure, failure, recovered))
      in if recovered
         then (CBI_IO_OK, detail, ctx\<lparr>cc_recovery_required := False, cc_recovery_detail := []\<rparr>)
         else (if first_failure = CBI_IO_OK then CBI_IO_PROTOCOL else first_failure,
               describe_recovery_failure ctx failure, ctx))"

definition recover_if_required ::
    "'s cbi_io \<Rightarrow> u32 \<Rightarrow> string \<Rightarrow> 's cbi_context \<Rightarrow> cbi_io_status \<times> string \<times> 's cbi_context" where
  "recover_if_required ops timeout_ms detail ctx =
     (if \<not> cc_recovery_required ctx then (CBI_IO_OK, detail, ctx)
      else
        let (status, phase_detail, s) = io_prepare_reset ops [] (cc_io ctx);
            ctx = ctx\<lparr>cc_io := s\<rparr>
        in if status \<noteq> CBI_IO_OK then
             (status,
              describe_recovery_failure ctx
                (set_default_io_detail phase_detail ''prepare CBI command-block reset'' status), ctx)
           else
             let (status, exchange, _, phase_detail, ctx) =
                   run_exchange ops reset_cdb DATA_NONE [] 0 timeout_ms phase_detail ctx;
                 (reset_completed, first_failure, failure) =
                   reset_exchange_outcome status exchange phase_detail;
                 (first_failure, failure, ctx) =
                   (if reset_completed then clear_after_reset ops first_failure failure ctx
                    else (first_failure, failure, ctx))
             in finish_reset ops reset_completed first_failure failure detail ctx)"

section \<open>Sense data\<close>

definition pad_cdb :: "bytes \<times> nat \<Rightarrow> bytes" where
  "pad_cdb cdb = buf_write 0 (take (snd cdb) (fst cdb)) (zeroed M65_CBI_CDB_LENGTH)"

definition sense_failure ::
    "string \<Rightarrow> string \<Rightarrow> m65_sense \<Rightarrow> 's cbi_context \<Rightarrow>
     transport_status \<times> m65_sense \<times> string \<times> 's cbi_context" where
  "sense_failure text fallback sense ctx =
     (let detail = set_detail text
      in (TRANSPORT_PROTOCOL, sense, detail, require_recovery detail fallback ctx))"

definition fetch_sense ::
    "'s cbi_io \<Rightarrow> u32 \<Rightarrow> m65_sense \<Rightarrow> string \<Rightarrow> 's cbi_context \<Rightarrow>
     transport_status \<times> m65_sense \<times> string \<times> 's cbi_context" where
  "fetch_sense ops timeout_ms sense detail ctx =
     (let padded = pad_cdb (m65_cdb_request_sense (of_nat M65_UFI_SENSE_LENGTH));
          (status, exchange, data, detail, ctx) =
            run_exchange ops padded DATA_IN (zeroed M65_UFI_SENSE_LENGTH) M65_UFI_SENSE_LENGTH
              timeout_ms detail ctx
      in if status \<noteq> CBI_IO_OK then (map_io_status status, sense, detail, ctx)
         else if ex_adsc_stalled exchange then
           sense_failure ''REQUEST SENSE ADSC stalled'' ''REQUEST SENSE ADSC stalled'' sense ctx
         else if ex_data_stalled exchange then
           sense_failure ''REQUEST SENSE bulk-in phase stalled''
             ''REQUEST SENSE bulk-in phase stalled'' sense ctx
         else if ex_transferred exchange \<noteq> M65_UFI_SENSE_LENGTH then
           sense_failure ''REQUEST SENSE did not return its required 18 bytes''
             ''REQUEST SENSE returned an invalid byte count'' sense ctx
         else
           (case m65_parse_sense (Some data) M65_UFI_SENSE_LENGTH sense of
              Inl sense \<Rightarrow>
                sense_failure ''REQUEST SENSE returned malformed sense data''
                  ''REQUEST SENSE returned malformed sense data'' sense ctx
            | Inr sense \<Rightarrow> (TRANSPORT_OK, sense, detail, ctx)))"

section \<open>The transport operations\<close>

definition cbi_acquire :: "'s cbi_io \<Rightarrow> string \<Rightarrow> 's cbi_context \<Rightarrow> transport_status \<times> string \<times> 's cbi_context" where
  "cbi_acquire ops detail ctx =
     (if cc_opened ctx then (TRANSPORT_OK, detail, ctx)
      else
        let (status, detail, s) = io_open_seize ops [] (cc_io ctx);
            ctx = ctx\<lparr>cc_io := s\<rparr>
        in if status = CBI_IO_OK
           then (map_io_status status, detail,
                 ctx\<lparr>cc_opened := True, cc_recovery_required := False, cc_recovery_detail := []\<rparr>)
           else (map_io_status status,
                 set_default_io_detail detail ''open/seize USB interface'' status, ctx))"

definition cbi_release :: "'s cbi_io \<Rightarrow> string \<Rightarrow> 's cbi_context \<Rightarrow> transport_status \<times> string \<times> 's cbi_context" where
  "cbi_release ops detail ctx =
     (if \<not> cc_opened ctx then (TRANSPORT_OK, detail, ctx)
      else
        let (status, detail, s) = io_close ops [] (cc_io ctx);
            ctx = ctx\<lparr>cc_io := s\<rparr>;
            ctx = (if status = CBI_IO_OK \<or> status = CBI_IO_NO_DEVICE
                   then ctx\<lparr>cc_opened := False\<rparr> else ctx)
        in (map_io_status status,
            if status \<noteq> CBI_IO_OK
            then set_default_io_detail detail ''close USB interface'' status else detail,
            ctx))"

type_synonym 's executed = "command_result \<times> bytes \<times> 's cbi_context"

definition execute_request_sense ::
    "'s cbi_io \<Rightarrow> m65_command \<Rightarrow> bytes \<Rightarrow> 's cbi_context \<Rightarrow> 's executed" where
  "execute_request_sense ops command padded ctx =
     (let (status, exchange, data, detail, ctx) =
            run_exchange ops padded DATA_IN (command_data command) (c_data_length command)
              (c_timeout_ms command) [] ctx;
          result = zero_result\<lparr>r_transport_status := map_io_status status,
                               r_transferred := ex_transferred exchange, r_detail := detail\<rparr>
      in if status \<noteq> CBI_IO_OK then (result, data, ctx)
         else if ex_adsc_stalled exchange \<or> ex_data_stalled exchange then
           let detail = set_detail ''REQUEST SENSE failed during CBI transport''
           in (result\<lparr>r_transport_status := TRANSPORT_PROTOCOL, r_detail := detail\<rparr>, data,
               require_recovery detail ''REQUEST SENSE failed during CBI transport'' ctx)
         else
           (case m65_parse_sense (Some data) (r_transferred result) (r_sense result) of
              Inl sense \<Rightarrow>
                let detail = set_detail ''REQUEST SENSE returned malformed sense data''
                in (result\<lparr>r_sense := sense, r_transport_status := TRANSPORT_PROTOCOL,
                           r_detail := detail\<rparr>, data,
                    require_recovery detail ''REQUEST SENSE returned malformed sense data'' ctx)
            | Inr sense \<Rightarrow> (result\<lparr>r_sense := sense, r_scsi_status := 0\<rparr>, data, ctx)))"

text \<open>The judgement of a command whose exchange ran and whose sense data was fetched.\<close>

definition command_outcome ::
    "m65_command \<Rightarrow> cbi_exchange \<Rightarrow> command_result \<Rightarrow> 's cbi_context \<Rightarrow> command_result \<times> 's cbi_context" where
  "command_outcome command exchange result ctx =
     (let forced_failure = (ex_adsc_stalled exchange \<or> ex_data_stalled exchange)
      in if \<not> ex_adsc_stalled exchange \<and>
            (ex_completion exchange ! 0 \<noteq> sense_asc (r_sense result) \<or>
             ex_completion exchange ! 1 \<noteq> sense_ascq (r_sense result))
         then
           let detail = set_detail ''UFI interrupt ASC/ASCQ does not match REQUEST SENSE''
           in (result\<lparr>r_transport_status := TRANSPORT_PROTOCOL, r_detail := detail\<rparr>,
               require_recovery detail ''UFI completion and sense data disagreed'' ctx)
         else if exact_data_required command \<and> \<not> forced_failure \<and>
                 r_transferred result \<noteq> c_data_length command
         then
           let detail = set_detail ''CBI data phase returned an unexpected byte count''
           in (result\<lparr>r_transport_status := TRANSPORT_PROTOCOL, r_detail := detail\<rparr>,
               require_recovery detail ''CBI data phase returned an unexpected byte count'' ctx)
         else if forced_failure \<or> sense_key (r_sense result) > 1
         then (result\<lparr>r_transport_status := TRANSPORT_OK, r_scsi_status := 0x02,
                      r_detail := (if r_detail result = []
                        then error_text (''UFI command failed: sense key 0x'' @
                               hex_digits 2 (unat (sense_key (r_sense result))) @ '', ASC 0x'' @
                               hex_digits 2 (unat (sense_asc (r_sense result))) @ '', ASCQ 0x'' @
                               hex_digits 2 (unat (sense_ascq (r_sense result))))
                        else r_detail result)\<rparr>, ctx)
         else (result\<lparr>r_transport_status := TRANSPORT_OK, r_scsi_status := 0\<rparr>, ctx))"

definition execute_command :: "'s cbi_io \<Rightarrow> m65_command \<Rightarrow> bytes \<Rightarrow> 's cbi_context \<Rightarrow> 's executed" where
  "execute_command ops command padded ctx =
     (let (io_status, exchange, data, detail, ctx) =
            run_exchange ops padded (c_direction command) (command_data command)
              (c_data_length command) (c_timeout_ms command) [] ctx;
          result = zero_result\<lparr>r_transport_status := map_io_status io_status,
                               r_transferred := ex_transferred exchange, r_detail := detail\<rparr>
      in if io_status \<noteq> CBI_IO_OK then (result, data, ctx)
         else
           let (sense_status, sense, detail, ctx) =
                 fetch_sense ops (c_timeout_ms command) (r_sense result) detail ctx;
               result = result\<lparr>r_sense := sense, r_detail := detail\<rparr>
           in if sense_status \<noteq> TRANSPORT_OK
              then (result\<lparr>r_transport_status := sense_status\<rparr>, data, ctx)
              else let (result, ctx) = command_outcome command exchange result ctx
                   in (result, data, ctx))"

definition refused :: "string \<Rightarrow> m65_command \<Rightarrow> 's cbi_context \<Rightarrow> 's executed" where
  "refused text command ctx =
     (zero_result\<lparr>r_transport_status := TRANSPORT_PROTOCOL, r_detail := set_detail text\<rparr>,
      command_data command, ctx)"

definition cbi_execute :: "'s cbi_io \<Rightarrow> m65_command \<Rightarrow> 's cbi_context \<Rightarrow> 's executed" where
  "cbi_execute ops command ctx =
     (if \<not> cc_opened ctx then
        refused ''CBI command attempted without seized USB interface'' command ctx
      else
        (case m65_validate_command command of
           Inl validation_detail \<Rightarrow>
             refused (if validation_detail \<noteq> [] then error_text validation_detail
                      else ''command failed diagnostic allowlist validation'') command ctx
         | Inr _ \<Rightarrow>
             if c_cdb_length command > M65_CBI_CDB_LENGTH then
               refused ''UFI command is longer than the 12-byte CBI command block'' command ctx
             else if c_direction command = DATA_OUT \<and> c_cdb command ! 0 \<noteq> M65_OPCODE_MODE_SELECT_10 then
               refused ''CBI data-out is restricted to validated MODE SELECT (10)'' command ctx
             else
               let (recovery_status, detail, ctx) =
                     recover_if_required ops (c_timeout_ms command) [] ctx
               in if recovery_status \<noteq> CBI_IO_OK then
                    (zero_result\<lparr>r_transport_status := map_io_status recovery_status,
                                 r_detail := detail\<rparr>, command_data command, ctx)
                  else
                    let padded = pad_cdb (c_cdb command, c_cdb_length command)
                    in if c_cdb command ! 0 = M65_OPCODE_REQUEST_SENSE
                       then execute_request_sense ops command padded ctx
                       else execute_command ops command padded ctx))"

definition cbi_destroy :: "'s cbi_io \<Rightarrow> 's cbi_context \<Rightarrow> 's" where
  "cbi_destroy ops ctx =
     (let s = (if cc_opened ctx then snd (snd (io_close ops [] (cc_io ctx))) else cc_io ctx)
      in io_destroy ops s)"

definition cbi_ops :: "'s cbi_io \<Rightarrow> 's cbi_context transport_ops" where
  "cbi_ops ops = \<lparr>acquire_exclusive = cbi_acquire ops, execute = cbi_execute ops,
                  release_exclusive = cbi_release ops\<rparr>"

text \<open>None: an operation of the adapter is missing, or one of the two allocations failed.\<close>

definition m65_cbi_transport_create ::
    "bool \<Rightarrow> bool \<Rightarrow> bool \<Rightarrow> 's cbi_io \<Rightarrow> 's \<Rightarrow> ('s cbi_context transport_ops \<times> 's cbi_context) option" where
  "m65_cbi_transport_create complete transport_allocated context_allocated ops s =
     (if \<not> complete then None
      else if \<not> transport_allocated \<or> \<not> context_allocated then None
      else Some (cbi_ops ops, \<lparr>cc_io = s, cc_opened = False, cc_recovery_required = False,
                               cc_recovery_detail = []\<rparr>))"

end
