(* ===== verification/M65_CbiBasis.thy ===== *)
theory M65_CbiBasis
  imports M65_Cbi
begin

text \<open>
  Facts about each operation of the CBI transport (\<open>src/cbi.c\<close>) on every branch: how access and
  the need for recovery change, what a good result implies, and the transport contract.
\<close>

section \<open>States\<close>

lemma require_recovery_sel [simp]:
  "cc_opened (require_recovery d f ctx) = cc_opened ctx" "cc_io (require_recovery d f ctx) = cc_io ctx"
  "cc_recovery_required (require_recovery d f ctx)"
  by (simp_all add: require_recovery_def)

lemma map_io_status_OK [simp]: "map_io_status st = TRANSPORT_OK \<longleftrightarrow> st = CBI_IO_OK"
  by (cases st) (simp_all add: map_io_status_def)

lemma map_io_status_of_OK [simp]: "map_io_status CBI_IO_OK = TRANSPORT_OK"
  by (simp add: map_io_status_def)

text \<open>A result from one context to the next, judged by its I/O status: access is kept, a status
  that loses the phase asks for recovery, and any other leaves the need for recovery as it was.\<close>

definition phase_kept :: "cbi_io_status \<Rightarrow> 's cbi_context \<Rightarrow> 's cbi_context \<Rightarrow> bool" where
  "phase_kept status ctx ctx' \<longleftrightarrow> cc_opened ctx' = cc_opened ctx \<and>
     (if io_status_loses_phase status then cc_recovery_required ctx'
      else cc_recovery_required ctx' = cc_recovery_required ctx)"

lemma loses_phase_simps [simp]:
  "\<not> io_status_loses_phase CBI_IO_OK" "io_status_loses_phase CBI_IO_PROTOCOL"
  "\<not> io_status_loses_phase CBI_IO_STALL"
  by (simp_all add: io_status_loses_phase_def)

lemma phase_io_failure_kept:
  "phase_io_failure st operation d ctx = (st', d', ctx') \<Longrightarrow> st' = st \<and> phase_kept st ctx ctx'"
  by (auto simp: phase_io_failure_def phase_kept_def Let_def)

lemma phase_kept_io [simp]: "phase_kept st (ctx\<lparr>cc_io := s\<rparr>) ctx' = phase_kept st ctx ctx'"
  by (simp add: phase_kept_def)

lemma completion_phase_kept:
  assumes "completion_phase ops t ex d det ctx = (st, ex', d', det', ctx')"
  shows "phase_kept st ctx ctx'" and "d' = d" and "length (ex_completion ex') = length (ex_completion ex)"
    and "ex_transferred ex' = ex_transferred ex" "ex_adsc_stalled ex' = ex_adsc_stalled ex"
      "ex_data_stalled ex' = ex_data_stalled ex"
  using assms by (auto simp: completion_phase_def Let_def phase_kept_def phase_io_failure_def
      split: prod.splits if_splits)

lemma bulk_transfer_kept:
  assumes "bulk_transfer ops dir d n t det ctx = (st, d', tr, det', ctx')"
  shows "\<exists>s. ctx' = ctx\<lparr>cc_io := s\<rparr>" and "length d' = length d" and "dir \<noteq> DATA_IN \<Longrightarrow> d' = d"
  using assms
proof -
  have "ctx = ctx\<lparr>cc_io := cc_io ctx\<rparr>" by simp
  then show "\<exists>s. ctx' = ctx\<lparr>cc_io := s\<rparr>" using assms
    by (cases dir) (auto simp: bulk_transfer_def Let_def split: prod.splits intro: exI [of _ "cc_io ctx"])
  show "length d' = length d" "dir \<noteq> DATA_IN \<Longrightarrow> d' = d" using assms
    by (cases dir; auto simp: bulk_transfer_def Let_def split: prod.splits)+
qed

text \<open>How an exchange ends: at its command block, in its data phase, at the clearing of a stall, or with
  the completion interrupt.\<close>

lemma run_exchange_cases:
  assumes "run_exchange ops cdb dir d n t det ctx = (st, ex, d', det', ctx')"
  obtains (command) st1 det1 s1 where "io_adsc ops cdb t det (cc_io ctx) = (st1, det1, s1)" "st1 \<noteq> CBI_IO_OK"
      "d' = d" "ex_transferred ex = 0" "length (ex_completion ex) = 2"
      "st1 = CBI_IO_STALL \<and> st = CBI_IO_OK \<and> ex_adsc_stalled ex \<and> ctx' = ctx\<lparr>cc_io := s1\<rparr> \<or>
       phase_io_failure st1 ''ADSC'' det1 (ctx\<lparr>cc_io := s1\<rparr>) = (st, det', ctx')"
  | (data) det1 s1 st2 tr det2 ctx2 where "io_adsc ops cdb t det (cc_io ctx) = (CBI_IO_OK, det1, s1)"
      "bulk_transfer ops dir d n t det1 (ctx\<lparr>cc_io := s1\<rparr>) = (st2, d', tr, det2, ctx2)"
      "ex = zero_exchange\<lparr>ex_transferred := tr\<rparr>"
      "st2 \<noteq> CBI_IO_OK \<and> phase_io_failure st2 ''bulk data phase'' det2 ctx2 = (st, det', ctx') \<or>
       st = CBI_IO_PROTOCOL \<and> ctx' = require_recovery det' ''CBI bulk phase returned an invalid byte count'' ctx2"
  | (clear) det1 s1 tr det2 ctx2 st3 det3 s3 where "io_adsc ops cdb t det (cc_io ctx) = (CBI_IO_OK, det1, s1)"
      "bulk_transfer ops dir d n t det1 (ctx\<lparr>cc_io := s1\<rparr>) = (CBI_IO_STALL, d', tr, det2, ctx2)"
      "io_clear_stall ops dir det2 (cc_io ctx2) = (st3, det3, s3)" "st3 \<noteq> CBI_IO_OK"
      "ex = zero_exchange\<lparr>ex_transferred := tr, ex_data_stalled := True\<rparr>"
      "phase_io_failure st3 ''clear bulk pipe stall'' det3 (ctx2\<lparr>cc_io := s3\<rparr>) = (st, det', ctx')"
  | (cleared) det1 s1 tr det2 ctx2 det3 s3 where "io_adsc ops cdb t det (cc_io ctx) = (CBI_IO_OK, det1, s1)"
      "bulk_transfer ops dir d n t det1 (ctx\<lparr>cc_io := s1\<rparr>) = (CBI_IO_STALL, d', tr, det2, ctx2)"
      "io_clear_stall ops dir det2 (cc_io ctx2) = (CBI_IO_OK, det3, s3)"
      "completion_phase ops t (zero_exchange\<lparr>ex_transferred := tr, ex_data_stalled := True\<rparr>) d' det3
         (ctx2\<lparr>cc_io := s3\<rparr>) = (st, ex, d', det', ctx')"
  | (moved) det1 s1 tr det2 ctx2 where "io_adsc ops cdb t det (cc_io ctx) = (CBI_IO_OK, det1, s1)"
      "bulk_transfer ops dir d n t det1 (ctx\<lparr>cc_io := s1\<rparr>) = (CBI_IO_OK, d', tr, det2, ctx2)" "tr \<le> n"
      "completion_phase ops t (zero_exchange\<lparr>ex_transferred := tr\<rparr>) d' det2 ctx2 = (st, ex, d', det', ctx')"
proof -
  obtain st1 det1 s1 where a: "io_adsc ops cdb t det (cc_io ctx) = (st1, det1, s1)" by (metis prod_cases3)
  obtain st2 d2 tr det2 ctx2 where b: "bulk_transfer ops dir d n t det1 (ctx\<lparr>cc_io := s1\<rparr>) = (st2, d2, tr, det2, ctx2)"
    by (metis prod_cases5)
  obtain st3 det3 s3 where c: "io_clear_stall ops dir det2 (cc_io ctx2) = (st3, det3, s3)" by (metis prod_cases3)
  note e = assms [unfolded run_exchange_def Let_def a b c prod.case]
  consider "st1 = CBI_IO_STALL" | "st1 \<noteq> CBI_IO_OK" "st1 \<noteq> CBI_IO_STALL" | "st1 = CBI_IO_OK" by blast
  then show thesis
  proof cases
    case 1
    with a e show thesis by (intro command) (auto simp: zero_exchange_def)
  next
    case 2
    with a e show thesis by (intro command) (auto simp: zero_exchange_def split: prod.splits)
  next
    case 3
    note e' = e [unfolded 3, simplified]
    consider "st2 = CBI_IO_STALL" "st3 = CBI_IO_OK" | "st2 = CBI_IO_STALL" "st3 \<noteq> CBI_IO_OK"
      | "st2 = CBI_IO_OK" "tr > n" | "st2 = CBI_IO_OK" "tr \<le> n" | "st2 \<noteq> CBI_IO_OK" "st2 \<noteq> CBI_IO_STALL" by linarith
    then show thesis
    proof cases
      case 1
      then have x: "completion_phase ops t (zero_exchange\<lparr>ex_transferred := tr, ex_data_stalled := True\<rparr>) d2 det3
          (ctx2\<lparr>cc_io := s3\<rparr>) = (st, ex, d', det', ctx')" using e' by simp
      with completion_phase_kept(2) [OF x] a b c 3 1 show thesis by (intro cleared) auto
    next
      case 2
      with a b c 3 e' show thesis by (intro clear) (auto split: prod.splits)
    next
      case 3
      with a b \<open>st1 = CBI_IO_OK\<close> e' show thesis by (intro data) auto
    next
      case 4
      then have x: "completion_phase ops t (zero_exchange\<lparr>ex_transferred := tr\<rparr>) d2 det2 ctx2 = (st, ex, d', det', ctx')"
        using e' by simp
      with completion_phase_kept(2) [OF x] a b 3 4 show thesis by (intro moved) auto
    next
      case 5
      with a b 3 e' show thesis
        by (intro data) (auto simp: phase_io_failure_def Let_def split: prod.splits)
    qed
  qed
qed

lemma run_exchange_kept:
  assumes "run_exchange ops cdb dir d n t det ctx = (st, ex, d', det', ctx')"
  shows "phase_kept st ctx ctx'" and "length d' = length d" and "length (ex_completion ex) = 2"
    and "st = CBI_IO_OK \<Longrightarrow> \<not> ex_adsc_stalled ex \<Longrightarrow> \<not> ex_data_stalled ex \<Longrightarrow> ex_transferred ex \<le> n"
proof -
  have "phase_kept st ctx ctx' \<and> length d' = length d \<and> length (ex_completion ex) = 2 \<and>
    (st = CBI_IO_OK \<longrightarrow> \<not> ex_adsc_stalled ex \<longrightarrow> \<not> ex_data_stalled ex \<longrightarrow> ex_transferred ex \<le> n)"
    using assms
  proof (cases rule: run_exchange_cases)
    case command
    then show ?thesis by (auto simp: phase_kept_def dest!: phase_io_failure_kept)
  next
    case data
    then show ?thesis using bulk_transfer_kept [OF data(2)]
      by (auto simp: phase_kept_def zero_exchange_def dest!: phase_io_failure_kept)
  next
    case clear
    then show ?thesis using bulk_transfer_kept [OF clear(2)]
      by (auto simp: phase_kept_def zero_exchange_def dest!: phase_io_failure_kept)
  next
    case cleared
    from completion_phase_kept [OF cleared(4)] bulk_transfer_kept [OF cleared(2)]
    show ?thesis by (auto simp: phase_kept_def zero_exchange_def)
  next
    case moved
    from completion_phase_kept [OF moved(4)] bulk_transfer_kept [OF moved(2)] moved(3)
    show ?thesis by (auto simp: phase_kept_def zero_exchange_def)
  qed
  then show "phase_kept st ctx ctx'" "length d' = length d" "length (ex_completion ex) = 2"
    "st = CBI_IO_OK \<Longrightarrow> \<not> ex_adsc_stalled ex \<Longrightarrow> \<not> ex_data_stalled ex \<Longrightarrow> ex_transferred ex \<le> n" by auto
qed

section \<open>Recovery\<close>

lemma clear_after_reset_state:
  "clear_after_reset ops ff f ctx = (ff', f', ctx') \<Longrightarrow>
     cc_opened ctx' = cc_opened ctx \<and> cc_recovery_required ctx' = cc_recovery_required ctx"
  by (auto simp: clear_after_reset_def Let_def split: prod.splits if_splits)

lemma finish_reset_state:
  "finish_reset ops rc ff f det ctx = (st, det', ctx') \<Longrightarrow>
     cc_opened ctx' = cc_opened ctx \<and>
     (if st = CBI_IO_OK then \<not> cc_recovery_required ctx'
      else cc_recovery_required ctx' = cc_recovery_required ctx)"
  by (auto simp: finish_reset_def Let_def split: prod.splits if_splits)

lemma recover_state:
  assumes "recover_if_required ops t det ctx = (st, det', ctx')"
  shows "cc_opened ctx' = cc_opened ctx" and "st = CBI_IO_OK \<longleftrightarrow> \<not> cc_recovery_required ctx'"
proof -
  have "cc_opened ctx' = cc_opened ctx \<and> (st = CBI_IO_OK \<longleftrightarrow> \<not> cc_recovery_required ctx')"
  proof (cases "cc_recovery_required ctx")
    case False
    with assms show ?thesis by (auto simp: recover_if_required_def)
  next
    case True
    obtain st1 d1 s1 where p: "io_prepare_reset ops [] (cc_io ctx) = (st1, d1, s1)" by (metis prod_cases3)
    obtain st2 ex d2 det2 ctx2 where r: "run_exchange ops reset_cdb DATA_NONE [] 0 t d1 (ctx\<lparr>cc_io := s1\<rparr>) =
        (st2, ex, d2, det2, ctx2)" by (metis prod_cases5)
    have k: "cc_opened ctx2 = cc_opened ctx" "cc_recovery_required ctx2"
      using run_exchange_kept(1) [OF r] True by (auto simp: phase_kept_def split: if_splits)
    obtain rc ff f where o: "reset_exchange_outcome st2 ex det2 = (rc, ff, f)" by (metis prod_cases3)
    obtain ff' f' ctx3 where c: "(if rc then clear_after_reset ops ff f ctx2 else (ff, f, ctx2)) = (ff', f', ctx3)"
      by (metis prod_cases3)
    then have k3: "cc_opened ctx3 = cc_opened ctx" "cc_recovery_required ctx3"
      using k clear_after_reset_state [of ops ff f ctx2 ff' f' ctx3] by (auto split: if_splits)
    show ?thesis
    proof (cases "st1 = CBI_IO_OK")
      case False
      with assms p True show ?thesis by (auto simp: recover_if_required_def Let_def)
    next
      case ok: True
      with assms p True r o c have "finish_reset ops rc ff' f' det ctx3 = (st, det', ctx')"
        by (simp add: recover_if_required_def Let_def)
      from finish_reset_state [OF this] k3 show ?thesis by (auto split: if_splits)
    qed
  qed
  then show "cc_opened ctx' = cc_opened ctx" "st = CBI_IO_OK \<longleftrightarrow> \<not> cc_recovery_required ctx'" by auto
qed

section \<open>Commands\<close>

text \<open>A transport status and the context after it: access is kept; the statuses that mean the
  phase was lost ask for recovery; success does not.\<close>

definition status_kept :: "transport_status \<Rightarrow> 's cbi_context \<Rightarrow> 's cbi_context \<Rightarrow> bool" where
  "status_kept status ctx ctx' \<longleftrightarrow> cc_opened ctx' = cc_opened ctx \<and>
     (status = TRANSPORT_OK \<longrightarrow> \<not> cc_recovery_required ctx') \<and>
     (status = TRANSPORT_TIMEOUT \<or> status = TRANSPORT_IO \<longrightarrow> cc_recovery_required ctx')"

lemma phase_status_kept:
  assumes "phase_kept st ctx ctx'" and "\<not> cc_recovery_required ctx"
  shows "status_kept (map_io_status st) ctx ctx'"
  using assms by (cases st) (auto simp: phase_kept_def status_kept_def map_io_status_def io_status_loses_phase_def)

lemma sense_failure_kept:
  "sense_failure text fallback sense ctx = (st, sense', det', ctx') \<Longrightarrow> status_kept st ctx ctx'"
  by (auto simp: sense_failure_def Let_def status_kept_def)

lemma fetch_sense_kept:
  assumes "fetch_sense ops t sense det ctx = (st, sense', det', ctx')" and r: "\<not> cc_recovery_required ctx"
  shows "status_kept st ctx ctx'"
proof -
  obtain st1 ex d1 det1 ctx1 where x: "run_exchange ops (pad_cdb (m65_cdb_request_sense (of_nat M65_UFI_SENSE_LENGTH)))
      DATA_IN (zeroed M65_UFI_SENSE_LENGTH) M65_UFI_SENSE_LENGTH t det ctx = (st1, ex, d1, det1, ctx1)"
    by (metis prod_cases5)
  note k = run_exchange_kept(1) [OF x]
  note e = assms(1) [unfolded fetch_sense_def Let_def x prod.case]
  show ?thesis
  proof (cases "st1 = CBI_IO_OK")
    case False
    with e phase_status_kept [OF k r] show ?thesis by simp
  next
    case True
    then have k1: "cc_opened ctx1 = cc_opened ctx" "\<not> cc_recovery_required ctx1"
      using k r by (auto simp: phase_kept_def)
    have f: "status_kept st ctx ctx'" if "sense_failure a b c ctx1 = (st, sense', det', ctx')" for a b c
      using sense_failure_kept [OF that] k1 by (simp add: status_kept_def)
    from e True k1 show ?thesis
      by (auto simp: status_kept_def [of TRANSPORT_OK] split: if_splits sum.splits dest!: f)
  qed
qed

text \<open>The four judgements, without their texts.\<close>

lemma command_outcome_cases:
  assumes "command_outcome c ex res ctx = (r, ctx')"
  obtains (mismatch) d f where "r = res\<lparr>r_transport_status := TRANSPORT_PROTOCOL, r_detail := d\<rparr>"
      "ctx' = require_recovery d f ctx"
  | (short) d f where "r = res\<lparr>r_transport_status := TRANSPORT_PROTOCOL, r_detail := d\<rparr>"
      "ctx' = require_recovery d f ctx"
  | (check) d where "r = res\<lparr>r_transport_status := TRANSPORT_OK, r_scsi_status := 0x02, r_detail := d\<rparr>"
      "ctx' = ctx" "ex_adsc_stalled ex \<or> ex_data_stalled ex \<or> sense_key (r_sense res) > 1"
      "ex_adsc_stalled ex \<or> ex_completion ex ! 0 = sense_asc (r_sense res) \<and> ex_completion ex ! 1 = sense_ascq (r_sense res)"
  | (good) "r = res\<lparr>r_transport_status := TRANSPORT_OK, r_scsi_status := 0\<rparr>" "ctx' = ctx"
      "\<not> ex_adsc_stalled ex" "\<not> ex_data_stalled ex" "sense_key (r_sense res) \<le> 1"
      "ex_completion ex ! 0 = sense_asc (r_sense res)" "ex_completion ex ! 1 = sense_ascq (r_sense res)"
      "exact_data_required c \<Longrightarrow> r_transferred res = c_data_length c"
proof -
  note e = assms [unfolded command_outcome_def Let_def]
  let ?m = "\<not> ex_adsc_stalled ex \<and> (ex_completion ex ! 0 \<noteq> sense_asc (r_sense res) \<or>
    ex_completion ex ! 1 \<noteq> sense_ascq (r_sense res))"
  let ?f = "ex_adsc_stalled ex \<or> ex_data_stalled ex"
  let ?s = "exact_data_required c \<and> \<not> ?f \<and> r_transferred res \<noteq> c_data_length c"
  consider "?m" | "\<not> ?m" "?s" | "\<not> ?m" "\<not> ?s" "?f \<or> sense_key (r_sense res) > 1"
    | "\<not> ?m" "\<not> ?s" "\<not> (?f \<or> sense_key (r_sense res) > 1)" by blast
  then show thesis
  proof cases
    case 1
    note e [unfolded if_P [OF 1]]
    then show thesis by (intro mismatch) auto
  next
    case 2
    note e [unfolded if_not_P [OF 2(1)] if_P [OF 2(2)]]
    then show thesis by (intro short) auto
  next
    case 3
    note e [unfolded if_not_P [OF 3(1)] if_not_P [OF 3(2)] if_P [OF 3(3)]]
    then show thesis using 3 by (intro check) blast+
  next
    case 4
    note e [unfolded if_not_P [OF 4(1)] if_not_P [OF 4(2)] if_not_P [OF 4(3)]]
    then show thesis using 4 by (intro good) (auto simp: not_less)
  qed
qed

lemma command_outcome_kept:
  assumes "command_outcome c ex res ctx = (r, ctx')" and "\<not> cc_recovery_required ctx"
  shows "status_kept (r_transport_status r) ctx ctx'"
    and "command_good r \<Longrightarrow> exact_data_required c \<Longrightarrow> r_transferred r = c_data_length c"
    and "r_sense r = r_sense res" "r_transferred r = r_transferred res"
    and "r_transport_status r = TRANSPORT_OK \<Longrightarrow> ex_adsc_stalled ex \<or>
      ex_completion ex ! 0 = sense_asc (r_sense r) \<and> ex_completion ex ! 1 = sense_ascq (r_sense r)"
    and "command_good r \<Longrightarrow> \<not> ex_adsc_stalled ex \<and> \<not> ex_data_stalled ex \<and> sense_key (r_sense r) \<le> 1"
  using assms(1) by (cases rule: command_outcome_cases;
    use assms(2) in \<open>simp add: status_kept_def command_good_def\<close>)+

lemma cbi_execute_cases:
  assumes "cbi_execute ops c ctx = (r, d, ctx')"
  obtains (refused) "r_transport_status r = TRANSPORT_PROTOCOL" "ctx' = ctx" "d = command_data c"
  | (unrecovered) st det where "cc_opened ctx" "m65_validate_command c = Inr ()"
      "recover_if_required ops (c_timeout_ms c) [] ctx = (st, det, ctx')" "st \<noteq> CBI_IO_OK"
      "r = zero_result\<lparr>r_transport_status := map_io_status st, r_detail := det\<rparr>" "d = command_data c"
  | (sense) det ctx1 where "cc_opened ctx" "m65_validate_command c = Inr ()" "c_cdb_length c \<le> 12"
      "recover_if_required ops (c_timeout_ms c) [] ctx = (CBI_IO_OK, det, ctx1)"
      "c_cdb c ! 0 = M65_OPCODE_REQUEST_SENSE"
      "execute_request_sense ops c (pad_cdb (c_cdb c, c_cdb_length c)) ctx1 = (r, d, ctx')"
  | (executed) det ctx1 where "cc_opened ctx" "m65_validate_command c = Inr ()" "c_cdb_length c \<le> 12"
      "recover_if_required ops (c_timeout_ms c) [] ctx = (CBI_IO_OK, det, ctx1)"
      "c_cdb c ! 0 \<noteq> M65_OPCODE_REQUEST_SENSE"
      "execute_command ops c (pad_cdb (c_cdb c, c_cdb_length c)) ctx1 = (r, d, ctx')"
proof -
  obtain st det ctx1 where rec: "recover_if_required ops (c_timeout_ms c) [] ctx = (st, det, ctx1)"
    by (metis prod_cases3)
  have out: "refused t c ctx = (r, d, ctx') \<Longrightarrow> thesis" for t
    by (rule that(1)) (auto simp: refused_def)
  note e = assms [unfolded cbi_execute_def Let_def rec prod.case]
  show thesis
  proof (cases "cc_opened ctx")
    case False
    then show thesis using e by (intro out) simp
  next
    case opened: True
    show thesis
    proof (cases "m65_validate_command c")
      case (Inl v)
      note x = e [unfolded Inl sum.case]
      then show thesis using opened by (intro out) simp
    next
      case (Inr u)
      note x = e [unfolded Inr sum.case]
      consider "c_cdb_length c > 12" | "\<not> c_cdb_length c > 12" "c_direction c = DATA_OUT \<and> c_cdb c ! 0 \<noteq> M65_OPCODE_MODE_SELECT_10"
        | "\<not> c_cdb_length c > 12" "\<not> (c_direction c = DATA_OUT \<and> c_cdb c ! 0 \<noteq> M65_OPCODE_MODE_SELECT_10)"
        by blast
      then show thesis
      proof cases
        case 1
        then show thesis using x opened by (intro out) simp
      next
        case 2
        then show thesis using x opened by (intro out) simp
      next
        case 3
        have no: "\<not> \<not> cc_opened ctx" using opened by simp
        note y = x [unfolded if_not_P [OF no] if_not_P [OF 3(1)] if_not_P [OF 3(2)]]
        show thesis
        proof (cases "st = CBI_IO_OK")
          case False
          with y rec opened Inr show thesis by (intro that(2)) auto
        next
          case True
          with y rec opened Inr 3 show thesis
            by (cases "c_cdb c ! 0 = M65_OPCODE_REQUEST_SENSE") (auto intro: that(3,4) simp: not_less)
        qed
      qed
    qed
  qed
qed

lemma execute_request_sense_kept:
  assumes "execute_request_sense ops c padded ctx = (r, d, ctx')" and req: "\<not> cc_recovery_required ctx"
  shows "status_kept (r_transport_status r) ctx ctx'" and "length d = length (command_data c)"
proof -
  obtain st ex d1 det ctx1 where x: "run_exchange ops padded DATA_IN (command_data c) (c_data_length c)
      (c_timeout_ms c) [] ctx = (st, ex, d1, det, ctx1)" by (metis prod_cases5)
  note k = run_exchange_kept [OF x]
  note e = assms(1) [unfolded execute_request_sense_def Let_def x prod.case]
  have d: "d = d1" using e by (auto split: if_splits sum.splits)
  then show "length d = length (command_data c)" using k(2) by simp
  show "status_kept (r_transport_status r) ctx ctx'"
  proof (cases "st = CBI_IO_OK")
    case False
    with e phase_status_kept [OF k(1) req] show ?thesis by auto
  next
    case True
    then have k1: "cc_opened ctx1 = cc_opened ctx" "\<not> cc_recovery_required ctx1"
      using k(1) req by (auto simp: phase_kept_def)
    note e1 = e [unfolded True, simplified]
    show ?thesis
    proof (cases "ex_adsc_stalled ex \<or> ex_data_stalled ex")
      case True
      with e1 k1 show ?thesis by (auto simp: status_kept_def)
    next
      case False
      note e2 = e1 [unfolded if_not_P [OF False]]
      then show ?thesis using k1
        by (cases "m65_parse_sense (Some d1) (ex_transferred ex) zero_sense") (auto simp: status_kept_def)
    qed
  qed
qed

lemma execute_command_kept:
  assumes "execute_command ops c padded ctx = (r, d, ctx')" and req: "\<not> cc_recovery_required ctx"
  shows "status_kept (r_transport_status r) ctx ctx'" and "length d = length (command_data c)"
    and "command_good r \<Longrightarrow> exact_data_required c \<Longrightarrow> r_transferred r = c_data_length c"
    and "command_good r \<Longrightarrow> r_transferred r \<le> c_data_length c \<and> sense_key (r_sense r) \<le> 1"
proof -
  obtain st ex d1 det ctx1 where x: "run_exchange ops padded (c_direction c) (command_data c) (c_data_length c)
      (c_timeout_ms c) [] ctx = (st, ex, d1, det, ctx1)" by (metis prod_cases5)
  note k = run_exchange_kept [OF x]
  let ?res = "zero_result\<lparr>r_transport_status := map_io_status st, r_transferred := ex_transferred ex, r_detail := det\<rparr>"
  obtain st2 sense det2 ctx2 where f: "fetch_sense ops (c_timeout_ms c) zero_sense det ctx1 = (st2, sense, det2, ctx2)"
    by (metis prod_cases4)
  obtain r3 ctx3 where o: "command_outcome c ex (?res\<lparr>r_sense := sense, r_detail := det2\<rparr>) ctx2 = (r3, ctx3)" by force
  have e: "(if st \<noteq> CBI_IO_OK then (?res, d1, ctx1)
      else if st2 \<noteq> TRANSPORT_OK
        then (?res\<lparr>r_sense := sense, r_detail := det2, r_transport_status := st2\<rparr>, d1, ctx2)
        else (r3, d1, ctx3)) = (r, d, ctx')"
    using assms(1) f o
    by (cases "st = CBI_IO_OK"; cases "st2 = TRANSPORT_OK"; simp add: execute_command_def Let_def x)
  have "status_kept (r_transport_status r) ctx ctx' \<and> d = d1 \<and>
    (command_good r \<longrightarrow> (exact_data_required c \<longrightarrow> r_transferred r = c_data_length c) \<and>
       r_transferred r \<le> c_data_length c \<and> sense_key (r_sense r) \<le> 1)"
  proof (cases "st = CBI_IO_OK")
    case False
    with e phase_status_kept [OF k(1) req] show ?thesis by (auto simp: command_good_def)
  next
    case True
    then have k1: "cc_opened ctx1 = cc_opened ctx" "\<not> cc_recovery_required ctx1"
      using k(1) req by (auto simp: phase_kept_def)
    note fk = fetch_sense_kept [OF f k1(2)]
    show ?thesis
    proof (cases "st2 = TRANSPORT_OK")
      case False
      with e True fk k1 show ?thesis by (auto simp: status_kept_def command_good_def)
    next
      case ok: True
      then have k2: "cc_opened ctx2 = cc_opened ctx" "\<not> cc_recovery_required ctx2"
        using fk k1 by (auto simp: status_kept_def)
      have "r = r3" "d = d1" "ctx' = ctx3" using e True ok by simp_all
      with command_outcome_kept [OF o k2(2)] k2 k(4) True show ?thesis
        by (auto simp: status_kept_def)
    qed
  qed
  with k(2) show "status_kept (r_transport_status r) ctx ctx'" "length d = length (command_data c)"
    "command_good r \<Longrightarrow> exact_data_required c \<Longrightarrow> r_transferred r = c_data_length c"
    "command_good r \<Longrightarrow> r_transferred r \<le> c_data_length c \<and> sense_key (r_sense r) \<le> 1" by auto
qed

lemma cbi_execute_opened:
  assumes "cbi_execute ops c ctx = (r, d, ctx')"
  shows "cc_opened ctx' = cc_opened ctx"
  using assms
proof (cases rule: cbi_execute_cases)
  case (unrecovered st det)
  then show ?thesis using recover_state(1) by metis
next
  case (sense det ctx1)
  then show ?thesis using recover_state [OF sense(4)] execute_request_sense_kept(1) [OF sense(6)]
    by (simp add: status_kept_def)
next
  case (executed det ctx1)
  then show ?thesis using recover_state [OF executed(4)] execute_command_kept(1) [OF executed(6)]
    by (simp add: status_kept_def)
qed simp

lemma cbi_execute_exact:
  assumes "cbi_execute ops c ctx = (r, d, ctx')" "command_good r" "exact_data_required c"
    and "m65_validate_command c = Inr ()"
  shows "r_transferred r = c_data_length c"
  using assms(1)
proof (cases rule: cbi_execute_cases)
  case (executed det ctx1)
  then show ?thesis using recover_state(2) [OF executed(4)] execute_command_kept(3) assms(2,3) by blast
next
  case (sense det ctx1)
  then show ?thesis using validate_command_Inr_cases(2) [OF assms(4)] assms(3)
    by (simp add: exact_data_required_def)
qed (use assms(2) in \<open>auto simp: command_good_def\<close>)

interpretation cbi: transport_contract "cbi_ops io" cc_opened "\<lambda>_. True" for io :: "'s cbi_io"
proof unfold_locales
  show "\<And>d s d' s'. acquire_exclusive (cbi_ops io) d s = (TRANSPORT_OK, d', s') \<Longrightarrow> cc_opened s'"
    by (auto simp: cbi_ops_def cbi_acquire_def Let_def split: if_splits prod.splits)
  show "\<And>d s st d' s'. acquire_exclusive (cbi_ops io) d s = (st, d', s') \<Longrightarrow> st \<noteq> TRANSPORT_OK \<Longrightarrow>
      cc_opened s' = cc_opened s"
    by (auto simp: cbi_ops_def cbi_acquire_def Let_def split: if_splits prod.splits)
  show "\<And>d s d' s'. release_exclusive (cbi_ops io) d s = (TRANSPORT_OK, d', s') \<Longrightarrow> \<not> cc_opened s'"
    by (auto simp: cbi_ops_def cbi_release_def Let_def split: if_splits prod.splits)
  show "\<And>c s r b s'. \<not> cc_opened s \<Longrightarrow> execute (cbi_ops io) c s = (r, b, s') \<Longrightarrow>
      r_transport_status r = TRANSPORT_PROTOCOL \<and> s' = s"
    by (auto simp: cbi_ops_def cbi_execute_def refused_def)
qed (auto simp: cbi_ops_def dest: cbi_execute_opened cbi_execute_exact)

end
