(* ===== verification/M65_CbiTrace.thy ===== *)
theory M65_CbiTrace
  imports M65_CbiBasis "HOL-Library.Sublist"
begin

text \<open>
  What the CBI transport (\<open>src/cbi.c\<close>) does to its USB adapter: the calls of one exchange, of a
  command-block reset and of a whole command, read off an adapter that records every call.
\<close>

section \<open>Recording adapters\<close>

datatype io_event =
    IoOpen cbi_io_status | IoClose cbi_io_status | IoAdsc bytes cbi_io_status
  | IoBulkIn nat cbi_io_status | IoBulkOut bytes cbi_io_status
  | IoInterrupt cbi_io_status bytes nat | IoClear data_direction cbi_io_status
  | IoPrepare cbi_io_status | IoFinish bool cbi_io_status

text \<open>The adapter with every call and its outcome appended to a log.\<close>

definition logged_io :: "'s cbi_io \<Rightarrow> ('s \<times> io_event list) cbi_io" where
  "logged_io io =
     \<lparr>io_open_seize = (\<lambda>d (s, l). let (st, d', s') = io_open_seize io d s in (st, d', s', l @ [IoOpen st])),
      io_close = (\<lambda>d (s, l). let (st, d', s') = io_close io d s in (st, d', s', l @ [IoClose st])),
      io_adsc = (\<lambda>c t d (s, l). let (st, d', s') = io_adsc io c t d s in (st, d', s', l @ [IoAdsc c st])),
      io_bulk_in = (\<lambda>n t d (s, l). let (st, b, k, d', s') = io_bulk_in io n t d s
        in (st, b, k, d', s', l @ [IoBulkIn n st])),
      io_bulk_out = (\<lambda>b n t d (s, l). let (st, k, d', s') = io_bulk_out io b n t d s
        in (st, k, d', s', l @ [IoBulkOut b st])),
      io_interrupt_in = (\<lambda>t d (s, l). let (st, b, k, d', s') = io_interrupt_in io t d s
        in (st, b, k, d', s', l @ [IoInterrupt st (fill_buffer b (zeroed 2)) k])),
      io_clear_stall = (\<lambda>dir d (s, l). let (st, d', s') = io_clear_stall io dir d s
        in (st, d', s', l @ [IoClear dir st])),
      io_prepare_reset = (\<lambda>d (s, l). let (st, d', s') = io_prepare_reset io d s in (st, d', s', l @ [IoPrepare st])),
      io_finish_reset = (\<lambda>r d (s, l). let (st, d', s') = io_finish_reset io r d s
        in (st, d', s', l @ [IoFinish r st])),
      io_destroy = (\<lambda>(s, l). (io_destroy io s, l))\<rparr>"

definition io_trace :: "('s \<times> io_event list) cbi_context \<Rightarrow> io_event list" where
  "io_trace ctx = snd (cc_io ctx)"

lemma logged_io_event:
  "io_adsc (logged_io io) c t d sl = (st, d', sl') \<Longrightarrow> snd sl' = snd sl @ [IoAdsc c st]"
  "io_bulk_in (logged_io io) n t d sl = (st, b, k, d', sl') \<Longrightarrow> snd sl' = snd sl @ [IoBulkIn n st]"
  "io_bulk_out (logged_io io) bs n t d sl = (st, k, d', sl') \<Longrightarrow> snd sl' = snd sl @ [IoBulkOut bs st]"
  "io_interrupt_in (logged_io io) t d sl = (st, b, k, d', sl') \<Longrightarrow>
     snd sl' = snd sl @ [IoInterrupt st (fill_buffer b (zeroed 2)) k]"
  "io_clear_stall (logged_io io) dir d sl = (st, d', sl') \<Longrightarrow> snd sl' = snd sl @ [IoClear dir st]"
  "io_prepare_reset (logged_io io) d sl = (st, d', sl') \<Longrightarrow> snd sl' = snd sl @ [IoPrepare st]"
  "io_finish_reset (logged_io io) r d sl = (st, d', sl') \<Longrightarrow> snd sl' = snd sl @ [IoFinish r st]"
  by (auto simp: logged_io_def Let_def split: prod.splits)

lemma io_trace_io [simp]: "io_trace (ctx\<lparr>cc_io := s\<rparr>) = snd s"
  by (simp add: io_trace_def)

lemma io_trace_require [simp]: "io_trace (require_recovery d f ctx) = io_trace ctx"
  by (simp add: io_trace_def)

text \<open>The command blocks and the data sent to the device.\<close>

fun adscs :: "io_event list \<Rightarrow> bytes list" where
  "adscs [] = []"
| "adscs (IoAdsc c st # es) = c # adscs es"
| "adscs (e # es) = adscs es"

fun bulk_outs :: "io_event list \<Rightarrow> bytes list" where
  "bulk_outs [] = []"
| "bulk_outs (IoBulkOut b st # es) = b # bulk_outs es"
| "bulk_outs (e # es) = bulk_outs es"

lemma adscs_append [simp]: "adscs (xs @ ys) = adscs xs @ adscs ys"
  by (induction xs rule: adscs.induct) simp_all

lemma bulk_outs_append [simp]: "bulk_outs (xs @ ys) = bulk_outs xs @ bulk_outs ys"
  by (induction xs rule: bulk_outs.induct) simp_all

section \<open>One exchange\<close>

text \<open>What one exchange does to the adapter: one command block, at most one data phase in the
  command's direction with the command's data, a stall clear of that direction, one interrupt.\<close>

definition exchange_events :: "bytes \<Rightarrow> data_direction \<Rightarrow> bytes \<Rightarrow> io_event list \<Rightarrow> bool" where
  "exchange_events cdb dir data es \<longleftrightarrow> (\<exists>st bulk clear irq. es = IoAdsc cdb st # bulk @ clear @ irq \<and>
     (st \<noteq> CBI_IO_OK \<longrightarrow> bulk @ clear @ irq = []) \<and>
     (bulk = [] \<or> dir = DATA_IN \<and> (\<exists>n s. bulk = [IoBulkIn n s]) \<or>
      dir = DATA_OUT \<and> (\<exists>s. bulk = [IoBulkOut data s])) \<and>
     (clear = [] \<or> (\<exists>s. clear = [IoClear dir s])) \<and>
     (irq = [] \<or> (\<exists>s b k. irq = [IoInterrupt s b k])))"

lemma exchange_events_sent:
  assumes "exchange_events cdb dir data es"
  shows "adscs es = [cdb]" and "bulk_outs es = [] \<or> dir = DATA_OUT \<and> bulk_outs es = [data]"
  using assms by (auto simp: exchange_events_def)

lemma phase_io_failure_trace: "phase_io_failure st operation d ctx = (st', d', ctx') \<Longrightarrow> io_trace ctx' = io_trace ctx"
  by (auto simp: phase_io_failure_def Let_def)

lemma completion_phase_trace:
  assumes "completion_phase (logged_io io) t ex d det ctx = (st, ex', d', det', ctx')"
    and "ex_completion ex = zeroed 2"
  shows "\<exists>s k. io_trace ctx' = io_trace ctx @ [IoInterrupt s (ex_completion ex') k] \<and>
    (st = CBI_IO_OK \<longleftrightarrow> s = CBI_IO_OK \<and> k = 2)"
proof -
  obtain s b k d1 sl where i: "io_interrupt_in (logged_io io) t det (cc_io ctx) = (s, b, k, d1, sl)"
    by (metis prod_cases5)
  show ?thesis using assms logged_io_event(4) [OF i] i
    by (auto simp: completion_phase_def Let_def phase_io_failure_def io_trace_def split: if_splits)
qed

text \<open>The data phase, and how the events of an exchange are put together from its phases.\<close>

definition data_phase :: "data_direction \<Rightarrow> bytes \<Rightarrow> io_event list \<Rightarrow> bool" where
  "data_phase dir data bulk \<longleftrightarrow> bulk = [] \<or> dir = DATA_IN \<and> (\<exists>n s. bulk = [IoBulkIn n s]) \<or>
     dir = DATA_OUT \<and> (\<exists>s. bulk = [IoBulkOut data s])"

lemma data_phase_trace:
  assumes "bulk_transfer (logged_io io) dir d n t det ctx = (st, d', tr, det', ctx')"
  obtains bulk where "io_trace ctx' = io_trace ctx @ bulk" "data_phase dir d bulk"
    "dir = DATA_NONE \<Longrightarrow> bulk = [] \<and> st = CBI_IO_OK"
  using assms
  by (cases dir) (auto simp: data_phase_def bulk_transfer_def Let_def io_trace_def split: prod.splits dest: logged_io_event)

text \<open>What one exchange adds to the log; \<open>exchanged\<close> is the statement about the exchange as a whole.\<close>

definition exchanged :: "bytes \<Rightarrow> data_direction \<Rightarrow> bytes \<Rightarrow> io_event list \<Rightarrow> cbi_io_status \<Rightarrow> cbi_exchange \<Rightarrow>
    io_event list \<Rightarrow> bool" where
  "exchanged cdb dir data before st ex after \<longleftrightarrow> (\<exists>es. after = before @ es \<and> exchange_events cdb dir data es \<and>
     (dir = DATA_NONE \<longrightarrow> st = CBI_IO_OK \<longrightarrow> \<not> ex_adsc_stalled ex \<longrightarrow>
        es = [IoAdsc cdb CBI_IO_OK, IoInterrupt CBI_IO_OK (ex_completion ex) 2]))"

lemma exchanged_refused:
  assumes "after = before @ [IoAdsc cdb s]" "s \<noteq> CBI_IO_OK" "st = CBI_IO_OK \<Longrightarrow> ex_adsc_stalled ex"
  shows "exchanged cdb dir data before st ex after"
proof -
  have "exchange_events cdb dir data [IoAdsc cdb s]"
    unfolding exchange_events_def using assms(2) by (intro exI [of _ s] exI [of _ "[]"]) simp
  with assms show ?thesis unfolding exchanged_def by auto
qed

lemma exchanged_phases:
  assumes "after = before @ IoAdsc cdb CBI_IO_OK # bulk @ clear @ irq" "data_phase dir data bulk"
    and "clear = [] \<or> (\<exists>s. clear = [IoClear dir s])" "irq = [] \<or> (\<exists>s b k. irq = [IoInterrupt s b k])"
    and "dir = DATA_NONE \<Longrightarrow> st = CBI_IO_OK \<Longrightarrow>
      bulk = [] \<and> clear = [] \<and> irq = [IoInterrupt CBI_IO_OK (ex_completion ex) 2]"
  shows "exchanged cdb dir data before st ex after"
proof -
  have "exchange_events cdb dir data (IoAdsc cdb CBI_IO_OK # bulk @ clear @ irq)"
    unfolding exchange_events_def using assms(2-4) [unfolded data_phase_def] by blast
  with assms(1,5) show ?thesis unfolding exchanged_def by auto
qed

lemma adsc_trace: "io_adsc (logged_io io) cdb t det (cc_io ctx) = (st, det', s) \<Longrightarrow> snd s = io_trace ctx @ [IoAdsc cdb st]"
  using logged_io_event(1) by (simp add: io_trace_def)

lemma clear_trace: "io_clear_stall (logged_io io) dir det (cc_io ctx) = (st, det', s) \<Longrightarrow> snd s = io_trace ctx @ [IoClear dir st]"
  using logged_io_event(5) by (simp add: io_trace_def)

lemma failure_trace:
  "phase_io_failure st op det ctx = (st', det', ctx') \<Longrightarrow> io_trace ctx' = io_trace ctx \<and> st' = st"
  by (auto simp: phase_io_failure_def Let_def)

lemma run_exchange_exchanged:
  assumes "run_exchange (logged_io io) cdb dir d n t det ctx = (st, ex, d', det', ctx')"
  shows "exchanged cdb dir d (io_trace ctx) st ex (io_trace ctx')"
  using assms
proof (cases rule: run_exchange_cases)
  case (command st1)
  with adsc_trace [OF command(1)] show ?thesis
    by (intro exchanged_refused [of _ _ _ st1]) (auto dest: failure_trace)
next
  case data
  obtain bulk where "io_trace ctx' = io_trace ctx @ IoAdsc cdb CBI_IO_OK # bulk" "data_phase dir d bulk" "st \<noteq> CBI_IO_OK"
    by (rule data_phase_trace [OF data(2)]) (use data(4) adsc_trace [OF data(1)] in \<open>auto dest!: failure_trace\<close>)
  then show ?thesis by (intro exchanged_phases [of _ _ _ bulk "[]" "[]"]) auto
next
  case (clear _ _ _ _ _ st3)
  obtain bulk where "io_trace ctx' = io_trace ctx @ IoAdsc cdb CBI_IO_OK # bulk @ [IoClear dir st3]"
      "data_phase dir d bulk" "st \<noteq> CBI_IO_OK"
    by (rule data_phase_trace [OF clear(2)])
      (use clear(4,6) adsc_trace [OF clear(1)] clear_trace [OF clear(3)] in \<open>auto dest!: failure_trace\<close>)
  then show ?thesis by (intro exchanged_phases [of _ _ _ bulk "[IoClear dir st3]" "[]"]) auto
next
  case cleared
  obtain bulk s k where "io_trace ctx' =
      io_trace ctx @ IoAdsc cdb CBI_IO_OK # bulk @ [IoClear dir CBI_IO_OK] @ [IoInterrupt s (ex_completion ex) k]"
      "data_phase dir d bulk" "dir \<noteq> DATA_NONE"
    by (rule data_phase_trace [OF cleared(2)]) (use adsc_trace [OF cleared(1)] clear_trace [OF cleared(3)]
      completion_phase_trace [OF cleared(4)] in \<open>auto simp: zero_exchange_def\<close>)
  then show ?thesis
    by (intro exchanged_phases [of _ _ _ bulk "[IoClear dir CBI_IO_OK]" "[IoInterrupt s (ex_completion ex) k]"]) auto
next
  case moved
  obtain bulk s k where "io_trace ctx' = io_trace ctx @ IoAdsc cdb CBI_IO_OK # bulk @ [IoInterrupt s (ex_completion ex) k]"
      "data_phase dir d bulk" "st = CBI_IO_OK \<longleftrightarrow> s = CBI_IO_OK \<and> k = 2" "dir = DATA_NONE \<Longrightarrow> bulk = []"
    by (rule data_phase_trace [OF moved(2)])
      (use adsc_trace [OF moved(1)] completion_phase_trace [OF moved(4)] in \<open>auto simp: zero_exchange_def\<close>)
  then show ?thesis
    by (intro exchanged_phases [of _ _ _ bulk "[]" "[IoInterrupt s (ex_completion ex) k]"]) auto
qed

lemmas run_exchange_trace = run_exchange_exchanged [unfolded exchanged_def]


section \<open>Recovery\<close>

text \<open>A command-block reset that succeeds.\<close>

definition reset_script :: "io_event list" where
  "reset_script = [IoPrepare CBI_IO_OK, IoAdsc reset_cdb CBI_IO_OK, IoInterrupt CBI_IO_OK [0, 0] 2,
     IoClear DATA_IN CBI_IO_OK, IoClear DATA_OUT CBI_IO_OK, IoFinish True CBI_IO_OK]"

text \<open>One that fails: the permission is refused, or it is granted and then consumed exactly once.\<close>

definition reset_failure :: "io_event list \<Rightarrow> bool" where
  "reset_failure es \<longleftrightarrow> (\<exists>s. s \<noteq> CBI_IO_OK \<and> es = [IoPrepare s]) \<or>
     (\<exists>ex clears b s. es = IoPrepare CBI_IO_OK # ex @ clears @ [IoFinish b s] \<and>
        exchange_events reset_cdb DATA_NONE [] ex \<and>
        (clears = [] \<or> (\<exists>a b. clears = [IoClear DATA_IN a, IoClear DATA_OUT b])) \<and>
        (b \<longrightarrow> s \<noteq> CBI_IO_OK))"

lemma reset_script_sent: "adscs reset_script = [reset_cdb]" "bulk_outs reset_script = []"
  by (simp_all add: reset_script_def)

lemma reset_failure_sent:
  assumes "reset_failure es" shows "prefix (adscs es) [reset_cdb]" and "bulk_outs es = []"
  using assms by (auto simp: reset_failure_def dest: exchange_events_sent)

lemma clear_after_reset_trace:
  assumes "clear_after_reset (logged_io io) ff f ctx = (ff', f', ctx')"
  shows "\<exists>a b. io_trace ctx' = io_trace ctx @ [IoClear DATA_IN a, IoClear DATA_OUT b] \<and>
    (ff' = CBI_IO_OK \<longrightarrow> a = CBI_IO_OK \<and> b = CBI_IO_OK)"
proof -
  obtain a da s where i: "io_clear_stall (logged_io io) DATA_IN [] (cc_io ctx) = (a, da, s)" by (metis prod_cases3)
  obtain b db s' where o: "io_clear_stall (logged_io io) DATA_OUT [] s = (b, db, s')" by (metis prod_cases3)
  have "snd s' = io_trace ctx @ [IoClear DATA_IN a, IoClear DATA_OUT b]"
    using logged_io_event(5) [OF i] logged_io_event(5) [OF o] by (simp add: io_trace_def)
  moreover have "ctx' = ctx\<lparr>cc_io := s'\<rparr>" "ff' = CBI_IO_OK \<longrightarrow> a = CBI_IO_OK \<and> b = CBI_IO_OK"
    using assms unfolding clear_after_reset_def Let_def i o prod.case by (auto split: if_splits)
  ultimately show ?thesis by auto
qed

lemma finish_reset_trace:
  assumes "finish_reset (logged_io io) rc ff f det ctx = (st, det', ctx')"
  shows "\<exists>b s. io_trace ctx' = io_trace ctx @ [IoFinish b s] \<and> (b \<longleftrightarrow> rc \<and> ff = CBI_IO_OK) \<and>
    (st = CBI_IO_OK \<longleftrightarrow> b \<and> s = CBI_IO_OK)"
proof -
  obtain s ds sl where i: "io_finish_reset (logged_io io) (rc \<and> ff = CBI_IO_OK) [] (cc_io ctx) = (s, ds, sl)"
    by (metis prod_cases3)
  have "snd sl = io_trace ctx @ [IoFinish (rc \<and> ff = CBI_IO_OK) s]"
    using logged_io_event(7) [OF i] by (simp add: io_trace_def)
  moreover have "io_trace ctx' = snd sl \<and> (st = CBI_IO_OK \<longleftrightarrow> (rc \<and> ff = CBI_IO_OK) \<and> s = CBI_IO_OK)"
    using assms unfolding finish_reset_def Let_def i prod.case by (auto simp: io_trace_def split: if_splits)
  ultimately show ?thesis by auto
qed

lemma reset_outcome_clean:
  assumes "reset_exchange_outcome st ex det = (True, ff, f)" "length (ex_completion ex) = 2"
  shows "st = CBI_IO_OK" "\<not> ex_adsc_stalled ex" "ex_completion ex = [0, 0]"
proof -
  show "st = CBI_IO_OK" "\<not> ex_adsc_stalled ex"
    using assms(1) by (auto simp: reset_exchange_outcome_def split: if_splits)
  have "ex_completion ex ! 0 = 0" "ex_completion ex ! 1 = 0"
    using assms(1) by (auto simp: reset_exchange_outcome_def split: if_splits)
  then show "ex_completion ex = [0, 0]"
    using assms(2) by (intro nth_equalityI) (auto simp: less_Suc_eq numeral_2_eq_2)
qed

lemma clear_stage_trace:
  assumes "(if rc then clear_after_reset (logged_io io) ff f ctx else (ff, f, ctx)) = (ff', f', ctx')"
  obtains cl where "io_trace ctx' = io_trace ctx @ cl" "cl = [] \<or> (\<exists>a b. cl = [IoClear DATA_IN a, IoClear DATA_OUT b])"
    "rc \<and> ff' = CBI_IO_OK \<longrightarrow> cl = [IoClear DATA_IN CBI_IO_OK, IoClear DATA_OUT CBI_IO_OK]"
proof (cases rc)
  case True
  with assms have "clear_after_reset (logged_io io) ff f ctx = (ff', f', ctx')" by simp
  from clear_after_reset_trace [OF this] show thesis by (elim exE conjE) (rule that, auto)
next
  case False
  with assms show thesis by (intro that [of "[]"]) auto
qed

lemma recover_trace:
  assumes "recover_if_required (logged_io io) t det ctx = (st, det', ctx')" and req: "cc_recovery_required ctx"
  shows "\<exists>es. io_trace ctx' = io_trace ctx @ es \<and>
    (if st = CBI_IO_OK then es = reset_script else reset_failure es)"
proof -
  obtain st1 d1 s1 where p: "io_prepare_reset (logged_io io) [] (cc_io ctx) = (st1, d1, s1)" by (metis prod_cases3)
  have tp: "snd s1 = io_trace ctx @ [IoPrepare st1]" using logged_io_event(6) [OF p] by (simp add: io_trace_def)
  obtain st2 ex d2 det2 ctx2 where r: "run_exchange (logged_io io) reset_cdb DATA_NONE [] 0 t d1 (ctx\<lparr>cc_io := s1\<rparr>) =
      (st2, ex, d2, det2, ctx2)" by (metis prod_cases5)
  obtain xs where x: "io_trace ctx2 = snd s1 @ xs" "exchange_events reset_cdb DATA_NONE [] xs"
    "st2 = CBI_IO_OK \<longrightarrow> \<not> ex_adsc_stalled ex \<longrightarrow> xs = [IoAdsc reset_cdb CBI_IO_OK, IoInterrupt CBI_IO_OK (ex_completion ex) 2]"
    using run_exchange_trace [OF r] by auto
  obtain rc ff f where o: "reset_exchange_outcome st2 ex det2 = (rc, ff, f)" by (metis prod_cases3)
  have rc: "rc \<Longrightarrow> xs = [IoAdsc reset_cdb CBI_IO_OK, IoInterrupt CBI_IO_OK [0, 0] 2]"
    using x(3) reset_outcome_clean [of st2 ex det2 ff f] o run_exchange_kept(3) [OF r] by simp
  obtain ff' f' ctx3 where c: "(if rc then clear_after_reset (logged_io io) ff f ctx2 else (ff, f, ctx2)) = (ff', f', ctx3)"
    by (metis prod_cases3)
  then obtain cl where cl: "io_trace ctx3 = io_trace ctx2 @ cl"
    "cl = [] \<or> (\<exists>a b. cl = [IoClear DATA_IN a, IoClear DATA_OUT b])"
    "rc \<and> ff' = CBI_IO_OK \<longrightarrow> cl = [IoClear DATA_IN CBI_IO_OK, IoClear DATA_OUT CBI_IO_OK]"
    by (rule clear_stage_trace)
  show ?thesis
  proof (cases "st1 = CBI_IO_OK")
    case False
    with assms(1) p req have "st = st1" "io_trace ctx' = snd s1" by (auto simp: recover_if_required_def Let_def)
    with tp False show ?thesis by (auto simp: reset_failure_def)
  next
    case ok: True
    with assms(1) p req r o c have "finish_reset (logged_io io) rc ff' f' det ctx3 = (st, det', ctx')"
      by (simp add: recover_if_required_def Let_def)
    from finish_reset_trace [OF this] obtain b s where fin: "io_trace ctx' = io_trace ctx3 @ [IoFinish b s]"
      "b \<longleftrightarrow> rc \<and> ff' = CBI_IO_OK" "st = CBI_IO_OK \<longleftrightarrow> b \<and> s = CBI_IO_OK" by auto
    have t: "io_trace ctx' = io_trace ctx @ IoPrepare CBI_IO_OK # xs @ cl @ [IoFinish b s]"
      using fin(1) cl(1) x(1) tp ok by simp
    show ?thesis
    proof (cases "st = CBI_IO_OK")
      case True
      with fin rc cl(3) t show ?thesis by (simp add: reset_script_def)
    next
      case False
      then have "reset_failure (IoPrepare CBI_IO_OK # xs @ cl @ [IoFinish b s])"
        unfolding reset_failure_def using x(2) cl(2) fin(3) by blast
      with t False show ?thesis by auto
    qed
  qed
qed


section \<open>Commands\<close>

definition request_sense_block :: bytes where
  "request_sense_block = pad_cdb (m65_cdb_request_sense (of_nat M65_UFI_SENSE_LENGTH))"

definition command_block :: "m65_command \<Rightarrow> bytes" where
  "command_block c = pad_cdb (c_cdb c, c_cdb_length c)"

lemma exchange_events_in:
  "exchange_events cdb DATA_IN d es \<Longrightarrow> adscs es = [cdb] \<and> bulk_outs es = []"
  using exchange_events_sent [of cdb DATA_IN d es] by auto

lemma fetch_sense_trace:
  assumes "fetch_sense (logged_io io) t sense det ctx = (st, sense', det', ctx')"
  shows "\<exists>es d. io_trace ctx' = io_trace ctx @ es \<and> exchange_events request_sense_block DATA_IN d es"
proof -
  obtain st1 ex d1 det1 ctx1 where x: "run_exchange (logged_io io) (pad_cdb (m65_cdb_request_sense (of_nat M65_UFI_SENSE_LENGTH)))
      DATA_IN (zeroed M65_UFI_SENSE_LENGTH) M65_UFI_SENSE_LENGTH t det ctx = (st1, ex, d1, det1, ctx1)"
    by (metis prod_cases5)
  have "io_trace ctx' = io_trace ctx1"
    using assms [unfolded fetch_sense_def Let_def x prod.case]
    by (auto simp: sense_failure_def Let_def split: if_splits sum.splits)
  then show ?thesis using run_exchange_trace [OF x] by (auto simp: request_sense_block_def)
qed

lemma execute_request_sense_trace:
  assumes "execute_request_sense (logged_io io) c padded ctx = (r, d, ctx')"
  shows "\<exists>es. io_trace ctx' = io_trace ctx @ es \<and> exchange_events padded DATA_IN (command_data c) es"
proof -
  obtain st ex d1 det ctx1 where x: "run_exchange (logged_io io) padded DATA_IN (command_data c) (c_data_length c)
      (c_timeout_ms c) [] ctx = (st, ex, d1, det, ctx1)" by (metis prod_cases5)
  have "io_trace ctx' = io_trace ctx1"
    using assms [unfolded execute_request_sense_def Let_def x prod.case]
    by (auto split: if_splits sum.splits)
  then show ?thesis using run_exchange_trace [OF x] by auto
qed

lemma command_outcome_trace:
  "command_outcome c ex res ctx = (r, ctx') \<Longrightarrow> io_trace ctx' = io_trace ctx"
  by (erule command_outcome_cases) simp_all

lemma execute_command_trace:
  assumes "execute_command (logged_io io) c padded ctx = (r, d, ctx')"
  shows "\<exists>es fs. io_trace ctx' = io_trace ctx @ es @ fs \<and>
    exchange_events padded (c_direction c) (command_data c) es \<and>
    (fs = [] \<and> r_transport_status r \<noteq> TRANSPORT_OK \<or> (\<exists>b. exchange_events request_sense_block DATA_IN b fs))"
proof -
  obtain st ex d1 det ctx1 where x: "run_exchange (logged_io io) padded (c_direction c) (command_data c) (c_data_length c)
      (c_timeout_ms c) [] ctx = (st, ex, d1, det, ctx1)" by (metis prod_cases5)
  let ?res = "zero_result\<lparr>r_transport_status := map_io_status st, r_transferred := ex_transferred ex, r_detail := det\<rparr>"
  obtain st2 sense det2 ctx2 where f: "fetch_sense (logged_io io) (c_timeout_ms c) zero_sense det ctx1 = (st2, sense, det2, ctx2)"
    by (metis prod_cases4)
  obtain r3 ctx3 where o: "command_outcome c ex (?res\<lparr>r_sense := sense, r_detail := det2\<rparr>) ctx2 = (r3, ctx3)" by force
  have e: "(if st \<noteq> CBI_IO_OK then (?res, d1, ctx1)
      else if st2 \<noteq> TRANSPORT_OK
        then (?res\<lparr>r_sense := sense, r_detail := det2, r_transport_status := st2\<rparr>, d1, ctx2)
        else (r3, d1, ctx3)) = (r, d, ctx')"
    using assms(1) f o
    by (cases "st = CBI_IO_OK"; cases "st2 = TRANSPORT_OK"; simp add: execute_command_def Let_def x)
  obtain es where es: "io_trace ctx1 = io_trace ctx @ es" "exchange_events padded (c_direction c) (command_data c) es"
    using run_exchange_trace [OF x] by auto
  show ?thesis
  proof (cases "st = CBI_IO_OK")
    case False
    with e have "ctx' = ctx1" "r_transport_status r \<noteq> TRANSPORT_OK" by auto
    with es show ?thesis by (intro exI [of _ es] exI [of _ "[]"]) simp
  next
    case True
    obtain fs b where fs: "io_trace ctx2 = io_trace ctx1 @ fs" "exchange_events request_sense_block DATA_IN b fs"
      using fetch_sense_trace [OF f] by auto
    have "io_trace ctx' = io_trace ctx2"
      using e True command_outcome_trace [OF o] by (cases "st2 = TRANSPORT_OK") auto
    with es fs show ?thesis by (intro exI [of _ es] exI [of _ fs]) auto
  qed
qed

text \<open>The command blocks and the data an accepted command is allowed to send.\<close>

definition planned_blocks :: "m65_command \<Rightarrow> bytes list" where
  "planned_blocks c =
     (if m65_validate_command c \<noteq> Inr () then []
      else if c_cdb c ! 0 = M65_OPCODE_REQUEST_SENSE then [command_block c]
      else [command_block c, request_sense_block])"

definition planned_data :: "m65_command \<Rightarrow> bytes list" where
  "planned_data c = (if m65_validate_command c = Inr () \<and> c_direction c = DATA_OUT then [command_data c] else [])"

lemma cbi_execute_trace_cases:
  assumes "cbi_execute (logged_io io) c ctx = (r, d, ctx')"
  obtains (refused) "ctx' = ctx" "r_transport_status r = TRANSPORT_PROTOCOL"
  | (unrecovered) es where "cc_opened ctx" "cc_recovery_required ctx" "cc_recovery_required ctx'"
      "io_trace ctx' = io_trace ctx @ es" "reset_failure es" "r_transport_status r \<noteq> TRANSPORT_OK"
  | (executed) rec es where "cc_opened ctx" "rec = (if cc_recovery_required ctx then reset_script else [])"
      "io_trace ctx' = io_trace ctx @ rec @ es" "prefix (adscs es) (planned_blocks c)"
      "prefix (bulk_outs es) (planned_data c)" "r_transport_status r = TRANSPORT_OK \<longrightarrow> adscs es = planned_blocks c"
proof -
  have recd: "io_trace ctx1 = io_trace ctx @ (if cc_recovery_required ctx then reset_script else [])"
    if "recover_if_required (logged_io io) t [] ctx = (CBI_IO_OK, det, ctx1)" for t det ctx1
  proof (cases "cc_recovery_required ctx")
    case True
    from recover_trace [OF that this] True show ?thesis by auto
  next
    case False
    with that show ?thesis by (simp add: recover_if_required_def)
  qed
  from assms show thesis
  proof (cases rule: cbi_execute_cases)
    case refused
    then show thesis using that(1) by blast
  next
    case (unrecovered st det)
    then have req': "cc_recovery_required ctx'" using recover_state(2) [OF unrecovered(3)] by simp
    have req: "cc_recovery_required ctx"
      by (rule ccontr) (use unrecovered(3,4) in \<open>simp add: recover_if_required_def\<close>)
    obtain es where "io_trace ctx' = io_trace ctx @ es" "reset_failure es"
      using recover_trace [OF unrecovered(3) req(1)] unrecovered(4) by auto
    with req req' unrecovered show thesis by (intro that(2)) auto
  next
    case (sense det ctx1)
    obtain es where es: "io_trace ctx' = io_trace ctx1 @ es"
      "exchange_events (pad_cdb (c_cdb c, c_cdb_length c)) DATA_IN (command_data c) es"
      using execute_request_sense_trace [OF sense(6)] by auto
    with exchange_events_in [OF es(2)] recd [OF sense(4)] sense show thesis
      by (intro that(3)) (auto simp: planned_blocks_def command_block_def)
  next
    case (executed det ctx1)
    obtain es fs where es: "io_trace ctx' = io_trace ctx1 @ es @ fs"
      "exchange_events (pad_cdb (c_cdb c, c_cdb_length c)) (c_direction c) (command_data c) es"
      "fs = [] \<and> r_transport_status r \<noteq> TRANSPORT_OK \<or> (\<exists>b. exchange_events request_sense_block DATA_IN b fs)"
      using execute_command_trace [OF executed(6)] by auto
    have f: "adscs fs = [] \<and> r_transport_status r \<noteq> TRANSPORT_OK \<or> adscs fs = [request_sense_block]" "bulk_outs fs = []"
      using es(3) exchange_events_in by auto
    from es(1) recd [OF executed(4)] f exchange_events_sent [OF es(2)] executed show thesis
      by (intro that(3) [of _ "es @ fs"]) (auto simp: planned_blocks_def planned_data_def command_block_def)
  qed
qed

end
