(* ===== verification/M65_CbiProps.thy ===== *)
theory M65_CbiProps
  imports M65_CbiTrace M65_ProbeClient M65_Fake
begin

text \<open>
  The CBI transport (\<open>src/cbi.c\<close>) under the probe (\<open>src/probe.c\<close>): what a command may send to the
  device, when recovery runs, what a result says, and whole sessions over any USB adapter.
\<close>

section \<open>Hosts and adapters\<close>

text \<open>A host of the adapter's state as the host of the transport's.\<close>

definition cbi_host :: "'s host \<Rightarrow> 's cbi_context host" where
  "cbi_host host =
     \<lparr>h_signals = (\<lambda>ctx. let (b, s) = h_signals host (cc_io ctx) in (b, ctx\<lparr>cc_io := s\<rparr>)),
      h_malloc = (\<lambda>n ctx. let (m, s) = h_malloc host n (cc_io ctx) in (m, ctx\<lparr>cc_io := s\<rparr>)),
      h_stack_block = h_stack_block host\<rparr>"

definition logged_io_host :: "'s host \<Rightarrow> ('s \<times> io_event list) host" where
  "logged_io_host host =
     \<lparr>h_signals = (\<lambda>(s, l). let (b, s') = h_signals host s in (b, (s', l))),
      h_malloc = (\<lambda>n (s, l). let (m, s') = h_malloc host n s in (m, (s', l))),
      h_stack_block = h_stack_block host\<rparr>"

lemma cbi_host_keeps:
  "h_signals (cbi_host h) ctx = (b, ctx') \<Longrightarrow> cc_opened ctx' = cc_opened ctx"
  "h_malloc (cbi_host h) n ctx = (m, ctx') \<Longrightarrow> cc_opened ctx' = cc_opened ctx"
  by (auto simp: cbi_host_def Let_def split: prod.splits)

lemma cbi_host_trace:
  "h_signals (cbi_host (logged_io_host h)) ctx = (b, ctx') \<Longrightarrow> io_trace ctx' = io_trace ctx"
  "h_malloc (cbi_host (logged_io_host h)) n ctx = (m, ctx') \<Longrightarrow> io_trace ctx' = io_trace ctx"
  by (auto simp: cbi_host_def logged_io_host_def io_trace_def Let_def split: prod.splits)

section \<open>What may reach the device\<close>

text \<open>A command block of the allowlist, with the save-pages bit of MODE SELECT clear, or the CBI
  reset; data of MODE SELECT only, one Flexible Disk page behind an empty header.\<close>

definition allowed_block :: "bytes \<Rightarrow> bool" where
  "allowed_block b \<longleftrightarrow> length b = 12 \<and>
     (b = reset_cdb \<or> b ! 0 \<in> allowlist \<and> (b ! 0 = M65_OPCODE_MODE_SELECT_10 \<longrightarrow> b ! 1 AND 1 = 0))"

definition allowed_data :: "bytes \<Rightarrow> bool" where
  "allowed_data d \<longleftrightarrow> list_all (\<lambda>i. d ! i = 0) [0..<8] \<and> d ! 8 = M65_FLEXIBLE_DISK_PAGE \<and> d ! 9 = 30"

definition cautious :: "('s \<times> io_event list) cbi_context \<Rightarrow> bool" where
  "cautious ctx \<longleftrightarrow> list_all allowed_block (adscs (io_trace ctx)) \<and>
     list_all allowed_data (bulk_outs (io_trace ctx))"

lemma length_pad_cdb: "snd p \<le> 12 \<Longrightarrow> length (pad_cdb p) = 12"
  by (simp add: pad_cdb_def length_buf_write)

lemma pad_cdb_nth:
  assumes "snd p \<le> 12" "i < snd p"
  shows "pad_cdb p ! i = (if i < length (fst p) then fst p ! i else 0)"
  using assms by (simp add: pad_cdb_def nth_buf_write)

lemma validated_length: "m65_validate_command c = Inr () \<Longrightarrow> 6 \<le> c_cdb_length c \<and> c_cdb_length c \<le> 12"
  using validate_command_Inr_cases(3) by (auto split: if_splits)

lemma validated_select_sp:
  assumes "m65_validate_command c = Inr ()" and "c_cdb c ! 0 = M65_OPCODE_MODE_SELECT_10"
  shows "c_cdb c ! 1 = 0x10" and "allowed_data (the (c_data c))"
  using assms by (auto simp: m65_validate_command_def validate_data_Inr Let_def allowed_data_def
      list_ex_iff list_all_iff split: if_splits)

lemma command_block_allowed:
  assumes v: "m65_validate_command c = Inr ()"
  shows "allowed_block (command_block c)" and "command_block c \<noteq> reset_cdb"
proof -
  note l = validated_length [OF v]
  have n: "command_block c ! i = (if i < length (c_cdb c) then c_cdb c ! i else 0)" if "i < 6" for i
    using pad_cdb_nth [of "(c_cdb c, c_cdb_length c)" i] that l by (simp add: command_block_def)
  have o: "command_block c ! 0 \<in> allowlist"
    using n [of 0] validate_command_Inr_cases(1) [OF v] by (auto simp: allowlist_def)
  then show "command_block c \<noteq> reset_cdb" by (auto simp: reset_cdb_def allowlist_def)
  have "command_block c ! 1 AND 1 = 0" if "command_block c ! 0 = M65_OPCODE_MODE_SELECT_10"
  proof (cases "1 < length (c_cdb c)")
    case True
    with that n [of 0] have "c_cdb c ! 0 = M65_OPCODE_MODE_SELECT_10" by (auto split: if_splits)
    then show ?thesis using n [of 1] True validated_select_sp(1) [OF v] by simp
  next
    case False
    then show ?thesis using n [of 1] by simp
  qed
  then show "allowed_block (command_block c)"
    using o l by (simp add: allowed_block_def command_block_def length_pad_cdb)
qed

lemma request_sense_block_eq: "request_sense_block = [3, 0, 0, 0, 18, 0, 0, 0, 0, 0, 0, 0]"
  by (simp add: request_sense_block_def pad_cdb_def m65_cdb_request_sense_def cdb_clear_def
      buf_write_def zeroed_def numeral_eq_Suc)

lemma planned_allowed:
  "list_all allowed_block (planned_blocks c)" "list_all allowed_data (planned_data c)"
  "reset_cdb \<notin> set (planned_blocks c)"
proof -
  have r: "allowed_block request_sense_block" "request_sense_block \<noteq> reset_cdb"
    by (simp_all add: request_sense_block_eq allowed_block_def allowlist_def reset_cdb_def)
  then show "list_all allowed_block (planned_blocks c)" "reset_cdb \<notin> set (planned_blocks c)"
    using command_block_allowed [of c] by (auto simp: planned_blocks_def split: if_splits)
  have "allowed_data (command_data c)" if "m65_validate_command c = Inr ()" "c_direction c = DATA_OUT"
  proof -
    have "c_cdb c ! 0 = M65_OPCODE_MODE_SELECT_10" "c_data c \<noteq> None"
      using validate_command_Inr_cases(2,4) [OF that(1)] that(2) by (auto split: if_splits)
    with validated_select_sp(2) [OF that(1)] show ?thesis by (auto simp: command_data_def)
  qed
  then show "list_all allowed_data (planned_data c)" by (simp add: planned_data_def)
qed

lemma reset_cdb_allowed: "allowed_block reset_cdb"
  by (simp add: allowed_block_def reset_cdb_def)

lemma list_all_prefix: "prefix xs ys \<Longrightarrow> list_all P ys \<Longrightarrow> list_all P xs"
  by (auto simp: prefix_def)

lemma cbi_execute_cautious:
  assumes "cbi_execute (logged_io io) c ctx = (r, d, ctx')" and "cautious ctx"
  shows "cautious ctx'"
  using assms(1)
proof (cases rule: cbi_execute_trace_cases)
  case (unrecovered es)
  then show ?thesis using assms(2) reset_cdb_allowed
      list_all_prefix [OF reset_failure_sent(1) [OF unrecovered(5)], of allowed_block] reset_failure_sent(2)
    by (simp add: cautious_def)
next
  case (executed rec es)
  have "adscs rec = [] \<or> adscs rec = [reset_cdb]" "bulk_outs rec = []"
    using executed(2) reset_script_sent by (auto split: if_splits)
  then show ?thesis using assms(2) executed(3) reset_cdb_allowed
      list_all_prefix [OF executed(4) planned_allowed(1)] list_all_prefix [OF executed(5) planned_allowed(2)]
    by (auto simp: cautious_def)
qed (use assms(2) in simp)


section \<open>The probe over the CBI transport and over the simulated controller\<close>

interpretation cbi_probe: probe_client "cbi_ops io" cc_opened "\<lambda>_. True" "cbi_host h"
  for io :: "'s cbi_io" and h :: "'s host"
  by unfold_locales (auto dest: cbi_host_keeps)

lemma acquire_trace:
  "cbi_acquire (logged_io io) d ctx = (st, d', ctx') \<Longrightarrow>
     \<exists>es. io_trace ctx' = io_trace ctx @ es \<and> adscs es = [] \<and> bulk_outs es = []"
  by (auto simp: cbi_acquire_def logged_io_def io_trace_def Let_def split: prod.splits if_splits)

lemma release_trace:
  "cbi_release (logged_io io) d ctx = (st, d', ctx') \<Longrightarrow>
     \<exists>es. io_trace ctx' = io_trace ctx @ es \<and> adscs es = [] \<and> bulk_outs es = []"
  by (auto simp: cbi_release_def logged_io_def io_trace_def Let_def split: prod.splits if_splits)

interpretation cautious_probe: probe_client "cbi_ops (logged_io io)" cc_opened cautious "cbi_host (logged_io_host h)"
  for io :: "'s cbi_io" and h :: "'s host"
proof unfold_locales
  show "\<And>d s st d' s'. acquire_exclusive (cbi_ops (logged_io io)) d s = (st, d', s') \<Longrightarrow> cautious s \<Longrightarrow> cautious s'"
    by (auto simp: cbi_ops_def cautious_def dest!: acquire_trace)
  show "\<And>d s st d' s'. release_exclusive (cbi_ops (logged_io io)) d s = (st, d', s') \<Longrightarrow> cautious s \<Longrightarrow> cautious s'"
    by (auto simp: cbi_ops_def cautious_def dest!: release_trace)
  show "\<And>c s r b s'. execute (cbi_ops (logged_io io)) c s = (r, b, s') \<Longrightarrow> cautious s \<Longrightarrow> cautious s'"
    by (auto simp: cbi_ops_def dest: cbi_execute_cautious)
qed (auto simp: cautious_def dest: cbi_host_keeps cbi_host_trace cbi.acquire_ok cbi.acquire_fails
    cbi.release_ok cbi.execute_acquired cbi.execute_refused cbi.execute_exact)

interpretation fake_probe: probe_client fake_ops f_acquired "\<lambda>fake. f_fail_status fake \<noteq> TRANSPORT_OK" fake_host
  by unfold_locales (auto simp: fake_host_def)

section \<open>Properties\<close>

text \<open>C12 Whatever the adapter does, one command puts nothing on the bus but the command-block reset,
  its own validated block and the automatic REQUEST SENSE, in this order, and no data but the
  validated payload of a data-out command; success means that every planned block was sent.\<close>

theorem cbi_execute_sends_planned:
  "case cbi_execute (logged_io io) c ctx of (r, d, ctx') \<Rightarrow>
     \<exists>recovery es. io_trace ctx' = io_trace ctx @ recovery @ es \<and>
       prefix (adscs recovery) [reset_cdb] \<and> bulk_outs recovery = [] \<and>
       prefix (adscs es) (planned_blocks c) \<and> prefix (bulk_outs es) (planned_data c) \<and>
       list_all allowed_block (planned_blocks c) \<and> list_all allowed_data (planned_data c) \<and>
       (if r_transport_status r = TRANSPORT_OK then adscs es = planned_blocks c else True)"
proof -
  obtain r d ctx' where x: "cbi_execute (logged_io io) c ctx = (r, d, ctx')" by (metis prod_cases3)
  from x have "\<exists>recovery es. io_trace ctx' = io_trace ctx @ recovery @ es \<and>
       prefix (adscs recovery) [reset_cdb] \<and> bulk_outs recovery = [] \<and>
       prefix (adscs es) (planned_blocks c) \<and> prefix (bulk_outs es) (planned_data c) \<and>
       (r_transport_status r = TRANSPORT_OK \<longrightarrow> adscs es = planned_blocks c)"
  proof (cases rule: cbi_execute_trace_cases)
    case refused
    then show ?thesis by (intro exI [of _ "[]"]) simp
  next
    case (unrecovered es)
    then show ?thesis using reset_failure_sent [OF unrecovered(5)]
      by (intro exI [of _ es] exI [of _ "[]"]) simp
  next
    case (executed rec es)
    moreover have "prefix (adscs rec) [reset_cdb]" "bulk_outs rec = []"
      using executed(2) reset_script_sent by (auto split: if_splits)
    ultimately show ?thesis by (intro exI [of _ rec] exI [of _ es]) simp
  qed
  with x planned_allowed show ?thesis by auto
qed

text \<open>C13 Once the phase is lost nothing but the reset is sent until a reset succeeded completely:
  permission, reset block, a two-byte zero completion, both bulk pipes cleared and the permission
  consumed. A failed reset consumes the permission it was granted and keeps the need for recovery.\<close>

theorem cbi_recovers_first:
  "case cbi_execute (logged_io io) c ctx of (r, d, ctx') \<Rightarrow>
     \<exists>recovery es. io_trace ctx' = io_trace ctx @ recovery @ es \<and> reset_cdb \<notin> set (adscs es) \<and>
       (if \<not> cc_recovery_required ctx then recovery = []
        else recovery = reset_script \<or>
             es = [] \<and> (recovery = [] \<or> reset_failure recovery) \<and> cc_recovery_required ctx' \<and>
             r_transport_status r \<noteq> TRANSPORT_OK)"
proof -
  obtain r d ctx' where x: "cbi_execute (logged_io io) c ctx = (r, d, ctx')" by (metis prod_cases3)
  from x have "\<exists>recovery es. io_trace ctx' = io_trace ctx @ recovery @ es \<and> reset_cdb \<notin> set (adscs es) \<and>
       (if \<not> cc_recovery_required ctx then recovery = []
        else recovery = reset_script \<or>
             es = [] \<and> (recovery = [] \<or> reset_failure recovery) \<and> cc_recovery_required ctx' \<and>
             r_transport_status r \<noteq> TRANSPORT_OK)"
  proof (cases rule: cbi_execute_trace_cases)
    case refused
    then show ?thesis by (intro exI [of _ "[]"]) simp
  next
    case (unrecovered es)
    then show ?thesis by (intro exI [of _ es] exI [of _ "[]"]) simp
  next
    case (executed rec es)
    moreover have "reset_cdb \<notin> set (adscs es)"
      using set_mono_prefix [OF executed(4)] planned_allowed(3) by blast
    ultimately show ?thesis by (intro exI [of _ rec] exI [of _ es]) simp
  qed
  with x show ?thesis by simp
qed


text \<open>C15 A good result means that access was held, the command was validated, no more bytes were
  moved than its buffer holds, all of them when its data phase must be exact, and the sense data
  of the command itself reported no error.\<close>

theorem cbi_good_result:
  "case cbi_execute io c ctx of (r, d, ctx') \<Rightarrow>
     if command_good r
     then cc_opened ctx \<and> m65_validate_command c = Inr () \<and> r_transferred r \<le> c_data_length c \<and>
       (if exact_data_required c then r_transferred r = c_data_length c else True) \<and>
       (c_cdb c ! 0 = M65_OPCODE_REQUEST_SENSE \<or> sense_key (r_sense r) \<le> 1)
     else True"
proof -
  obtain r d ctx' where x: "cbi_execute io c ctx = (r, d, ctx')" by (metis prod_cases3)
  have "cc_opened ctx \<and> m65_validate_command c = Inr () \<and> r_transferred r \<le> c_data_length c \<and>
       (exact_data_required c \<longrightarrow> r_transferred r = c_data_length c) \<and>
       (c_cdb c ! 0 = M65_OPCODE_REQUEST_SENSE \<or> sense_key (r_sense r) \<le> 1)" if g: "command_good r"
    using x
  proof (cases rule: cbi_execute_cases)
    case (sense det ctx1)
    obtain st ex d1 det1 ctx2 where y: "run_exchange io (pad_cdb (c_cdb c, c_cdb_length c)) DATA_IN
        (command_data c) (c_data_length c) (c_timeout_ms c) [] ctx1 = (st, ex, d1, det1, ctx2)"
      by (metis prod_cases5)
    note e = sense(6) [unfolded execute_request_sense_def Let_def y prod.case]
    have "st = CBI_IO_OK" "\<not> (ex_adsc_stalled ex \<or> ex_data_stalled ex)" "r_transferred r = ex_transferred ex"
      using e g by (auto simp: command_good_def split: if_splits sum.splits)
    then have "r_transferred r \<le> c_data_length c" using run_exchange_kept(4) [OF y] by simp
    with sense cbi_execute_exact [OF x g] show ?thesis by blast
  next
    case (executed det ctx1)
    then show ?thesis
      using recover_state(2) [OF executed(4)] execute_command_kept(3,4) [OF executed(6)] g by blast
  qed (use g in \<open>auto simp: command_good_def\<close>)
  with x show ?thesis by simp
qed

text \<open>A whole 1581 test or inspection over any USB adapter, with any failures and signals, puts
  only allowed command blocks and only single Flexible Disk pages on the bus; MODE SELECT never
  has its save-pages bit set, so no change outlives the drive's power.\<close>

theorem cbi_session_cautious:
  "(case m65_test_1581 (cbi_host (logged_io_host h)) (Some (cbi_ops (logged_io io))) ack (Some r0)
      \<lparr>w_interrupted = i, w_state = \<lparr>cc_io = (s, []), cc_opened = op, cc_recovery_required = rec, cc_recovery_detail = det\<rparr>\<rparr>
   of (code, r, w') \<Rightarrow> list_all allowed_block (adscs (io_trace (w_state w'))) \<and>
     list_all allowed_data (bulk_outs (io_trace (w_state w')))) \<and>
    (case m65_inspect (cbi_host (logged_io_host h)) (Some (cbi_ops (logged_io io))) (Some r1)
      \<lparr>w_interrupted = i, w_state = \<lparr>cc_io = (s, []), cc_opened = op, cc_recovery_required = rec, cc_recovery_detail = det\<rparr>\<rparr>
   of (code, r, w') \<Rightarrow> list_all allowed_block (adscs (io_trace (w_state w'))) \<and>
     list_all allowed_data (bulk_outs (io_trace (w_state w'))))"
proof (intro conjI)
  let ?w = "\<lparr>w_interrupted = i, w_state = \<lparr>cc_io = (s, []), cc_opened = op, cc_recovery_required = rec, cc_recovery_detail = det\<rparr>\<rparr>"
  have w: "cautious (w_state ?w)" by (simp add: cautious_def io_trace_def)
  obtain code r w' where x: "m65_test_1581 (cbi_host (logged_io_host h)) (Some (cbi_ops (logged_io io))) ack (Some r0) ?w = (code, r, w')"
    by (metis prod_cases3)
  from cautious_probe.test_1581_sound [OF x w] x show "case m65_test_1581 (cbi_host (logged_io_host h))
      (Some (cbi_ops (logged_io io))) ack (Some r0) ?w
    of (code, r, w') \<Rightarrow> list_all allowed_block (adscs (io_trace (w_state w'))) \<and>
     list_all allowed_data (bulk_outs (io_trace (w_state w')))"
    by (simp add: cautious_def)
  obtain code r w' where y: "m65_inspect (cbi_host (logged_io_host h)) (Some (cbi_ops (logged_io io))) (Some r1) ?w = (code, r, w')"
    by (metis prod_cases3)
  from cautious_probe.inspect_sound [OF y w] y show "case m65_inspect (cbi_host (logged_io_host h))
      (Some (cbi_ops (logged_io io))) (Some r1) ?w
    of (code, r, w') \<Rightarrow> list_all allowed_block (adscs (io_trace (w_state w'))) \<and>
     list_all allowed_data (bulk_outs (io_trace (w_state w')))"
    by (simp add: cautious_def)
qed


end
