(* ===== verification/M65_UsbCbi.thy ===== *)
theory M65_UsbCbi
  imports M65_Cbi Complex_Main
begin

text \<open>
  The USB adapter of the CBI transport on macOS (\<open>src/usb_cbi_macos.c\<close>): endpoints, the pending
  completion interrupt, and the states of desynchronisation and armed reset.

  IOKit, the run loop and the clock are a parameter, a record of the calls the adapter makes. An
  \<open>IOReturn\<close> is one of the constants the code compares with or another number; their numbers, which
  only appear in texts, belong to the parameter. A wait for the interrupt runs the run loop until the
  clock reaches a deadline; a clock that never does makes it run forever, so the operations that
  wait have the value None where they do not return. \<open>CFTimeInterval\<close> is a rational number of
  seconds. The interrupt requests that were allocated are a store; a request's address is its
  position, and one with no references left has been freed. A pass of the run loop delivers any
  number of completion callbacks. An out-parameter that is not written keeps the caller's zero.
\<close>

section \<open>IOKit\<close>

datatype io_return =
    IOReturnSuccess | IOUSBPipeStalled | IOReturnNotPrivileged | IOReturnNotPermitted
  | IOReturnExclusiveAccess | IOReturnNoDevice | IOReturnOffline | IOReturnTimeout
  | IOUSBTransactionTimeout | IOReturnBadArgument | IOReturnUnsupported | IOReturnNotReady
  | IOReturnOther u32

datatype usb_direction = USBIn | USBOut | USBOtherDirection
datatype usb_transfer_type = USBBulk | USBInterrupt | USBOtherType

record pipe_properties =
  pp_direction :: usb_direction
  pp_transfer_type :: usb_transfer_type
  pp_max_packet_size :: u16

record usb_request =
  ur_request_type :: u8
  ur_request :: u8
  ur_value :: u16
  ur_index :: u16
  ur_length :: u16
  ur_data :: bytes
  ur_no_data_timeout :: u32
  ur_completion_timeout :: u32

text \<open>A callback: the request it is for, the result, the bytes stored and the count reported.\<close>

type_synonym completion = "nat \<times> io_return \<times> bytes \<times> nat"

record 's usb_host =
  uh_number :: "io_return \<Rightarrow> u32"
  uh_is_root :: bool
  uh_open_seize :: "'s \<Rightarrow> io_return \<times> 's"
  uh_close :: "'s \<Rightarrow> io_return \<times> 's"
  uh_interface_class :: "'s \<Rightarrow> io_return \<times> u8 \<times> 's"
  uh_interface_subclass :: "'s \<Rightarrow> io_return \<times> u8 \<times> 's"
  uh_interface_protocol :: "'s \<Rightarrow> io_return \<times> u8 \<times> 's"
  uh_interface_number :: "'s \<Rightarrow> io_return \<times> u8 \<times> 's"
  uh_num_endpoints :: "'s \<Rightarrow> io_return \<times> u8 \<times> 's"
  uh_pipe_properties :: "u8 \<Rightarrow> 's \<Rightarrow> io_return \<times> pipe_properties \<times> 's"
  uh_create_event_source :: "'s \<Rightarrow> io_return \<times> bool \<times> 's"
  uh_control_request :: "usb_request \<Rightarrow> 's \<Rightarrow> io_return \<times> u32 \<times> 's"
  uh_read_pipe :: "u8 \<Rightarrow> u32 \<Rightarrow> u32 \<Rightarrow> 's \<Rightarrow> io_return \<times> bytes \<times> u32 \<times> 's"
  uh_write_pipe :: "u8 \<Rightarrow> bytes \<Rightarrow> u32 \<Rightarrow> u32 \<Rightarrow> 's \<Rightarrow> io_return \<times> 's"
  uh_read_pipe_async :: "u8 \<Rightarrow> nat \<Rightarrow> 's \<Rightarrow> io_return \<times> 's"
  uh_abort_pipe :: "u8 \<Rightarrow> 's \<Rightarrow> io_return \<times> 's"
  uh_clear_pipe_stall :: "u8 \<Rightarrow> 's \<Rightarrow> io_return \<times> 's"
  uh_release :: "'s \<Rightarrow> 's"
  uh_current_run_loop :: "'s \<Rightarrow> nat"
  uh_add_source :: "nat \<Rightarrow> 's \<Rightarrow> 's"
  uh_remove_source :: "nat \<Rightarrow> 's \<Rightarrow> 's"
  uh_run_pass :: "rat \<Rightarrow> 's \<Rightarrow> completion list \<times> 's"
  uh_absolute_time :: "'s \<Rightarrow> rat \<times> 's"
  uh_calloc :: "'s \<Rightarrow> bool \<times> 's"

section \<open>The adapter's state\<close>

definition M65_USB_MASS_STORAGE_CLASS :: u8 where "M65_USB_MASS_STORAGE_CLASS = 0x08"
definition M65_USB_UFI_SUBCLASS :: u8 where "M65_USB_UFI_SUBCLASS = 0x04"
definition M65_USB_CBI_PROTOCOL :: u8 where "M65_USB_CBI_PROTOCOL = 0x00"
definition M65_USB_TEAC_VID :: u16 where "M65_USB_TEAC_VID = 0x0644"
definition M65_USB_TEAC_PID :: u16 where "M65_USB_TEAC_PID = 0x0000"
definition M65_INTERRUPT_ABORT_DRAIN_SECONDS :: rat where "M65_INTERRUPT_ABORT_DRAIN_SECONDS = 2"

record interrupt_request =
  rq_references :: nat
  rq_complete :: bool
  rq_result :: io_return
  rq_transferred :: nat
  rq_buffer :: bytes

text \<open>The context, with the store of requests and the state outside.\<close>

record 's mac_context =
  mc_interface_number :: u8
  mc_bulk_in_pipe :: u8
  mc_bulk_out_pipe :: u8
  mc_interrupt_in_pipe :: u8
  mc_event_source :: bool
  mc_run_loop :: "nat option"
  mc_open :: bool
  mc_desynchronized :: bool
  mc_reset_armed :: bool
  mc_interrupt_request :: "nat option"
  mc_requests :: "interrupt_request list"
  mc_state :: 's

definition initial_mac_context :: "'s \<Rightarrow> 's mac_context" where
  "initial_mac_context s =
     \<lparr>mc_interface_number = 0, mc_bulk_in_pipe = 0, mc_bulk_out_pipe = 0, mc_interrupt_in_pipe = 0,
      mc_event_source = False, mc_run_loop = None, mc_open = False, mc_desynchronized = False,
      mc_reset_armed = False, mc_interrupt_request = None, mc_requests = [], mc_state = s\<rparr>"

section \<open>Details and statuses\<close>

definition io_return_text :: "'s usb_host \<Rightarrow> string \<Rightarrow> io_return \<Rightarrow> string" where
  "io_return_text host operation result =
     operation @ '' failed with IOReturn 0x'' @ hex_digits 8 (unat (uh_number host result))"

definition describe_io_return :: "'s usb_host \<Rightarrow> string \<Rightarrow> io_return \<Rightarrow> string" where
  "describe_io_return host operation result = error_text (io_return_text host operation result)"

definition append_io_return :: "'s usb_host \<Rightarrow> string \<Rightarrow> string \<Rightarrow> io_return \<Rightarrow> string" where
  "append_io_return host detail operation result =
     (let used = length detail
      in if used < M65_MAX_ERROR_TEXT
         then detail @ snprintf_str (M65_MAX_ERROR_TEXT - used)
                ((if used = 0 then [] else ''; '') @ io_return_text host operation result)
         else detail)"

definition map_io_return :: "io_return \<Rightarrow> cbi_io_status" where
  "map_io_return result =
     (if result = IOReturnSuccess then CBI_IO_OK
      else if result = IOUSBPipeStalled then CBI_IO_STALL
      else if result = IOReturnNotPrivileged \<or> result = IOReturnNotPermitted \<or>
              result = IOReturnExclusiveAccess then CBI_IO_PERMISSION
      else if result = IOReturnNoDevice \<or> result = IOReturnOffline then CBI_IO_NO_DEVICE
      else if result = IOReturnTimeout \<or> result = IOUSBTransactionTimeout then CBI_IO_TIMEOUT
      else if result = IOReturnBadArgument \<or> result = IOReturnUnsupported then CBI_IO_PROTOCOL
      else CBI_IO_ERROR)"

definition timed_out :: "io_return \<Rightarrow> bool" where
  "timed_out result \<longleftrightarrow> result = IOReturnTimeout \<or> result = IOUSBTransactionTimeout"

fun transport_status_for_cbi :: "cbi_io_status \<Rightarrow> transport_status" where
  "transport_status_for_cbi CBI_IO_OK = TRANSPORT_OK"
| "transport_status_for_cbi CBI_IO_PERMISSION = TRANSPORT_PERMISSION"
| "transport_status_for_cbi CBI_IO_NO_DEVICE = TRANSPORT_NO_DEVICE"
| "transport_status_for_cbi CBI_IO_TIMEOUT = TRANSPORT_TIMEOUT"
| "transport_status_for_cbi CBI_IO_STALL = TRANSPORT_IO"
| "transport_status_for_cbi CBI_IO_ERROR = TRANSPORT_IO"
| "transport_status_for_cbi CBI_IO_PROTOCOL = TRANSPORT_PROTOCOL"

section \<open>Endpoints\<close>

type_synonym 's mac_bool = "bool \<times> string \<times> 's mac_context"

definition classify_pipe :: "u8 \<Rightarrow> pipe_properties \<Rightarrow> 's mac_context \<Rightarrow> 's mac_context option" where
  "classify_pipe pipe p m =
     (if pp_transfer_type p = USBBulk \<and> pp_direction p = USBIn \<and> mc_bulk_in_pipe m = 0
      then Some (m\<lparr>mc_bulk_in_pipe := pipe\<rparr>)
      else if pp_transfer_type p = USBBulk \<and> pp_direction p = USBOut \<and> mc_bulk_out_pipe m = 0
      then Some (m\<lparr>mc_bulk_out_pipe := pipe\<rparr>)
      else if pp_transfer_type p = USBInterrupt \<and> pp_direction p = USBIn \<and>
              pp_max_packet_size p = of_nat M65_CBI_STATUS_LENGTH \<and> mc_interrupt_in_pipe m = 0
      then Some (m\<lparr>mc_interrupt_in_pipe := pipe\<rparr>)
      else None)"

fun endpoint_loop :: "'s usb_host \<Rightarrow> u8 list \<Rightarrow> string \<Rightarrow> 's mac_context \<Rightarrow> 's mac_bool" where
  "endpoint_loop host [] detail m = (True, detail, m)"
| "endpoint_loop host (pipe # pipes) detail m =
     (let (result, p, s) = uh_pipe_properties host pipe (mc_state m);
          m = m\<lparr>mc_state := s\<rparr>
      in if result \<noteq> IOReturnSuccess
         then (False, describe_io_return host ''enumerate USB CBI endpoints'' result, m)
         else (case classify_pipe pipe p m of
                 None \<Rightarrow> (False, set_detail ''USB CBI endpoint set is duplicated or malformed'', m)
               | Some m \<Rightarrow> endpoint_loop host pipes detail m))"

text \<open>A descriptor is read while every read before it succeeded.\<close>

definition read_descriptor ::
    "('s \<Rightarrow> io_return \<times> u8 \<times> 's) \<Rightarrow> io_return \<Rightarrow> 's mac_context \<Rightarrow> io_return \<times> u8 option \<times> 's mac_context" where
  "read_descriptor get result m =
     (if result = IOReturnSuccess
      then let (result, value, s) = get (mc_state m)
           in (result, Some value, m\<lparr>mc_state := s\<rparr>)
      else (result, None, m))"

definition inspect_endpoints :: "'s usb_host \<Rightarrow> string \<Rightarrow> 's mac_context \<Rightarrow> 's mac_bool" where
  "inspect_endpoints host detail m =
     (let (result, interface_class, m) = read_descriptor (uh_interface_class host) IOReturnSuccess m;
          (result, interface_subclass, m) = read_descriptor (uh_interface_subclass host) result m;
          (result, interface_protocol, m) = read_descriptor (uh_interface_protocol host) result m;
          (result, number, m) = read_descriptor (uh_interface_number host) result m;
          m = (case number of None \<Rightarrow> m | Some n \<Rightarrow> m\<lparr>mc_interface_number := n\<rparr>);
          (result, endpoint_count, m) = read_descriptor (uh_num_endpoints host) result m
      in if result \<noteq> IOReturnSuccess
         then (False, describe_io_return host ''read USB interface descriptors'' result, m)
         else if interface_class \<noteq> Some M65_USB_MASS_STORAGE_CLASS \<or>
                 interface_subclass \<noteq> Some M65_USB_UFI_SUBCLASS \<or>
                 interface_protocol \<noteq> Some M65_USB_CBI_PROTOCOL \<or> endpoint_count \<noteq> Some 3
         then (False, set_detail (''selected USB interface is not an exact 08/04/00 UFI CBI interface '' @
                        ''with three endpoints''), m)
         else
           let m = m\<lparr>mc_bulk_in_pipe := 0, mc_bulk_out_pipe := 0, mc_interrupt_in_pipe := 0\<rparr>;
               (enumerated, detail, m) =
                 endpoint_loop host (map of_nat [1..<Suc (unat (the endpoint_count))]) detail m
           in if \<not> enumerated then (False, detail, m)
              else if mc_bulk_in_pipe m = 0 \<or> mc_bulk_out_pipe m = 0 \<or> mc_interrupt_in_pipe m = 0
              then (False, set_detail (''USB CBI endpoint set lacks bulk-IN, bulk-OUT, '' @
                             ''or two-byte interrupt-IN''), m)
              else (True, detail, m))"

section \<open>The completion interrupt\<close>

definition update_request ::
    "nat \<Rightarrow> (interrupt_request \<Rightarrow> interrupt_request) \<Rightarrow> 's mac_context \<Rightarrow> 's mac_context" where
  "update_request a f m = m\<lparr>mc_requests := (mc_requests m)[a := f (mc_requests m ! a)]\<rparr>"

definition interrupt_request_release :: "nat \<Rightarrow> 's mac_context \<Rightarrow> 's mac_context" where
  "interrupt_request_release a = update_request a (\<lambda>r. r\<lparr>rq_references := rq_references r - 1\<rparr>)"

definition interrupt_callback :: "completion \<Rightarrow> 's mac_context \<Rightarrow> 's mac_context" where
  "interrupt_callback c m =
     (case c of (a, result, data, transferred) \<Rightarrow>
        interrupt_request_release a
          (update_request a
             (\<lambda>r. r\<lparr>rq_buffer := fill_buffer (take M65_CBI_STATUS_LENGTH data) (rq_buffer r),
                    rq_result := result, rq_transferred := transferred, rq_complete := True\<rparr>) m))"

definition interrupt_request_complete :: "nat option \<Rightarrow> 's mac_context \<Rightarrow> bool" where
  "interrupt_request_complete request m \<longleftrightarrow>
     (case request of None \<Rightarrow> False | Some a \<Rightarrow> rq_complete (mc_requests m ! a))"

definition release_interrupt_request :: "'s mac_context \<Rightarrow> 's mac_context" where
  "release_interrupt_request m =
     (case mc_interrupt_request m of
        None \<Rightarrow> m
      | Some a \<Rightarrow> interrupt_request_release a (m\<lparr>mc_interrupt_request := None\<rparr>))"

text \<open>\<open>CFRunLoopRunInMode\<close> and the clock.\<close>

definition run_pass :: "'s usb_host \<Rightarrow> rat \<Rightarrow> 's mac_context \<Rightarrow> 's mac_context" where
  "run_pass host seconds m =
     (let (completions, s) = uh_run_pass host seconds (mc_state m)
      in fold interrupt_callback completions (m\<lparr>mc_state := s\<rparr>))"

definition absolute_time :: "'s usb_host \<Rightarrow> 's mac_context \<Rightarrow> rat \<times> 's mac_context" where
  "absolute_time host m = (let (now, s) = uh_absolute_time host (mc_state m) in (now, m\<lparr>mc_state := s\<rparr>))"

partial_function (option) wait_loop ::
    "'s usb_host \<Rightarrow> rat \<Rightarrow> 's mac_context \<Rightarrow> (bool \<times> 's mac_context) option" where
  "wait_loop host deadline m =
     (if interrupt_request_complete (mc_interrupt_request m) m then Some (True, m)
      else if deadline - fst (absolute_time host m) \<le> 0 then Some (False, snd (absolute_time host m))
      else wait_loop host deadline
             (run_pass host (deadline - fst (absolute_time host m)) (snd (absolute_time host m))))"

declare wait_loop.simps [code]

definition run_until_interrupt ::
    "'s usb_host \<Rightarrow> rat \<Rightarrow> 's mac_context \<Rightarrow> (bool \<times> 's mac_context) option" where
  "run_until_interrupt host seconds m =
     (let (now, m) = absolute_time host m in wait_loop host (now + seconds) m)"

definition abort_and_drain_interrupt ::
    "'s usb_host \<Rightarrow> 's mac_context \<Rightarrow> (io_return \<times> 's mac_context) option" where
  "abort_and_drain_interrupt host m =
     (if mc_interrupt_request m \<noteq> None \<and> \<not> interrupt_request_complete (mc_interrupt_request m) m
      then
        let (result, s) = uh_abort_pipe host (mc_interrupt_in_pipe m) (mc_state m);
            m = m\<lparr>mc_state := s\<rparr>
        in if result = IOReturnSuccess
           then map_option (\<lambda>(drained, m). (if drained then result else IOReturnTimeout, m))
                  (run_until_interrupt host M65_INTERRUPT_ABORT_DRAIN_SECONDS m)
           else Some (result, m)
      else Some (IOReturnSuccess, m))"

section \<open>Opening and closing\<close>

definition on_transport_run_loop :: "'s usb_host \<Rightarrow> string \<Rightarrow> 's mac_context \<Rightarrow> bool \<times> string" where
  "on_transport_run_loop host detail m =
     (if mc_run_loop m \<noteq> None \<and> Some (uh_current_run_loop host (mc_state m)) \<noteq> mc_run_loop m
      then (False, set_detail ''USB CBI transport must be used and released on its acquiring thread'')
      else (True, detail))"

definition remove_event_source :: "'s usb_host \<Rightarrow> 's mac_context \<Rightarrow> 's mac_context" where
  "remove_event_source host m =
     (let m = (if mc_event_source m
               then (case mc_run_loop m of
                       None \<Rightarrow> m
                     | Some loop \<Rightarrow> m\<lparr>mc_state := uh_remove_source host loop (mc_state m)\<rparr>)
                    \<lparr>mc_event_source := False\<rparr>
               else m)
      in if mc_run_loop m \<noteq> None then m\<lparr>mc_run_loop := None\<rparr> else m)"

type_synonym 's mac_status = "cbi_io_status \<times> string \<times> 's mac_context"

definition close_and_forget :: "'s usb_host \<Rightarrow> 's mac_context \<Rightarrow> 's mac_context" where
  "close_and_forget host m =
     (let (_, s) = uh_close host (mc_state m) in m\<lparr>mc_state := s, mc_open := False\<rparr>)"

definition seize_failure :: "'s usb_host \<Rightarrow> io_return \<Rightarrow> cbi_io_status \<times> string" where
  "seize_failure host result =
     (let number = hex_digits 8 (unat (uh_number host result))
      in if result = IOReturnExclusiveAccess then
           (if uh_is_root host then CBI_IO_ERROR else CBI_IO_PERMISSION,
            error_text (''macOS mass-storage driver refused USB interface seizure (IOReturn 0x'' @ number @
              '')'' @
              (if uh_is_root host
               then ''; the interface remains unavailable even with root privileges''
               else ''; retry manually with sudo to distinguish permission from a driver limitation'')))
         else if result = IOReturnNotPrivileged \<or> result = IOReturnNotPermitted then
           (CBI_IO_PERMISSION,
            error_text (''permission denied while seizing the selected USB interface (IOReturn 0x'' @
              number @ ''); the program never invokes sudo, so retry manually with sudo if local '' @
              ''policy permits''))
         else (map_io_return result, describe_io_return host ''USBInterfaceOpenSeize'' result))"

definition mac_open_seize :: "'s usb_host \<Rightarrow> string \<Rightarrow> 's mac_context \<Rightarrow> 's mac_status" where
  "mac_open_seize host detail m =
     (if mc_open m then (CBI_IO_OK, detail, m)
      else
        let (result, s) = uh_open_seize host (mc_state m);
            m = m\<lparr>mc_state := s\<rparr>
        in if result \<noteq> IOReturnSuccess then
             let (status, detail) = seize_failure host result in (status, detail, m)
           else
             let m = m\<lparr>mc_open := True, mc_desynchronized := False, mc_reset_armed := False\<rparr>;
                 (inspected, detail, m) = inspect_endpoints host detail m
             in if \<not> inspected then (CBI_IO_PROTOCOL, detail, close_and_forget host m)
                else
                  let (result, created, s) = uh_create_event_source host (mc_state m);
                      m = m\<lparr>mc_state := s, mc_event_source := created\<rparr>
                  in if result \<noteq> IOReturnSuccess \<or> \<not> mc_event_source m then
                       (if result = IOReturnSuccess then CBI_IO_ERROR else map_io_return result,
                        if result = IOReturnSuccess
                        then set_detail ''CreateInterfaceAsyncEventSource returned NULL''
                        else describe_io_return host ''CreateInterfaceAsyncEventSource'' result,
                        close_and_forget host (remove_event_source host m))
                     else
                       let loop = uh_current_run_loop host (mc_state m)
                       in (CBI_IO_OK, detail,
                           m\<lparr>mc_run_loop := Some loop,
                             mc_state := uh_add_source host loop (mc_state m)\<rparr>))"

definition mac_close :: "'s usb_host \<Rightarrow> string \<Rightarrow> 's mac_context \<Rightarrow> 's mac_status option" where
  "mac_close host detail m =
     (if \<not> mc_open m then Some (CBI_IO_OK, detail, m)
      else
        let (same_loop, detail) = on_transport_run_loop host detail m
        in map_option
             (\<lambda>(abort_result, m).
               let (result, s) = uh_close host (mc_state m);
                   m = m\<lparr>mc_state := s, mc_open := False, mc_reset_armed := False\<rparr>;
                   m = remove_event_source host (release_interrupt_request m)
               in if abort_result \<noteq> IOReturnSuccess then
                    let detail = (if detail = []
                          then describe_io_return host ''abort pending CBI interrupt before close'' abort_result
                          else detail);
                        detail = (if result \<noteq> IOReturnSuccess
                          then append_io_return host detail ''USBInterfaceClose'' result else detail)
                    in (map_io_return abort_result, detail, m)
                  else (map_io_return result,
                        if result \<noteq> IOReturnSuccess
                        then describe_io_return host ''USBInterfaceClose'' result else detail, m))
             (if \<not> same_loop then Some (IOReturnBadArgument, m) else abort_and_drain_interrupt host m))"

section \<open>Commands\<close>

definition is_command_block_reset :: "bytes \<Rightarrow> bool" where
  "is_command_block_reset cdb \<longleftrightarrow>
     take M65_CBI_CDB_LENGTH cdb =
       [0x1d, 0x04, 0xff, 0xff, 0xff, 0xff, 0xff, 0xff, 0xff, 0xff, 0xff, 0xff]"

definition ready_for_adsc :: "'s usb_host \<Rightarrow> bytes \<Rightarrow> string \<Rightarrow> 's mac_context \<Rightarrow> bool \<times> string" where
  "ready_for_adsc host cdb detail m =
     (let reset = is_command_block_reset cdb;
          (same_loop, detail) = on_transport_run_loop host detail m
      in if \<not> same_loop then (False, detail)
         else if mc_interrupt_request m \<noteq> None
         then (False, set_detail ''USB CBI transport has a pending completion interrupt'')
         else if mc_reset_armed m \<noteq> reset
         then (False, set_detail
                 (if reset then ''unarmed CBI command-block reset was rejected''
                  else ''only the armed CBI command-block reset is permitted during recovery''))
         else if mc_desynchronized m \<and> \<not> reset
         then (False, set_detail ''USB CBI transport requires command-block reset recovery'')
         else (True, detail))"

definition mac_adsc :: "'s usb_host \<Rightarrow> bytes \<Rightarrow> u32 \<Rightarrow> string \<Rightarrow> 's mac_context \<Rightarrow> 's mac_status" where
  "mac_adsc host cdb timeout_ms detail m =
     (let (is_ready, detail) = ready_for_adsc host cdb detail m
      in if \<not> is_ready then (CBI_IO_PROTOCOL, detail, m)
         else
           (case m65_cbi_build_adsc (mc_interface_number m) (Some cdb) of
              None \<Rightarrow> (CBI_IO_PROTOCOL, set_detail ''unable to construct CBI ADSC request'', m)
            | Some adsc \<Rightarrow>
                let request = \<lparr>ur_request_type = adsc_request_type adsc, ur_request = adsc_request adsc,
                      ur_value = adsc_value adsc, ur_index = adsc_index adsc,
                      ur_length = adsc_length adsc, ur_data = adsc_cdb adsc,
                      ur_no_data_timeout = timeout_ms, ur_completion_timeout = timeout_ms\<rparr>;
                    (result, length_done, s) = uh_control_request host request (mc_state m);
                    m = m\<lparr>mc_state := s\<rparr>
                in if result \<noteq> IOReturnSuccess then
                     (map_io_return result, describe_io_return host ''CBI ADSC command'' result,
                      if timed_out result then m\<lparr>mc_desynchronized := True\<rparr> else m)
                   else if length_done \<noteq> of_nat M65_CBI_CDB_LENGTH then
                     (CBI_IO_PROTOCOL, set_detail ''CBI ADSC command transferred fewer than 12 bytes'',
                      m\<lparr>mc_desynchronized := True\<rparr>)
                   else (CBI_IO_OK, detail, m)))"

section \<open>Data\<close>

definition UINT32_MAX :: nat where "UINT32_MAX = 2 ^ 32 - 1"

text \<open>A failed bulk transfer: a timeout loses synchronisation and clears the pipe.\<close>

definition bulk_failure ::
    "'s usb_host \<Rightarrow> string \<Rightarrow> string \<Rightarrow> u8 \<Rightarrow> io_return \<Rightarrow> string \<Rightarrow> 's mac_context \<Rightarrow> string \<times> 's mac_context" where
  "bulk_failure host operation resynchronize pipe result detail m =
     (if result = IOReturnSuccess then (detail, m)
      else
        let detail = describe_io_return host operation result
        in if timed_out result then
             let (clear_result, s) = uh_clear_pipe_stall host pipe (mc_state m);
                 m = m\<lparr>mc_desynchronized := True, mc_state := s\<rparr>
             in (if clear_result \<noteq> IOReturnSuccess
                 then append_io_return host detail resynchronize clear_result else detail, m)
           else (detail, m))"

definition mac_bulk_in ::
    "'s usb_host \<Rightarrow> nat \<Rightarrow> u32 \<Rightarrow> string \<Rightarrow> 's mac_context \<Rightarrow>
     cbi_io_status \<times> bytes \<times> nat \<times> string \<times> 's mac_context" where
  "mac_bulk_in host len timeout_ms detail m =
     (let (same_loop, detail) = on_transport_run_loop host detail m
      in if \<not> same_loop then (CBI_IO_PROTOCOL, [], 0, detail, m)
         else if len > UINT32_MAX
         then (CBI_IO_PROTOCOL, [], 0, set_detail ''CBI bulk-IN length exceeds UInt32'', m)
         else
           let (result, data, usb_length, s) =
                 uh_read_pipe host (mc_bulk_in_pipe m) (of_nat len) timeout_ms (mc_state m);
               transferred = (if result = IOReturnSuccess then unat usb_length else 0);
               (detail, m) = bulk_failure host ''CBI bulk-IN'' ''resynchronize bulk-IN after timeout''
                               (mc_bulk_in_pipe m) result detail (m\<lparr>mc_state := s\<rparr>)
           in (map_io_return result, data, transferred, detail, m))"

definition mac_bulk_out ::
    "'s usb_host \<Rightarrow> bytes \<Rightarrow> nat \<Rightarrow> u32 \<Rightarrow> string \<Rightarrow> 's mac_context \<Rightarrow>
     cbi_io_status \<times> nat \<times> string \<times> 's mac_context" where
  "mac_bulk_out host data len timeout_ms detail m =
     (let (same_loop, detail) = on_transport_run_loop host detail m
      in if \<not> same_loop then (CBI_IO_PROTOCOL, 0, detail, m)
         else if len > UINT32_MAX
         then (CBI_IO_PROTOCOL, 0, set_detail ''CBI bulk-OUT length exceeds UInt32'', m)
         else
           let (result, s) =
                 uh_write_pipe host (mc_bulk_out_pipe m) data (of_nat len) timeout_ms (mc_state m);
               transferred = (if result = IOReturnSuccess then len else 0);
               (detail, m) = bulk_failure host ''CBI bulk-OUT'' ''resynchronize bulk-OUT after timeout''
                               (mc_bulk_out_pipe m) result detail (m\<lparr>mc_state := s\<rparr>)
           in (map_io_return result, transferred, detail, m))"

section \<open>Waiting for the interrupt\<close>

text \<open>Results of the operation: the status, the bytes stored and the count reported.\<close>

type_synonym 's mac_interrupt = "cbi_io_status \<times> bytes \<times> nat \<times> string \<times> 's mac_context"

text \<open>The wait timed out: the transfer is aborted and drained.\<close>

definition interrupt_timeout :: "'s usb_host \<Rightarrow> 's mac_context \<Rightarrow> 's mac_interrupt option" where
  "interrupt_timeout host m =
     map_option
       (\<lambda>(abort_result, m).
         let detail = set_detail ''CBI interrupt-IN timed out and was aborted''
         in if abort_result \<noteq> IOReturnSuccess then
              (map_io_return abort_result, [], 0,
               append_io_return host detail ''abort timed-out interrupt-IN'' abort_result,
               if interrupt_request_complete (mc_interrupt_request m) m
               then release_interrupt_request m else m)
            else
              let (clear_result, s) = uh_clear_pipe_stall host (mc_interrupt_in_pipe m) (mc_state m)
              in (CBI_IO_TIMEOUT, [], 0,
                  if clear_result \<noteq> IOReturnSuccess
                  then append_io_return host detail ''resynchronize interrupt-IN after timeout'' clear_result
                  else detail,
                  release_interrupt_request (m\<lparr>mc_state := s\<rparr>)))
       (abort_and_drain_interrupt host (m\<lparr>mc_desynchronized := True\<rparr>))"

text \<open>The interrupt arrived.\<close>

definition interrupt_arrived :: "'s usb_host \<Rightarrow> nat \<Rightarrow> string \<Rightarrow> 's mac_context \<Rightarrow> 's mac_interrupt" where
  "interrupt_arrived host a detail m =
     (let request = mc_requests m ! a;
          transferred = rq_transferred request;
          result = rq_result request;
          status = (if transferred \<le> M65_CBI_STATUS_LENGTH then take transferred (rq_buffer request) else []);
          m = release_interrupt_request m
      in if result \<noteq> IOReturnSuccess then
           (map_io_return result, status, transferred, describe_io_return host ''CBI interrupt-IN'' result,
            m\<lparr>mc_desynchronized := True\<rparr>)
         else if transferred \<noteq> M65_CBI_STATUS_LENGTH then
           (CBI_IO_PROTOCOL, status, transferred,
            set_detail ''CBI interrupt-IN did not return exactly two bytes'', m\<lparr>mc_desynchronized := True\<rparr>)
         else (CBI_IO_OK, status, transferred, detail, m))"

definition mac_interrupt_in_with_deadline ::
    "'s usb_host \<Rightarrow> u32 \<Rightarrow> string \<Rightarrow> 's mac_context \<Rightarrow> 's mac_interrupt option" where
  "mac_interrupt_in_with_deadline host timeout_ms detail m =
     (let timeout_seconds = of_nat (unat timeout_ms) / 1000;
          (same_loop, detail) = on_transport_run_loop host detail m
      in if \<not> same_loop then Some (CBI_IO_PROTOCOL, [], 0, detail, m)
         else if mc_interrupt_request m \<noteq> None
         then Some (CBI_IO_PROTOCOL, [], 0, set_detail ''previous CBI interrupt request has not drained'', m)
         else
           let (allocated, s) = uh_calloc host (mc_state m);
               m = m\<lparr>mc_state := s\<rparr>
           in if \<not> allocated
              then Some (CBI_IO_ERROR, [], 0, set_detail ''out of memory submitting CBI interrupt-IN'', m)
              else
                let a = length (mc_requests m);
                    request = \<lparr>rq_references = 2, rq_complete = False, rq_result = IOReturnNotReady,
                               rq_transferred = 0, rq_buffer = zeroed M65_CBI_STATUS_LENGTH\<rparr>;
                    m = m\<lparr>mc_requests := mc_requests m @ [request], mc_interrupt_request := Some a\<rparr>;
                    (result, s) = uh_read_pipe_async host (mc_interrupt_in_pipe m) a (mc_state m);
                    m = m\<lparr>mc_state := s\<rparr>
                in if result \<noteq> IOReturnSuccess then
                     Some (map_io_return result, [], 0, describe_io_return host ''submit CBI interrupt-IN'' result,
                           release_interrupt_request (interrupt_request_release a m))
                   else Option.bind (run_until_interrupt host timeout_seconds m) (\<lambda>(arrived, m).
                          if \<not> arrived then interrupt_timeout host m
                          else Some (interrupt_arrived host a detail m)))"

section \<open>Recovery\<close>

definition mac_clear_stall ::
    "'s usb_host \<Rightarrow> data_direction \<Rightarrow> string \<Rightarrow> 's mac_context \<Rightarrow> 's mac_status" where
  "mac_clear_stall host bulk_direction detail m =
     (let (same_loop, detail) = on_transport_run_loop host detail m
      in if \<not> same_loop then (CBI_IO_PROTOCOL, detail, m)
         else
           (case (case bulk_direction of
                    DATA_IN \<Rightarrow> Some (mc_bulk_in_pipe m)
                  | DATA_OUT \<Rightarrow> Some (mc_bulk_out_pipe m)
                  | DATA_NONE \<Rightarrow> None) of
              None \<Rightarrow> (CBI_IO_PROTOCOL, set_detail ''CBI stall clear requires a bulk direction'', m)
            | Some pipe \<Rightarrow>
                let (result, s) = uh_clear_pipe_stall host pipe (mc_state m)
                in (map_io_return result,
                    if result \<noteq> IOReturnSuccess
                    then describe_io_return host ''clear CBI bulk-pipe stall'' result else detail,
                    m\<lparr>mc_state := s\<rparr>)))"

definition mac_prepare_command_block_reset ::
    "'s usb_host \<Rightarrow> string \<Rightarrow> 's mac_context \<Rightarrow> 's mac_status option" where
  "mac_prepare_command_block_reset host detail m =
     (let (same_loop, detail) = on_transport_run_loop host detail m
      in if \<not> same_loop then Some (CBI_IO_PROTOCOL, detail, m)
         else if \<not> mc_open m \<or> mc_reset_armed m
         then Some (CBI_IO_PROTOCOL, set_detail ''CBI command-block reset preparation has invalid state'', m)
         else
           map_option
             (\<lambda>(result, m).
               if result \<noteq> IOReturnSuccess then
                 (map_io_return result,
                  describe_io_return host ''drain previous CBI interrupt before reset'' result,
                  if interrupt_request_complete (mc_interrupt_request m) m
                  then release_interrupt_request m else m)
               else
                 let m = release_interrupt_request m;
                     (result, s) = uh_clear_pipe_stall host (mc_interrupt_in_pipe m) (mc_state m);
                     m = m\<lparr>mc_state := s\<rparr>
                 in if result \<noteq> IOReturnSuccess then
                      (map_io_return result,
                       describe_io_return host ''resynchronize interrupt-IN before CBI reset'' result, m)
                    else (CBI_IO_OK, detail, m\<lparr>mc_reset_armed := True\<rparr>))
             (abort_and_drain_interrupt host m))"

definition mac_finish_command_block_reset ::
    "'s usb_host \<Rightarrow> bool \<Rightarrow> string \<Rightarrow> 's mac_context \<Rightarrow> 's mac_status" where
  "mac_finish_command_block_reset host recovered detail m =
     (let (same_loop, detail) = on_transport_run_loop host detail m
      in if \<not> same_loop then (CBI_IO_PROTOCOL, detail, m)
         else if \<not> mc_reset_armed m then
           (CBI_IO_PROTOCOL, set_detail ''CBI command-block reset completion was not armed'',
            m\<lparr>mc_desynchronized := True\<rparr>)
         else (CBI_IO_OK, detail, m\<lparr>mc_reset_armed := False, mc_desynchronized := \<not> recovered\<rparr>))"

text \<open>None: closing did not return.\<close>

definition mac_destroy_io :: "'s usb_host \<Rightarrow> 's mac_context \<Rightarrow> 's mac_context option" where
  "mac_destroy_io host m =
     map_option
       (\<lambda>m. let m = release_interrupt_request (remove_event_source host m)
            in m\<lparr>mc_state := uh_release host (mc_state m)\<rparr>)
       (if mc_open m then map_option (\<lambda>(_, _, m). m) (mac_close host [] m) else Some m)"

text \<open>The operation table. A wait that never returns is the operation \<open>hung\<close>, which fails and leaves the
  adapter as it was; with a clock that runs there is none.\<close>

definition returned :: "'a \<Rightarrow> 'a option \<Rightarrow> 'a" where
  "returned hung result = (case result of None \<Rightarrow> hung | Some x \<Rightarrow> x)"

lemma returned_simps [simp]: "returned hung None = hung" "returned hung (Some x) = x"
  by (simp_all add: returned_def)

definition mac_cbi_ops :: "'s usb_host \<Rightarrow> 's mac_context cbi_io" where
  "mac_cbi_ops host =
     \<lparr>io_open_seize = mac_open_seize host,
      io_close = (\<lambda>detail m. returned (CBI_IO_ERROR, detail, m) (mac_close host detail m)),
      io_adsc = mac_adsc host,
      io_bulk_in = mac_bulk_in host,
      io_bulk_out = mac_bulk_out host,
      io_interrupt_in = (\<lambda>timeout_ms detail m.
        returned (CBI_IO_ERROR, [], 0, detail, m) (mac_interrupt_in_with_deadline host timeout_ms detail m)),
      io_clear_stall = mac_clear_stall host,
      io_prepare_reset = (\<lambda>detail m.
        returned (CBI_IO_ERROR, detail, m) (mac_prepare_command_block_reset host detail m)),
      io_finish_reset = mac_finish_command_block_reset host,
      io_destroy = (\<lambda>m. returned m (mac_destroy_io host m))\<rparr>"

end
