(* ===== verification/M65_UsbBasis.thy ===== *)
theory M65_UsbBasis
  imports M65_UsbCbi
begin

text \<open>
  The USB adapter's operations as steps, what a wait for the completion interrupt keeps, and who
  holds a reference to an interrupt request.
\<close>

section \<open>Operations as steps\<close>

datatype mac_action =
    ActOpen | ActClose | ActAdsc bytes | ActBulkIn | ActBulkOut | ActInterrupt | ActClearStall
  | ActPrepare | ActFinish bool

inductive mac_step :: "'s usb_host \<Rightarrow> mac_action \<Rightarrow> 's mac_context \<Rightarrow> 's mac_context \<Rightarrow> bool"
  for host :: "'s usb_host" where
  step_open: "mac_open_seize host detail m = (status, detail', m') \<Longrightarrow> mac_step host ActOpen m m'"
| step_close: "mac_close host detail m = Some (status, detail', m') \<Longrightarrow> mac_step host ActClose m m'"
| step_adsc: "mac_adsc host cdb timeout_ms detail m = (status, detail', m') \<Longrightarrow> mac_step host (ActAdsc cdb) m m'"
| step_bulk_in: "mac_bulk_in host len timeout_ms detail m = (status, data, n, detail', m') \<Longrightarrow>
    mac_step host ActBulkIn m m'"
| step_bulk_out: "mac_bulk_out host data len timeout_ms detail m = (status, n, detail', m') \<Longrightarrow>
    mac_step host ActBulkOut m m'"
| step_interrupt: "mac_interrupt_in_with_deadline host timeout_ms detail m = Some (status, data, n, detail', m') \<Longrightarrow>
    mac_step host ActInterrupt m m'"
| step_clear: "mac_clear_stall host direction detail m = (status, detail', m') \<Longrightarrow> mac_step host ActClearStall m m'"
| step_prepare: "mac_prepare_command_block_reset host detail m = Some (status, detail', m') \<Longrightarrow>
    mac_step host ActPrepare m m'"
| step_finish: "mac_finish_command_block_reset host recovered detail m = (status, detail', m') \<Longrightarrow>
    mac_step host (ActFinish recovered) m m'"

inductive_cases mac_step_cases: "mac_step host action m m'"

inductive mac_reachable :: "'s usb_host \<Rightarrow> 's mac_context \<Rightarrow> 's mac_context \<Rightarrow> bool"
  for host :: "'s usb_host" and m0 :: "'s mac_context" where
  reach_start: "mac_reachable host m0 m0"
| reach_step: "mac_reachable host m0 m \<Longrightarrow> mac_step host action m m' \<Longrightarrow> mac_reachable host m0 m'"

section \<open>What a step of the environment keeps\<close>

text \<open>Waiting and the calls of IOKit change requests and the outside state only.\<close>

definition same_modes :: "'s mac_context \<Rightarrow> 's mac_context \<Rightarrow> bool" where
  "same_modes m m' \<longleftrightarrow> mc_desynchronized m' = mc_desynchronized m \<and> mc_reset_armed m' = mc_reset_armed m \<and>
     mc_open m' = mc_open m \<and> mc_interrupt_in_pipe m' = mc_interrupt_in_pipe m \<and>
     mc_run_loop m' = mc_run_loop m \<and> mc_event_source m' = mc_event_source m \<and>
     mc_interrupt_request m' = mc_interrupt_request m"

lemma same_modes_refl [simp]: "same_modes m m"
  by (simp add: same_modes_def)

lemma same_modes_trans: "same_modes a b \<Longrightarrow> same_modes b c \<Longrightarrow> same_modes a c"
  by (simp add: same_modes_def)

lemma same_modes_state [simp]: "same_modes m (m\<lparr>mc_state := s\<rparr>)"
  by (simp add: same_modes_def)

lemma release_modes [simp]: "same_modes m (interrupt_request_release a m)"
  by (simp add: same_modes_def interrupt_request_release_def update_request_def)

lemma callback_modes: "same_modes m (interrupt_callback c m)"
  by (cases c) (simp add: same_modes_def interrupt_callback_def interrupt_request_release_def update_request_def)

lemma callbacks_modes: "same_modes m (fold interrupt_callback cs m)"
proof (induction cs arbitrary: m)
  case (Cons c cs)
  show ?case using same_modes_trans [OF callback_modes Cons.IH, of m c] by simp
qed simp

lemma run_pass_modes: "same_modes m (run_pass host t m)"
proof -
  obtain cs s where r: "uh_run_pass host t (mc_state m) = (cs, s)" by force
  have "same_modes m (fold interrupt_callback cs (m\<lparr>mc_state := s\<rparr>))"
    by (rule same_modes_trans [OF same_modes_state callbacks_modes])
  then show ?thesis by (simp add: run_pass_def r)
qed

lemma time_modes: "same_modes m (snd (absolute_time host m))"
  by (simp add: absolute_time_def split: prod.splits)

section \<open>Waiting\<close>

lemma wait_loop_induct [consumes 1, case_names arrived late pass]:
  assumes "wait_loop host deadline m = Some x"
    and "\<And>m. interrupt_request_complete (mc_interrupt_request m) m \<Longrightarrow> P m (True, m)"
    and "\<And>m. \<not> interrupt_request_complete (mc_interrupt_request m) m \<Longrightarrow> P m (False, snd (absolute_time host m))"
    and "\<And>m t x. \<not> interrupt_request_complete (mc_interrupt_request m) m \<Longrightarrow>
       P (run_pass host t (snd (absolute_time host m))) x \<Longrightarrow> P m x"
  shows "P m x"
proof -
  have "host = host \<longrightarrow> P m x"
  proof (rule wait_loop.raw_induct [OF _ assms(1), of "\<lambda>h d m x. h = host \<longrightarrow> P m x"])
    fix wait h d m y
    assume ih: "\<And>d m b x. wait d m b = Some x \<Longrightarrow> d = host \<longrightarrow> P b x"
      and step: "(if interrupt_request_complete (mc_interrupt_request m) m then Some (True, m)
        else if d - fst (absolute_time h m) \<le> 0 then Some (False, snd (absolute_time h m))
        else wait h d (run_pass h (d - fst (absolute_time h m)) (snd (absolute_time h m)))) = Some y"
    show "h = host \<longrightarrow> P m y"
      using step assms(2) [of m] assms(3) [of m] assms(4) [of m "d - fst (absolute_time h m)" y]
        ih [of h d "run_pass h (d - fst (absolute_time h m)) (snd (absolute_time h m))" y]
      by (auto split: if_splits)
  qed
  then show ?thesis by simp
qed

lemma wait_invariant:
  assumes "run_until_interrupt host seconds m = Some (b, m')" "I m"
    and "\<And>m. I m \<Longrightarrow> I (snd (absolute_time host m))" "\<And>m t. I m \<Longrightarrow> I (run_pass host t m)"
  shows "I m'"
proof -
  have "wait_loop host d m = Some x \<Longrightarrow> I m \<Longrightarrow> I (snd x)" for d m x
    by (induction rule: wait_loop_induct) (simp_all add: assms(3,4))
  from this [of _ "snd (absolute_time host m)" "(b, m')"] assms show ?thesis
    by (auto simp: run_until_interrupt_def split: prod.splits)
qed

lemma wait_arrived:
  assumes "run_until_interrupt host seconds m = Some (True, m')"
  shows "interrupt_request_complete (mc_interrupt_request m') m'"
proof -
  have "wait_loop host d m = Some x \<Longrightarrow> fst x \<Longrightarrow> interrupt_request_complete (mc_interrupt_request (snd x)) (snd x)" for d m x
    by (induction rule: wait_loop_induct) simp_all
  from this [of _ _ "(True, m')"] assms show ?thesis
    by (auto simp: run_until_interrupt_def split: prod.splits)
qed

lemma wait_modes: "run_until_interrupt host seconds m = Some (b, m') \<Longrightarrow> same_modes m m'"
  by (rule wait_invariant [where I = "same_modes m"])
    (auto intro: same_modes_trans [OF _ time_modes] same_modes_trans [OF _ run_pass_modes])

lemma drain_invariant:
  assumes "abort_and_drain_interrupt host m = Some (result, m')" "I m"
    and "\<And>s. s = snd (uh_abort_pipe host (mc_interrupt_in_pipe m) (mc_state m)) \<Longrightarrow> I (m\<lparr>mc_state := s\<rparr>)"
    and "\<And>m. I m \<Longrightarrow> I (snd (absolute_time host m))" "\<And>m t. I m \<Longrightarrow> I (run_pass host t m)"
  shows "I m'"
proof -
  obtain r s where a: "uh_abort_pipe host (mc_interrupt_in_pipe m) (mc_state m) = (r, s)" by force
  then have "I (m\<lparr>mc_state := s\<rparr>)" using assms(3) [of s] by simp
  with assms a show ?thesis
    by (auto simp: abort_and_drain_interrupt_def Let_def split: if_splits
        elim!: wait_invariant [where I = I])
qed

lemma drain_modes: "abort_and_drain_interrupt host m = Some (result, m') \<Longrightarrow> same_modes m m'"
  by (rule drain_invariant [where I = "same_modes m"])
    (auto intro: same_modes_trans [OF _ time_modes] same_modes_trans [OF _ run_pass_modes])

lemma drain_complete:
  assumes "abort_and_drain_interrupt host m = Some (IOReturnSuccess, m')" "mc_interrupt_request m' = Some a"
  shows "rq_complete (mc_requests m' ! a)"
proof -
  obtain r s where x: "uh_abort_pipe host (mc_interrupt_in_pipe m) (mc_state m) = (r, s)" by force
  with assms show ?thesis
    by (auto simp: abort_and_drain_interrupt_def Let_def interrupt_request_complete_def dest!: wait_arrived
        split: if_splits option.splits)
qed

section \<open>Ownership of the requests\<close>

text \<open>A request is held by the context while it is pending there and by the kernel while its callback
  is outstanding; it has one reference for each.\<close>

definition owned :: "nat set \<Rightarrow> 's mac_context \<Rightarrow> bool" where
  "owned outstanding m \<longleftrightarrow> outstanding \<subseteq> {..<length (mc_requests m)} \<and>
     (case mc_interrupt_request m of None \<Rightarrow> True | Some a \<Rightarrow> a < length (mc_requests m)) \<and>
     (\<forall>a < length (mc_requests m).
        rq_references (mc_requests m ! a) =
          (if mc_interrupt_request m = Some a then 1 else 0) + (if a \<in> outstanding then 1 else 0) \<and>
        (rq_complete (mc_requests m ! a) \<longrightarrow> a \<notin> outstanding))"

lemma ownedD:
  assumes "owned out m" "a < length (mc_requests m)"
  shows "rq_references (mc_requests m ! a) =
      (if mc_interrupt_request m = Some a then 1 else 0) + (if a \<in> out then 1 else 0)"
    "rq_complete (mc_requests m ! a) \<Longrightarrow> a \<notin> out"
  using assms by (auto simp: owned_def)

lemma owned_cong:
  "mc_requests m' = mc_requests m \<Longrightarrow> mc_interrupt_request m' = mc_interrupt_request m \<Longrightarrow> owned out m' = owned out m"
  by (simp only: owned_def)

lemma owned_callback: "owned out m \<Longrightarrow> fst c \<in> out \<Longrightarrow> owned (out - {fst c}) (interrupt_callback c m)"
  by (cases c)
    (auto simp: owned_def interrupt_callback_def interrupt_request_release_def update_request_def nth_list_update
      split: option.splits)

lemma owned_callbacks:
  "owned out m \<Longrightarrow> distinct (map fst cs) \<Longrightarrow> fst ` set cs \<subseteq> out \<Longrightarrow>
     owned (out - fst ` set cs) (fold interrupt_callback cs m)"
proof (induction cs arbitrary: out m)
  case (Cons c cs)
  have fresh: "fst c \<notin> fst ` set cs" "distinct (map fst cs)" "fst c \<in> out" "fst ` set cs \<subseteq> out"
    using Cons.prems(2,3) by simp_all
  then have "fst ` set cs \<subseteq> out - {fst c}" by blast
  with Cons.prems(1) fresh have "owned (out - {fst c} - fst ` set cs) (fold interrupt_callback cs (interrupt_callback c m))"
    by (intro Cons.IH owned_callback)
  moreover have "out - {fst c} - fst ` set cs = out - fst ` set (c # cs)" by auto
  ultimately show ?case by simp
qed simp

lemma owned_release: "owned out m \<Longrightarrow> owned out (release_interrupt_request m)"
  by (auto simp: owned_def release_interrupt_request_def interrupt_request_release_def update_request_def
      nth_list_update split: option.splits)

lemma owned_submit:
  assumes "owned out m" "mc_interrupt_request m = None" "rq_references r = 2" "\<not> rq_complete r"
  shows "owned (insert (length (mc_requests m)) out)
    (m\<lparr>mc_requests := mc_requests m @ [r], mc_interrupt_request := Some (length (mc_requests m))\<rparr>)"
  using assms by (auto simp: owned_def nth_append less_Suc_eq)

lemma owned_failed_submit:
  assumes "owned out m" "mc_interrupt_request m = None" "rq_references r = 2" "\<not> rq_complete r"
  shows "owned out (release_interrupt_request (interrupt_request_release (length (mc_requests m))
    (m\<lparr>mc_requests := mc_requests m @ [r], mc_interrupt_request := Some (length (mc_requests m)), mc_state := s\<rparr>)))"
  using assms
  by (auto simp: owned_def release_interrupt_request_def interrupt_request_release_def update_request_def
      nth_append nth_list_update less_Suc_eq)


section \<open>The kernel\<close>

text \<open>What IOKit does with the callbacks: an asynchronous read that was accepted has one outstanding,
  a pass of the run loop delivers outstanding ones, each once, and nothing else touches them.\<close>

definition fair_kernel :: "'s usb_host \<Rightarrow> ('s \<Rightarrow> nat set) \<Rightarrow> bool" where
  "fair_kernel host out \<longleftrightarrow>
     (\<forall>s. out (snd (uh_open_seize host s)) = out s \<and> out (snd (uh_close host s)) = out s \<and>
        out (snd (snd (uh_interface_class host s))) = out s \<and>
        out (snd (snd (uh_interface_subclass host s))) = out s \<and>
        out (snd (snd (uh_interface_protocol host s))) = out s \<and>
        out (snd (snd (uh_interface_number host s))) = out s \<and>
        out (snd (snd (uh_num_endpoints host s))) = out s \<and>
        out (snd (snd (uh_create_event_source host s))) = out s \<and>
        out (snd (uh_absolute_time host s)) = out s \<and> out (snd (uh_calloc host s)) = out s) \<and>
     (\<forall>pipe s. out (snd (snd (uh_pipe_properties host pipe s))) = out s \<and>
        out (snd (uh_abort_pipe host pipe s)) = out s \<and> out (snd (uh_clear_pipe_stall host pipe s)) = out s) \<and>
     (\<forall>request s. out (snd (snd (uh_control_request host request s))) = out s) \<and>
     (\<forall>pipe n t s. out (snd (snd (snd (uh_read_pipe host pipe n t s)))) = out s) \<and>
     (\<forall>pipe data n t s. out (snd (uh_write_pipe host pipe data n t s)) = out s) \<and>
     (\<forall>loop s. out (uh_add_source host loop s) = out s \<and> out (uh_remove_source host loop s) = out s) \<and>
     (\<forall>pipe a s. out (snd (uh_read_pipe_async host pipe a s)) =
        (if fst (uh_read_pipe_async host pipe a s) = IOReturnSuccess then insert a (out s) else out s)) \<and>
     (\<forall>t s. distinct (map fst (fst (uh_run_pass host t s))) \<and> fst ` set (fst (uh_run_pass host t s)) \<subseteq> out s \<and>
        out (snd (uh_run_pass host t s)) = out s - fst ` set (fst (uh_run_pass host t s)))"

lemma kernel_keeps:
  assumes "fair_kernel host out"
  shows "out (snd (uh_open_seize host s)) = out s" "out (snd (uh_close host s)) = out s"
    "out (snd (snd (uh_interface_class host s))) = out s"
    "out (snd (snd (uh_interface_subclass host s))) = out s"
    "out (snd (snd (uh_interface_protocol host s))) = out s"
    "out (snd (snd (uh_interface_number host s))) = out s"
    "out (snd (snd (uh_num_endpoints host s))) = out s"
    "out (snd (snd (uh_create_event_source host s))) = out s"
    "out (snd (uh_absolute_time host s)) = out s" "out (snd (uh_calloc host s)) = out s"
    "out (snd (snd (uh_pipe_properties host pipe s))) = out s"
    "out (snd (uh_abort_pipe host pipe s)) = out s" "out (snd (uh_clear_pipe_stall host pipe s)) = out s"
    "out (snd (snd (uh_control_request host request s))) = out s"
    "out (snd (snd (snd (uh_read_pipe host pipe len t s)))) = out s"
    "out (snd (uh_write_pipe host pipe data len t s)) = out s"
    "out (uh_add_source host loop s) = out s" "out (uh_remove_source host loop s) = out s"
  using assms by (simp_all add: fair_kernel_def)

lemma kernel_async:
  assumes "fair_kernel host out" "uh_read_pipe_async host pipe a s = (result, s')"
  shows "out s' = (if result = IOReturnSuccess then insert a (out s) else out s)"
proof -
  have "out (snd (uh_read_pipe_async host pipe a s)) =
      (if fst (uh_read_pipe_async host pipe a s) = IOReturnSuccess then insert a (out s) else out s)"
    using assms(1) unfolding fair_kernel_def by blast
  with assms(2) show ?thesis by simp
qed

lemma kernel_pass:
  assumes "fair_kernel host out" "uh_run_pass host t s = (cs, s')"
  shows "distinct (map fst cs)" "fst ` set cs \<subseteq> out s" "out s' = out s - fst ` set cs"
proof -
  have "distinct (map fst (fst (uh_run_pass host t s))) \<and> fst ` set (fst (uh_run_pass host t s)) \<subseteq> out s \<and>
      out (snd (uh_run_pass host t s)) = out s - fst ` set (fst (uh_run_pass host t s))"
    using assms(1) unfolding fair_kernel_def by blast
  with assms(2) show "distinct (map fst cs)" "fst ` set cs \<subseteq> out s" "out s' = out s - fst ` set cs"
    by simp_all
qed

text \<open>Only the kernel's outstanding callbacks and the context's own request matter.\<close>

definition holds :: "('s \<Rightarrow> nat set) \<Rightarrow> 's mac_context \<Rightarrow> bool" where
  "holds out m \<longleftrightarrow> owned (out (mc_state m)) m"

definition same_requests :: "('s \<Rightarrow> nat set) \<Rightarrow> 's mac_context \<Rightarrow> 's mac_context \<Rightarrow> bool" where
  "same_requests out m m' \<longleftrightarrow> mc_requests m' = mc_requests m \<and>
     mc_interrupt_request m' = mc_interrupt_request m \<and> out (mc_state m') = out (mc_state m)"

lemma same_requests_trans: "same_requests out a b \<Longrightarrow> same_requests out b c \<Longrightarrow> same_requests out a c"
  by (simp add: same_requests_def)

lemma same_requests_refl [simp]: "same_requests out m m"
  by (simp add: same_requests_def)

lemma holds_same: "same_requests out m m' \<Longrightarrow> holds out m \<Longrightarrow> holds out m'"
  unfolding same_requests_def holds_def using owned_cong by metis

lemma holds_state: "holds out m \<Longrightarrow> out s = out (mc_state m) \<Longrightarrow> holds out (m\<lparr>mc_state := s\<rparr>)"
  by (erule holds_same [rotated]) (simp add: same_requests_def)

lemma holds_time: "fair_kernel host out \<Longrightarrow> holds out m \<Longrightarrow> holds out (snd (absolute_time host m))"
  by (simp add: absolute_time_def case_prod_unfold Let_def holds_state kernel_keeps [where out = out])

lemma holds_pass:
  assumes "fair_kernel host out" "holds out m" shows "holds out (run_pass host t m)"
proof -
  obtain cs s where r: "uh_run_pass host t (mc_state m) = (cs, s)" by force
  note f = kernel_pass [OF assms(1) r]
  have "mc_state (fold interrupt_callback cs m') = mc_state m'" for m' :: "'a mac_context"
    by (induction cs arbitrary: m')
      (simp_all add: interrupt_callback_def interrupt_request_release_def update_request_def split: prod.splits)
  moreover have "owned (out (mc_state m)) (m\<lparr>mc_state := s\<rparr>)"
    using assms(2) unfolding holds_def by (subst owned_cong [of _ m]) simp_all
  ultimately show ?thesis
    using owned_callbacks [of "out (mc_state m)" "m\<lparr>mc_state := s\<rparr>" cs] f
    by (simp add: holds_def run_pass_def r)
qed

lemma holds_drain:
  "abort_and_drain_interrupt host m = Some (result, m') \<Longrightarrow> fair_kernel host out \<Longrightarrow> holds out m \<Longrightarrow> holds out m'"
  by (erule drain_invariant [where I = "holds out"])
    (simp_all add: holds_time holds_pass holds_state kernel_keeps [where out = out])

lemma holds_wait:
  "run_until_interrupt host seconds m = Some (b, m') \<Longrightarrow> fair_kernel host out \<Longrightarrow> holds out m \<Longrightarrow> holds out m'"
  by (erule wait_invariant [where I = "holds out"]) (auto intro: holds_time holds_pass)

lemma holds_release: "holds out m \<Longrightarrow> holds out (release_interrupt_request m)"
proof -
  assume "holds out m"
  then have "owned (out (mc_state m)) (release_interrupt_request m)" by (simp add: holds_def owned_release)
  moreover have "mc_state (release_interrupt_request m) = mc_state m"
    by (simp add: release_interrupt_request_def interrupt_request_release_def update_request_def split: option.splits)
  ultimately show ?thesis by (simp add: holds_def)
qed

end
