(* ===== verification/M65_UsbRequests.thy ===== *)
theory M65_UsbRequests
  imports M65_UsbBasis
begin

text \<open>
  Every operation of the USB adapter keeps the ownership of the interrupt requests.
\<close>

section \<open>Requests through the operations\<close>

lemma same_requests_simps [simp]:
  "same_requests out m (m\<lparr>mc_open := b\<rparr>)" "same_requests out m (m\<lparr>mc_desynchronized := b\<rparr>)"
  "same_requests out m (m\<lparr>mc_reset_armed := b\<rparr>)" "same_requests out m (m\<lparr>mc_event_source := b\<rparr>)"
  "same_requests out m (m\<lparr>mc_run_loop := l\<rparr>)" "same_requests out m (m\<lparr>mc_interface_number := n\<rparr>)"
  "same_requests out m (m\<lparr>mc_bulk_in_pipe := n\<rparr>)" "same_requests out m (m\<lparr>mc_bulk_out_pipe := n\<rparr>)"
  "same_requests out m (m\<lparr>mc_interrupt_in_pipe := n\<rparr>)"
  "same_requests out m (m\<lparr>mc_state := s\<rparr>) \<longleftrightarrow> out s = out (mc_state m)"
  by (simp_all add: same_requests_def)

lemma descriptor_requests:
  assumes "read_descriptor get result m = (result', value, m')" "out (snd (snd (get (mc_state m)))) = out (mc_state m)"
  shows "same_requests out m m'"
proof -
  obtain r v s where g: "get (mc_state m) = (r, v, s)" by (cases "get (mc_state m)") auto
  show ?thesis using assms unfolding read_descriptor_def g Let_def by (auto split: if_splits)
qed

lemma endpoint_loop_requests:
  assumes "fair_kernel host out"
  shows "endpoint_loop host pipes detail m = (b, detail', m') \<Longrightarrow> same_requests out m m'"
proof (induction pipes arbitrary: m)
  case (Cons pipe pipes)
  obtain r p s where g: "uh_pipe_properties host pipe (mc_state m) = (r, p, s)"
    by (cases "uh_pipe_properties host pipe (mc_state m)") auto
  then have s: "same_requests out m (m\<lparr>mc_state := s\<rparr>)"
    using kernel_keeps(11) [OF assms, of pipe "mc_state m"] by simp
  show ?case
  proof (cases "r = IOReturnSuccess")
    case True
    show ?thesis
    proof (cases "classify_pipe pipe p (m\<lparr>mc_state := s\<rparr>)")
      case (Some m1)
      then have "same_requests out (m\<lparr>mc_state := s\<rparr>) m1"
        by (auto simp: classify_pipe_def split: if_splits)
      moreover have "same_requests out m1 m'" using Cons True Some g by simp
      ultimately show ?thesis using s same_requests_trans by blast
    qed (use Cons.prems g True s in simp)
  qed (use Cons.prems g s in simp)
qed simp

lemma inspect_requests:
  assumes "fair_kernel host out" "inspect_endpoints host detail m = (b, detail', m')"
  shows "same_requests out m m'"
proof -
  obtain r1 v1 m1 where 1: "read_descriptor (uh_interface_class host) IOReturnSuccess m = (r1, v1, m1)" using prod_cases3 by blast
  obtain r2 v2 m2 where 2: "read_descriptor (uh_interface_subclass host) r1 m1 = (r2, v2, m2)" using prod_cases3 by blast
  obtain r3 v3 m3 where 3: "read_descriptor (uh_interface_protocol host) r2 m2 = (r3, v3, m3)" using prod_cases3 by blast
  obtain r4 v4 m4 where 4: "read_descriptor (uh_interface_number host) r3 m3 = (r4, v4, m4)" using prod_cases3 by blast
  define m5 where "m5 = (case v4 of None \<Rightarrow> m4 | Some n \<Rightarrow> m4\<lparr>mc_interface_number := n\<rparr>)"
  obtain r6 v6 m6 where 6: "read_descriptor (uh_num_endpoints host) r4 m5 = (r6, v6, m6)" using prod_cases3 by blast
  define m7 where "m7 = m6\<lparr>mc_bulk_in_pipe := 0, mc_bulk_out_pipe := 0, mc_interrupt_in_pipe := 0\<rparr>"
  obtain b8 d8 m8 where 8: "endpoint_loop host (map of_nat [1..<Suc (unat (the v6))]) detail m7 = (b8, d8, m8)" using prod_cases3 by blast
  note keeps = kernel_keeps [OF assms(1)]
  have s5: "same_requests out m4 m5" by (simp add: m5_def split: option.splits)
  have d: "same_requests out m m1" "same_requests out m1 m2" "same_requests out m2 m3" "same_requests out m3 m4"
    "same_requests out m5 m6"
    by (rule descriptor_requests [where out = out, OF 1], rule keeps)
      (rule descriptor_requests [where out = out, OF 2], rule keeps,
       rule descriptor_requests [where out = out, OF 3], rule keeps,
       rule descriptor_requests [where out = out, OF 4], rule keeps,
       rule descriptor_requests [where out = out, OF 6], rule keeps)
  then have "same_requests out m m6" using s5 by (simp add: same_requests_def)
  moreover have "same_requests out m6 m7" by (simp add: m7_def same_requests_def)
  moreover have "same_requests out m7 m8" by (rule endpoint_loop_requests [OF assms(1) 8])
  moreover have "m' = m6 \<or> m' = m8"
    using assms(2) unfolding inspect_endpoints_def Let_def 1 2 3 4 prod.case m5_def [symmetric] 6 m7_def [symmetric] 8
    by (auto split: if_splits)
  ultimately show ?thesis using same_requests_trans by metis
qed


lemma remove_source_requests:
  assumes "fair_kernel host out" shows "same_requests out m (remove_event_source host m)"
  using kernel_keeps(18) [OF assms]
  by (simp add: remove_event_source_def same_requests_def Let_def split: option.splits)

lemma close_and_forget_requests:
  assumes "fair_kernel host out" shows "same_requests out m (close_and_forget host m)"
  using kernel_keeps(2) [OF assms, of "mc_state m"]
  by (simp add: close_and_forget_def same_requests_def case_prod_unfold Let_def)

lemma open_requests:
  assumes k: "fair_kernel host out" and "mac_open_seize host detail m = (status, detail', m')"
  shows "same_requests out m m'"
proof (cases "mc_open m")
  case True
  with assms(2) show ?thesis by (simp add: mac_open_seize_def)
next
  case False
  note keeps = kernel_keeps [OF k]
  obtain r s where o: "uh_open_seize host (mc_state m) = (r, s)" by force
  have 1: "same_requests out m (m\<lparr>mc_state := s\<rparr>)" using keeps(1) [of "mc_state m"] o by simp
  show ?thesis
  proof (cases "r = IOReturnSuccess")
    case False
    with assms(2) \<open>\<not> mc_open m\<close> o 1 show ?thesis
      by (cases "seize_failure host r") (simp add: mac_open_seize_def)
  next
    case True
    define m2 where "m2 = m\<lparr>mc_state := s, mc_open := True, mc_desynchronized := False, mc_reset_armed := False\<rparr>"
    have 2: "same_requests out m m2" using 1 by (simp add: m2_def same_requests_def)
    obtain b d m3 where i: "inspect_endpoints host detail m2 = (b, d, m3)" using prod_cases3 by blast
    have 3: "same_requests out m2 m3" by (rule inspect_requests [OF k i])
    obtain r4 c s4 where e: "uh_create_event_source host (mc_state m3) = (r4, c, s4)" using prod_cases3 by blast
    define m4 where "m4 = m3\<lparr>mc_state := s4, mc_event_source := c\<rparr>"
    have 4: "same_requests out m3 m4" using keeps(8) [of "mc_state m3"] e by (simp add: m4_def same_requests_def)
    have "m' = close_and_forget host m3 \<or> m' = close_and_forget host (remove_event_source host m4) \<or>
        m' = m4\<lparr>mc_run_loop := Some (uh_current_run_loop host (mc_state m4)),
                mc_state := uh_add_source host (uh_current_run_loop host (mc_state m4)) (mc_state m4)\<rparr>"
      using assms(2) \<open>\<not> mc_open m\<close> True
      unfolding mac_open_seize_def o Let_def prod.case m2_def [symmetric] i e m4_def [symmetric]
      by (simp add: m2_def [symmetric] i e m4_def [symmetric] Let_def split: if_splits)
    moreover have "same_requests out m3 (close_and_forget host m3)" by (rule close_and_forget_requests [OF k])
    moreover have "same_requests out m4 (close_and_forget host (remove_event_source host m4))"
      by (rule same_requests_trans [OF remove_source_requests [OF k] close_and_forget_requests [OF k]])
    moreover have "same_requests out m4 (m4\<lparr>mc_run_loop := Some (uh_current_run_loop host (mc_state m4)),
                mc_state := uh_add_source host (uh_current_run_loop host (mc_state m4)) (mc_state m4)\<rparr>)"
      using keeps(17) by (simp add: same_requests_def)
    ultimately show ?thesis using 2 3 4 same_requests_trans by metis
  qed
qed

lemma adsc_requests:
  assumes "fair_kernel host out" "mac_adsc host cdb timeout_ms detail m = (status, detail', m')"
  shows "same_requests out m m'"
proof -
  have "same_requests out m (m\<lparr>mc_state := snd (snd (uh_control_request host request (mc_state m)))\<rparr>)" for request
    using kernel_keeps(14) [OF assms(1)] by simp
  with assms(2) show ?thesis
    by (auto simp: mac_adsc_def m65_cbi_build_adsc_def Let_def case_prod_unfold same_requests_def split: if_splits)
qed

lemma bulk_failure_requests:
  assumes "fair_kernel host out" "bulk_failure host operation resynchronize pipe result detail m = (detail', m')"
  shows "same_requests out m m'"
  using assms(2) kernel_keeps(13) [OF assms(1)]
  by (auto simp: bulk_failure_def Let_def case_prod_unfold same_requests_def split: if_splits)

lemma bulk_in_requests:
  assumes "fair_kernel host out" "mac_bulk_in host len timeout_ms detail m = (status, data, n, detail', m')"
  shows "same_requests out m m'"
proof -
  obtain r d u s where g: "uh_read_pipe host (mc_bulk_in_pipe m) (of_nat len) timeout_ms (mc_state m) = (r, d, u, s)"
    using prod_cases4 by blast
  have 1: "same_requests out m (m\<lparr>mc_state := s\<rparr>)"
    using kernel_keeps(15) [OF assms(1), of "mc_bulk_in_pipe m" "of_nat len" timeout_ms "mc_state m"] g by simp
  show ?thesis
    using assms(2) g same_requests_trans [OF 1 bulk_failure_requests [OF assms(1)]]
    by (auto simp: mac_bulk_in_def Let_def split: if_splits prod.splits)
qed

lemma bulk_out_requests:
  assumes "fair_kernel host out" "mac_bulk_out host data len timeout_ms detail m = (status, n, detail', m')"
  shows "same_requests out m m'"
proof -
  obtain r s where g: "uh_write_pipe host (mc_bulk_out_pipe m) data (of_nat len) timeout_ms (mc_state m) = (r, s)"
    by force
  have 1: "same_requests out m (m\<lparr>mc_state := s\<rparr>)"
    using kernel_keeps(16) [OF assms(1), of "mc_bulk_out_pipe m" data "of_nat len" timeout_ms "mc_state m"] g by simp
  show ?thesis
    using assms(2) g same_requests_trans [OF 1 bulk_failure_requests [OF assms(1)]]
    by (auto simp: mac_bulk_out_def Let_def split: if_splits prod.splits)
qed

lemma clear_requests:
  assumes "fair_kernel host out" "mac_clear_stall host direction detail m = (status, detail', m')"
  shows "same_requests out m m'"
  using assms(2) kernel_keeps(13) [OF assms(1)]
  by (cases direction) (auto simp: mac_clear_stall_def Let_def case_prod_unfold same_requests_def split: if_splits)

lemma finish_requests:
  assumes "mac_finish_command_block_reset host recovered detail m = (status, detail', m')"
  shows "same_requests out m m'"
  using assms by (auto simp: mac_finish_command_block_reset_def Let_def case_prod_unfold same_requests_def split: if_splits)


lemma close_holds:
  assumes k: "fair_kernel host out" and "holds out m" and "mac_close host detail m = Some (status, detail', m')"
  shows "holds out m'"
proof (cases "mc_open m")
  case False
  with assms show ?thesis by (simp add: mac_close_def)
next
  case True
  obtain same d where o: "on_transport_run_loop host detail m = (same, d)" by force
  let ?drained = "if \<not> same then Some (IOReturnBadArgument, m) else abort_and_drain_interrupt host m"
  obtain r m1 where a: "?drained = Some (r, m1)"
    using assms(3) True o by (cases ?drained) (auto simp: mac_close_def)
  have 1: "holds out m1" using a assms(2) holds_drain [OF _ k] by (auto split: if_splits)
  obtain r2 s where c: "uh_close host (mc_state m1) = (r2, s)" by force
  define m2 where "m2 = m1\<lparr>mc_state := s, mc_open := False, mc_reset_armed := False\<rparr>"
  have "m' = remove_event_source host (release_interrupt_request m2)"
    using assms(3) True unfolding mac_close_def o Let_def prod.case a by (auto simp: c m2_def split: if_splits)
  moreover have "same_requests out m1 m2"
    using kernel_keeps(2) [OF k, of "mc_state m1"] c by (simp add: m2_def same_requests_def)
  ultimately show ?thesis
    using holds_same [OF remove_source_requests [OF k] holds_release [OF holds_same [OF _ 1]]] by blast
qed

lemma holds_flag [simp]:
  "holds out (m\<lparr>mc_desynchronized := b\<rparr>) = holds out m" "holds out (m\<lparr>mc_reset_armed := b\<rparr>) = holds out m"
proof -
  have "owned o' (m\<lparr>mc_desynchronized := b\<rparr>) = owned o' m" "owned o' (m\<lparr>mc_reset_armed := b\<rparr>) = owned o' m" for o'
    by (rule owned_cong; simp)+
  then show "holds out (m\<lparr>mc_desynchronized := b\<rparr>) = holds out m"
    "holds out (m\<lparr>mc_reset_armed := b\<rparr>) = holds out m"
    by (simp_all add: holds_def)
qed

lemma timeout_holds:
  assumes k: "fair_kernel host out" and "holds out m" and "interrupt_timeout host m = Some (status, data, n, detail', m')"
  shows "holds out m'"
proof -
  obtain r m1 where a: "abort_and_drain_interrupt host (m\<lparr>mc_desynchronized := True\<rparr>) = Some (r, m1)"
    using assms(3) by (auto simp: interrupt_timeout_def)
  have 1: "holds out m1" by (rule holds_drain [OF a k]) (simp add: assms(2))
  obtain r2 s where c: "uh_clear_pipe_stall host (mc_interrupt_in_pipe m1) (mc_state m1) = (r2, s)" by force
  have "holds out (m1\<lparr>mc_state := s\<rparr>)"
    using kernel_keeps(13) [OF k, of "mc_interrupt_in_pipe m1" "mc_state m1"] c holds_state [OF 1] by simp
  with assms(3) a c 1 holds_release show ?thesis
    by (auto simp: interrupt_timeout_def Let_def split: if_splits)
qed

lemma interrupt_holds:
  assumes k: "fair_kernel host out" and h: "holds out m"
    and "mac_interrupt_in_with_deadline host timeout_ms detail m = Some (status, data, n, detail', m')"
  shows "holds out m'"
proof -
  obtain same d where o: "on_transport_run_loop host detail m = (same, d)" by force
  obtain b s where c: "uh_calloc host (mc_state m) = (b, s)" by force
  have 1: "holds out (m\<lparr>mc_state := s\<rparr>)" using kernel_keeps(10) [OF k, of "mc_state m"] c holds_state [OF h] by simp
  let ?a = "length (mc_requests m)"
  let ?r = "\<lparr>rq_references = 2, rq_complete = False, rq_result = IOReturnNotReady, rq_transferred = 0,
    rq_buffer = zeroed M65_CBI_STATUS_LENGTH\<rparr>"
  let ?m2 = "m\<lparr>mc_state := s, mc_requests := mc_requests m @ [?r], mc_interrupt_request := Some ?a\<rparr>"
  obtain r2 s2 where e: "uh_read_pipe_async host (mc_interrupt_in_pipe m) ?a s = (r2, s2)" by force
  let ?m3 = "?m2\<lparr>mc_state := s2\<rparr>"
  show ?thesis
  proof (cases "same \<and> mc_interrupt_request m = None \<and> b")
    case False
    then show ?thesis
      using assms(3) h 1 unfolding mac_interrupt_in_with_deadline_def o Let_def prod.case c
      by (auto split: if_splits)
  next
    case True
    show ?thesis
    proof (cases "r2 = IOReturnSuccess")
      case False
      have "owned (out (mc_state (m\<lparr>mc_state := s\<rparr>))) (release_interrupt_request (interrupt_request_release ?a
          ((m\<lparr>mc_state := s\<rparr>)\<lparr>mc_requests := mc_requests (m\<lparr>mc_state := s\<rparr>) @ [?r],
            mc_interrupt_request := Some (length (mc_requests (m\<lparr>mc_state := s\<rparr>))), mc_state := s2\<rparr>)))"
        using owned_failed_submit [of "out s" "m\<lparr>mc_state := s\<rparr>" ?r s2] 1 True by (simp add: holds_def)
      moreover have "out s2 = out s" using kernel_async [OF k e] False by simp
      moreover have "m' = release_interrupt_request (interrupt_request_release ?a ?m3)"
        using assms(3) True False unfolding mac_interrupt_in_with_deadline_def o Let_def prod.case c by (simp add: e)
      ultimately show ?thesis
        by (simp add: holds_def release_interrupt_request_def interrupt_request_release_def update_request_def)
    next
      case sent: True
      have "owned (insert ?a (out s)) ?m2"
        using owned_submit [of "out s" "m\<lparr>mc_state := s\<rparr>" ?r] 1 True by (simp add: holds_def)
      then have 3: "holds out ?m3"
        using kernel_async [OF k e] sent unfolding holds_def by (subst owned_cong [of _ ?m2]) simp_all
      obtain arrived m4 where w: "run_until_interrupt host (of_nat (unat timeout_ms) / 1000) ?m3 = Some (arrived, m4)"
        and r: "(if \<not> arrived then interrupt_timeout host m4 else Some (interrupt_arrived host ?a d m4)) =
          Some (status, data, n, detail', m')"
        using assms(3) True sent unfolding mac_interrupt_in_with_deadline_def o Let_def prod.case c
        by (simp add: e cong: if_cong split: Option.bind_splits) auto
      have 4: "holds out m4" by (rule holds_wait [OF w k 3])
      then show ?thesis
        using r timeout_holds [OF k 4] holds_release [OF 4]
        by (auto simp: interrupt_arrived_def Let_def split: if_splits)
    qed
  qed
qed

lemma prepare_holds:
  assumes k: "fair_kernel host out" and h: "holds out m"
    and "mac_prepare_command_block_reset host detail m = Some (status, detail', m')"
  shows "holds out m'"
proof -
  obtain same d where o: "on_transport_run_loop host detail m = (same, d)" by force
  show ?thesis
  proof (cases "same \<and> mc_open m \<and> \<not> mc_reset_armed m")
    case False
    then show ?thesis
      using assms(3) h unfolding mac_prepare_command_block_reset_def o Let_def prod.case by (auto split: if_splits)
  next
    case True
    obtain r m1 where a: "abort_and_drain_interrupt host m = Some (r, m1)"
      using assms(3) True o by (auto simp: mac_prepare_command_block_reset_def)
    have 1: "holds out m1" by (rule holds_drain [OF a k h])
    define m2 where "m2 = release_interrupt_request m1"
    have 2: "holds out m2" unfolding m2_def by (rule holds_release [OF 1])
    obtain r2 s where c: "uh_clear_pipe_stall host (mc_interrupt_in_pipe m2) (mc_state m2) = (r2, s)" by force
    have "holds out (m2\<lparr>mc_state := s\<rparr>)"
      using kernel_keeps(13) [OF k, of "mc_interrupt_in_pipe m2" "mc_state m2"] c holds_state [OF 2] by simp
    then show ?thesis
      using assms(3) True a c 1 2 unfolding mac_prepare_command_block_reset_def o Let_def prod.case
      by (auto simp: m2_def [symmetric] split: if_splits)
  qed
qed

lemma step_holds: "mac_step host action m m' \<Longrightarrow> fair_kernel host out \<Longrightarrow> holds out m \<Longrightarrow> holds out m'"
  by (induction rule: mac_step.induct)
    (blast intro: holds_same open_requests adsc_requests bulk_in_requests bulk_out_requests clear_requests
      finish_requests close_holds interrupt_holds prepare_holds)+

end
