(* ===== verification/M65_UsbModes.thy ===== *)
theory M65_UsbModes
  imports M65_UsbRequests
begin

text \<open>
  The modes of the USB adapter: what opening, closing, a reset and a lost synchronisation change,
  and that waits return when the clock runs.
\<close>

section \<open>The modes\<close>

definition permits :: "bytes \<Rightarrow> 's mac_context \<Rightarrow> bool" where
  "permits cdb m \<longleftrightarrow> mc_interrupt_request m = None \<and> (mc_reset_armed m \<longleftrightarrow> is_command_block_reset cdb) \<and>
     (mc_desynchronized m \<longrightarrow> is_command_block_reset cdb)"

lemma adsc_refused:
  assumes "\<not> permits cdb m" shows "\<exists>detail'. mac_adsc host cdb timeout_ms detail m = (CBI_IO_PROTOCOL, detail', m)"
proof -
  obtain same d where o: "on_transport_run_loop host detail m = (same, d)" by force
  have "\<not> fst (ready_for_adsc host cdb detail m)"
    using assms by (auto simp: ready_for_adsc_def o Let_def permits_def)
  then obtain d' where "ready_for_adsc host cdb detail m = (False, d')"
    by (cases "ready_for_adsc host cdb detail m") auto
  then show ?thesis by (simp add: mac_adsc_def)
qed

lemma adsc_modes:
  assumes "mac_adsc host cdb timeout_ms detail m = (status, detail', m')"
  shows "mc_open m' = mc_open m \<and> mc_reset_armed m' = mc_reset_armed m \<and> mc_interrupt_request m' = mc_interrupt_request m \<and>
     (mc_desynchronized m \<longrightarrow> mc_desynchronized m')"
  using assms by (auto simp: mac_adsc_def Let_def case_prod_unfold m65_cbi_build_adsc_def split: if_splits)

lemma bulk_failure_modes:
  assumes "bulk_failure host operation resynchronize pipe result detail m = (detail', m')"
  shows "mc_open m' = mc_open m \<and> mc_reset_armed m' = mc_reset_armed m \<and> (mc_desynchronized m \<longrightarrow> mc_desynchronized m')"
  using assms by (auto simp: bulk_failure_def Let_def case_prod_unfold split: if_splits)

lemma bulk_modes:
  "mac_bulk_in host len timeout_ms detail m = (status, data, n, detail', m') \<Longrightarrow>
     mc_open m' = mc_open m \<and> mc_reset_armed m' = mc_reset_armed m \<and> (mc_desynchronized m \<longrightarrow> mc_desynchronized m')"
  "mac_bulk_out host data' len timeout_ms detail m = (status, n, detail', m') \<Longrightarrow>
     mc_open m' = mc_open m \<and> mc_reset_armed m' = mc_reset_armed m \<and> (mc_desynchronized m \<longrightarrow> mc_desynchronized m')"
  by (auto simp: mac_bulk_in_def mac_bulk_out_def Let_def split: if_splits prod.splits dest!: bulk_failure_modes)

lemma clear_modes: "mac_clear_stall host direction detail m = (status, detail', m') \<Longrightarrow> same_modes m m'"
  by (cases direction) (auto simp: mac_clear_stall_def Let_def case_prod_unfold split: if_splits)

lemma release_modes_kept [simp]:
  "mc_open (release_interrupt_request m) = mc_open m" "mc_desynchronized (release_interrupt_request m) = mc_desynchronized m"
  "mc_reset_armed (release_interrupt_request m) = mc_reset_armed m"
  "mc_interrupt_request (release_interrupt_request m) = None"
  "mc_run_loop (release_interrupt_request m) = mc_run_loop m"
  "mc_event_source (release_interrupt_request m) = mc_event_source m"
  "mc_interrupt_in_pipe (release_interrupt_request m) = mc_interrupt_in_pipe m"
  by (simp_all add: release_interrupt_request_def interrupt_request_release_def update_request_def split: option.splits)

lemma request_release_kept [simp]:
  "mc_open (interrupt_request_release a m) = mc_open m"
  "mc_desynchronized (interrupt_request_release a m) = mc_desynchronized m"
  "mc_reset_armed (interrupt_request_release a m) = mc_reset_armed m"
  by (simp_all add: interrupt_request_release_def update_request_def)

lemma timeout_modes:
  assumes "interrupt_timeout host m = Some (status, data, n, detail', m')"
  shows "mc_open m' = mc_open m \<and> mc_reset_armed m' = mc_reset_armed m \<and> mc_desynchronized m' \<and> status \<noteq> CBI_IO_OK"
proof -
  obtain r m1 where a: "abort_and_drain_interrupt host (m\<lparr>mc_desynchronized := True\<rparr>) = Some (r, m1)"
    using assms by (auto simp: interrupt_timeout_def)
  from drain_modes [OF a] have "mc_open m1 = mc_open m" "mc_reset_armed m1 = mc_reset_armed m" "mc_desynchronized m1"
    by (simp_all add: same_modes_def)
  with assms a show ?thesis
    by (auto simp: interrupt_timeout_def Let_def case_prod_unfold map_io_return_def split: if_splits)
qed

lemma interrupt_modes:
  assumes "mac_interrupt_in_with_deadline host timeout_ms detail m = Some (status, data, n, detail', m')"
  shows "mc_open m' = mc_open m \<and> mc_reset_armed m' = mc_reset_armed m \<and> (mc_desynchronized m \<longrightarrow> mc_desynchronized m')"
proof -
  obtain same d where o: "on_transport_run_loop host detail m = (same, d)" by force
  obtain b s where c: "uh_calloc host (mc_state m) = (b, s)" by force
  let ?a = "length (mc_requests m)"
  let ?r = "\<lparr>rq_references = 2, rq_complete = False, rq_result = IOReturnNotReady, rq_transferred = 0,
    rq_buffer = zeroed M65_CBI_STATUS_LENGTH\<rparr>"
  let ?m2 = "m\<lparr>mc_state := s, mc_requests := mc_requests m @ [?r], mc_interrupt_request := Some ?a\<rparr>"
  obtain r2 s2 where e: "uh_read_pipe_async host (mc_interrupt_in_pipe m) ?a s = (r2, s2)" by force
  let ?m3 = "?m2\<lparr>mc_state := s2\<rparr>"
  show ?thesis
  proof (cases "same \<and> mc_interrupt_request m = None \<and> b \<and> r2 = IOReturnSuccess")
    case False
    then show ?thesis
      using assms unfolding mac_interrupt_in_with_deadline_def o Let_def prod.case c
      by (auto simp: e split: if_splits)
  next
    case True
    obtain arrived m4 where w: "run_until_interrupt host (of_nat (unat timeout_ms) / 1000) ?m3 = Some (arrived, m4)"
      and r: "(if \<not> arrived then interrupt_timeout host m4 else Some (interrupt_arrived host ?a d m4)) =
        Some (status, data, n, detail', m')"
      using assms True unfolding mac_interrupt_in_with_deadline_def o Let_def prod.case c
      by (simp add: e cong: if_cong split: Option.bind_splits) auto
    from wait_modes [OF w] have "mc_open m4 = mc_open m" "mc_reset_armed m4 = mc_reset_armed m"
      "mc_desynchronized m4 = mc_desynchronized m" by (simp_all add: same_modes_def)
    with r show ?thesis
      by (auto simp: interrupt_arrived_def Let_def dest: timeout_modes split: if_splits)
  qed
qed

lemma remove_source_kept [simp]:
  "mc_open (remove_event_source host m) = mc_open m" "mc_desynchronized (remove_event_source host m) = mc_desynchronized m"
  "mc_reset_armed (remove_event_source host m) = mc_reset_armed m"
  "mc_interrupt_request (remove_event_source host m) = mc_interrupt_request m"
  "mc_event_source (remove_event_source host m) = False" "mc_run_loop (remove_event_source host m) = None"
  by (simp_all add: remove_event_source_def Let_def split: option.splits)

lemma close_modes:
  assumes "mac_close host detail m = Some (status, detail', m')"
  shows "if mc_open m then \<not> mc_open m' \<and> \<not> mc_reset_armed m' \<and> mc_interrupt_request m' = None \<and>
      mc_desynchronized m' = mc_desynchronized m \<and> \<not> mc_event_source m' \<and> mc_run_loop m' = None else m' = m"
proof (cases "mc_open m")
  case False
  with assms show ?thesis by (simp add: mac_close_def)
next
  case True
  obtain same d where o: "on_transport_run_loop host detail m = (same, d)" by force
  let ?drained = "if \<not> same then Some (IOReturnBadArgument, m) else abort_and_drain_interrupt host m"
  obtain r m1 where a: "?drained = Some (r, m1)"
    using assms True o by (cases ?drained) (auto simp: mac_close_def)
  have "same_modes m m1" using a drain_modes by (auto split: if_splits)
  moreover obtain r2 s where c: "uh_close host (mc_state m1) = (r2, s)" by force
  have "m' = remove_event_source host (release_interrupt_request
      (m1\<lparr>mc_state := s, mc_open := False, mc_reset_armed := False\<rparr>))"
    using assms True unfolding mac_close_def o Let_def prod.case a by (auto simp: c split: if_splits)
  ultimately show ?thesis using True by (simp add: same_modes_def)
qed

lemma prepare_modes:
  assumes "mac_prepare_command_block_reset host detail m = Some (status, detail', m')"
  shows "mc_open m' = mc_open m \<and> mc_desynchronized m' = mc_desynchronized m \<and>
    (if status = CBI_IO_OK then mc_open m \<and> \<not> mc_reset_armed m \<and> mc_reset_armed m' \<and> mc_interrupt_request m' = None
     else mc_reset_armed m' = mc_reset_armed m)"
proof -
  obtain same d where o: "on_transport_run_loop host detail m = (same, d)" by force
  show ?thesis
  proof (cases "same \<and> mc_open m \<and> \<not> mc_reset_armed m")
    case False
    then show ?thesis
      using assms unfolding mac_prepare_command_block_reset_def o Let_def prod.case by (auto split: if_splits)
  next
    case True
    obtain r m1 where a: "abort_and_drain_interrupt host m = Some (r, m1)"
      using assms True o by (auto simp: mac_prepare_command_block_reset_def)
    have "same_modes m m1" by (rule drain_modes [OF a])
    then show ?thesis
      using assms True a unfolding mac_prepare_command_block_reset_def o Let_def prod.case
      by (auto simp: case_prod_unfold map_io_return_def same_modes_def split: if_splits)
  qed
qed

lemma finish_modes:
  "mac_finish_command_block_reset host recovered detail m = (status, detail', m') \<Longrightarrow>
     mc_open m' = mc_open m \<and> mc_interrupt_request m' = mc_interrupt_request m \<and>
     (if status = CBI_IO_OK then mc_reset_armed m \<and> \<not> mc_reset_armed m' \<and> mc_desynchronized m' = (\<not> recovered)
      else mc_reset_armed m' = mc_reset_armed m \<and> (mc_desynchronized m \<longrightarrow> mc_desynchronized m'))"
  by (auto simp: mac_finish_command_block_reset_def Let_def split: if_splits prod.splits)


lemma step_desynchronized:
  assumes "mac_step host action m m'" "mc_desynchronized m" "\<not> mc_desynchronized m'"
  shows "action = ActOpen \<or> (action = ActFinish True \<and> mc_reset_armed m \<and> \<not> mc_reset_armed m')"
  using assms
proof (cases rule: mac_step.cases)
  case (step_close detail status detail')
  with assms show ?thesis using close_modes [OF step_close(2)] by (auto split: if_splits)
next
  case (step_adsc cdb timeout_ms detail status detail')
  with assms show ?thesis using adsc_modes by blast
next
  case (step_bulk_in len timeout_ms detail status data n detail')
  with assms show ?thesis using bulk_modes(1) by blast
next
  case (step_bulk_out data len timeout_ms detail status n detail')
  with assms show ?thesis using bulk_modes(2) by blast
next
  case (step_interrupt timeout_ms detail status data n detail')
  with assms show ?thesis using interrupt_modes by blast
next
  case (step_clear direction detail status detail')
  with assms show ?thesis using clear_modes [OF step_clear(2)] by (simp add: same_modes_def)
next
  case (step_prepare detail status detail')
  with assms show ?thesis using prepare_modes by blast
next
  case (step_finish recovered detail status detail')
  with assms show ?thesis using finish_modes [OF step_finish(2)] by (auto split: if_splits)
qed simp_all

section \<open>Waits that return\<close>

text \<open>A clock that is monotonic and advances by at least \<open>tick\<close> in a pass of the run loop.\<close>

definition running_clock :: "'s usb_host \<Rightarrow> ('s \<Rightarrow> rat) \<Rightarrow> rat \<Rightarrow> bool" where
  "running_clock host clock tick \<longleftrightarrow> 0 < tick \<and>
     (\<forall>s. fst (uh_absolute_time host s) = clock s \<and> clock s \<le> clock (snd (uh_absolute_time host s))) \<and>
     (\<forall>t s. clock s + tick \<le> clock (snd (uh_run_pass host t s)))"

lemma callbacks_state [simp]: "mc_state (fold interrupt_callback cs m) = mc_state m"
proof (induction cs arbitrary: m)
  case (Cons c cs)
  then show ?case
    by (cases c) (simp add: interrupt_callback_def interrupt_request_release_def update_request_def)
qed simp

lemma wait_loop_returns:
  assumes "running_clock host clock tick"
  shows "deadline - clock (mc_state m) \<le> of_nat n * tick \<Longrightarrow> \<exists>x. wait_loop host deadline m = Some x"
proof (induction n arbitrary: m)
  case 0
  have "fst (absolute_time host m) = clock (mc_state m)"
    using assms by (simp add: absolute_time_def running_clock_def case_prod_unfold Let_def)
  with 0 have "wait_loop host deadline m = Some
      (if interrupt_request_complete (mc_interrupt_request m) m then (True, m) else (False, snd (absolute_time host m)))"
    by (subst wait_loop.simps) simp
  then show ?case by blast
next
  case (Suc n)
  obtain now s where t: "uh_absolute_time host (mc_state m) = (now, s)" by force
  have s: "now = clock (mc_state m)" "clock (mc_state m) \<le> clock s"
    using assms t unfolding running_clock_def by (metis fst_conv snd_conv)+
  let ?m = "m\<lparr>mc_state := s\<rparr>"
  have "clock (mc_state ?m) + tick \<le> clock (mc_state (run_pass host (deadline - now) ?m))"
    using assms by (simp add: running_clock_def run_pass_def case_prod_unfold Let_def)
  then have "deadline - clock (mc_state (run_pass host (deadline - now) ?m)) \<le> of_nat n * tick"
    using Suc.prems s by (simp add: algebra_simps)
  then obtain x where x: "wait_loop host deadline (run_pass host (deadline - now) ?m) = Some x"
    using Suc.IH by blast
  have a: "absolute_time host m = (now, ?m)" by (simp add: absolute_time_def t)
  have "wait_loop host deadline m =
      (if interrupt_request_complete (mc_interrupt_request m) m then Some (True, m)
       else if deadline - now \<le> 0 then Some (False, ?m) else Some x)"
    by (subst wait_loop.simps) (simp add: a x)
  then have "wait_loop host deadline m \<noteq> None" by (simp del: not_None_eq)
  then show ?case by (simp only: not_None_eq)
qed

lemma wait_returns:
  assumes "running_clock host clock tick" shows "\<exists>b m'. run_until_interrupt host seconds m = Some (b, m')"
proof -
  obtain now s where t: "uh_absolute_time host (mc_state m) = (now, s)" by force
  have tick: "0 < tick" using assms by (simp add: running_clock_def)
  obtain n :: nat where "(now + seconds - clock s) / tick \<le> of_nat n" using real_arch_simple by blast
  with tick have "now + seconds - clock s \<le> of_nat n * tick" by (simp add: divide_le_eq)
  with wait_loop_returns [OF assms, of "now + seconds" "m\<lparr>mc_state := s\<rparr>" n]
  obtain x where "wait_loop host (now + seconds) (m\<lparr>mc_state := s\<rparr>) = Some x" by auto
  then show ?thesis by (cases x) (simp add: run_until_interrupt_def absolute_time_def t)
qed

lemma drain_returns:
  assumes "running_clock host clock tick" shows "\<exists>r m'. abort_and_drain_interrupt host m = Some (r, m')"
proof -
  obtain r s where a: "uh_abort_pipe host (mc_interrupt_in_pipe m) (mc_state m) = (r, s)" by force
  obtain b m' where "run_until_interrupt host M65_INTERRUPT_ABORT_DRAIN_SECONDS (m\<lparr>mc_state := s\<rparr>) = Some (b, m')"
    using wait_returns [OF assms] by blast
  with a show ?thesis by (simp add: abort_and_drain_interrupt_def Let_def)
qed

lemma timeout_returns:
  assumes "running_clock host clock tick" shows "interrupt_timeout host m \<noteq> None"
proof -
  obtain r m' where "abort_and_drain_interrupt host (m\<lparr>mc_desynchronized := True\<rparr>) = Some (r, m')"
    using drain_returns [OF assms] by blast
  then show ?thesis by (simp add: interrupt_timeout_def del: not_None_eq)
qed

lemma interrupt_returns:
  assumes "running_clock host clock tick" shows "mac_interrupt_in_with_deadline host timeout_ms detail m \<noteq> None"
proof -
  have "Option.bind (run_until_interrupt host s m') (\<lambda>(arrived, m).
      if \<not> arrived then interrupt_timeout host m else Some (f m)) \<noteq> None" for s m' f
  proof -
    obtain b m1 where "run_until_interrupt host s m' = Some (b, m1)" using wait_returns [OF assms] by blast
    then show ?thesis using timeout_returns [OF assms] by (simp del: not_None_eq)
  qed
  then show ?thesis
    by (simp add: mac_interrupt_in_with_deadline_def Let_def case_prod_unfold del: not_None_eq)
qed

lemma close_returns:
  assumes "running_clock host clock tick" shows "mac_close host detail m \<noteq> None"
proof -
  obtain r m' where "abort_and_drain_interrupt host m = Some (r, m')" using drain_returns [OF assms] by blast
  then show ?thesis by (simp add: mac_close_def Let_def case_prod_unfold del: not_None_eq)
qed

lemma prepare_returns:
  assumes "running_clock host clock tick" shows "mac_prepare_command_block_reset host detail m \<noteq> None"
proof -
  obtain r m' where "abort_and_drain_interrupt host m = Some (r, m')" using drain_returns [OF assms] by blast
  then show ?thesis by (simp add: mac_prepare_command_block_reset_def Let_def case_prod_unfold del: not_None_eq)
qed

section \<open>Opening\<close>

definition same_session :: "'s mac_context \<Rightarrow> 's mac_context \<Rightarrow> bool" where
  "same_session m m' \<longleftrightarrow> mc_open m' = mc_open m \<and> mc_desynchronized m' = mc_desynchronized m \<and>
     mc_reset_armed m' = mc_reset_armed m \<and> mc_interrupt_request m' = mc_interrupt_request m"

lemma same_session_trans: "same_session a b \<Longrightarrow> same_session b c \<Longrightarrow> same_session a c"
  by (simp add: same_session_def)

lemma endpoint_loop_session: "endpoint_loop host pipes detail m = (b, detail', m') \<Longrightarrow> same_session m m'"
proof (induction pipes arbitrary: m)
  case (Cons pipe pipes)
  obtain r p s where g: "uh_pipe_properties host pipe (mc_state m) = (r, p, s)" using prod_cases3 by blast
  show ?case
  proof (cases "r = IOReturnSuccess")
    case True
    show ?thesis
    proof (cases "classify_pipe pipe p (m\<lparr>mc_state := s\<rparr>)")
      case (Some m1)
      then have "same_session m m1" by (auto simp: classify_pipe_def same_session_def split: if_splits)
      moreover have "same_session m1 m'" using Cons True Some g by simp
      ultimately show ?thesis by (rule same_session_trans)
    qed (use Cons.prems g True in \<open>auto simp: same_session_def\<close>)
  qed (use Cons.prems g in \<open>auto simp: same_session_def\<close>)
qed (simp add: same_session_def)

lemma descriptor_session: "read_descriptor get result m = (result', value, m') \<Longrightarrow> same_session m m'"
  by (auto simp: read_descriptor_def same_session_def case_prod_unfold Let_def split: if_splits)

text \<open>Reading the descriptors succeeds or not; then the pipes are enumerated.\<close>

lemma inspect_cases:
  assumes "inspect_endpoints host detail m = (b, detail', m')"
  obtains (refused) "\<not> b" "same_session m m'"
    | (enumerated) m7 d8 m8 where "same_session m m7" "mc_bulk_in_pipe m7 = 0" "mc_bulk_out_pipe m7 = 0"
        "mc_interrupt_in_pipe m7 = 0" "endpoint_loop host [1, 2, 3] detail m7 = (True, d8, m8)" "m' = m8"
        "b \<longleftrightarrow> mc_bulk_in_pipe m8 \<noteq> 0 \<and> mc_bulk_out_pipe m8 \<noteq> 0 \<and> mc_interrupt_in_pipe m8 \<noteq> 0"
proof -
  obtain r1 v1 m1 where 1: "read_descriptor (uh_interface_class host) IOReturnSuccess m = (r1, v1, m1)" using prod_cases3 by blast
  obtain r2 v2 m2 where 2: "read_descriptor (uh_interface_subclass host) r1 m1 = (r2, v2, m2)" using prod_cases3 by blast
  obtain r3 v3 m3 where 3: "read_descriptor (uh_interface_protocol host) r2 m2 = (r3, v3, m3)" using prod_cases3 by blast
  obtain r4 v4 m4 where 4: "read_descriptor (uh_interface_number host) r3 m3 = (r4, v4, m4)" using prod_cases3 by blast
  define m5 where "m5 = (case v4 of None \<Rightarrow> m4 | Some n \<Rightarrow> m4\<lparr>mc_interface_number := n\<rparr>)"
  obtain r6 v6 m6 where 6: "read_descriptor (uh_num_endpoints host) r4 m5 = (r6, v6, m6)" using prod_cases3 by blast
  define m7 where "m7 = m6\<lparr>mc_bulk_in_pipe := 0, mc_bulk_out_pipe := 0, mc_interrupt_in_pipe := 0\<rparr>"
  obtain b8 d8 m8 where 8: "endpoint_loop host (map of_nat [1..<Suc (unat (the v6))]) detail m7 = (b8, d8, m8)" using prod_cases3 by blast
  have "same_session m4 m5" by (simp add: m5_def same_session_def split: option.splits)
  then have s6: "same_session m m6"
    using descriptor_session [OF 1] descriptor_session [OF 2] descriptor_session [OF 3] descriptor_session [OF 4]
      descriptor_session [OF 6] by (simp add: same_session_def)
  then have s7: "same_session m m7" by (simp add: m7_def same_session_def)
  have s8: "same_session m m8" by (rule same_session_trans [OF s7 endpoint_loop_session [OF 8]])
  note result = assms [unfolded inspect_endpoints_def Let_def 1 2 3 4 prod.case m5_def [symmetric] 6 m7_def [symmetric] 8]
  show thesis
  proof (cases "b8 \<and> v6 = Some 3 \<and> m' = m8 \<and> (b \<longleftrightarrow> mc_bulk_in_pipe m8 \<noteq> 0 \<and> mc_bulk_out_pipe m8 \<noteq> 0 \<and> mc_interrupt_in_pipe m8 \<noteq> 0)")
    case True
    have "map of_nat [1..<Suc (unat (3 :: u8))] = [1, 2, 3 :: u8]" by (simp add: upt_rec)
    with True 8 s7 show thesis by (intro enumerated [of m7 d8 m8]) (simp_all add: m7_def)
  next
    case False
    with result s6 s8 show thesis by (intro refused) (auto split: if_splits)
  qed
qed

lemma open_modes:
  assumes "mac_open_seize host detail m = (status, detail', m')" "\<not> mc_open m"
  shows "if status = CBI_IO_OK then mc_open m' \<and> \<not> mc_desynchronized m' \<and> \<not> mc_reset_armed m' \<and>
      mc_event_source m' \<and> mc_run_loop m' \<noteq> None else \<not> mc_open m'"
proof -
  obtain r s where o: "uh_open_seize host (mc_state m) = (r, s)" by force
  show ?thesis
  proof (cases "r = IOReturnSuccess")
    case False
    have "fst (seize_failure host r) \<noteq> CBI_IO_OK" using False by (auto simp: seize_failure_def map_io_return_def Let_def)
    with assms False o show ?thesis by (auto simp: mac_open_seize_def split: prod.splits)
  next
    case True
    define m2 where "m2 = m\<lparr>mc_state := s, mc_open := True, mc_desynchronized := False, mc_reset_armed := False\<rparr>"
    obtain b d m3 where i: "inspect_endpoints host detail m2 = (b, d, m3)" using prod_cases3 by blast
    have "same_session m2 m3"
      using inspect_cases [OF i] endpoint_loop_session same_session_trans by metis
    then have m3: "mc_open m3" "\<not> mc_desynchronized m3" "\<not> mc_reset_armed m3" by (simp_all add: same_session_def m2_def)
    obtain r4 c s4 where e: "uh_create_event_source host (mc_state m3) = (r4, c, s4)" using prod_cases3 by blast
    show ?thesis
      using assms True m3 unfolding mac_open_seize_def o Let_def prod.case m2_def [symmetric]
      by (auto simp: m2_def [symmetric] i e close_and_forget_def case_prod_unfold map_io_return_def split: if_splits)
  qed
qed

end
