(* ===== verification/M65_UsbSim.thy ===== *)
theory M65_UsbSim
  imports M65_UsbModes
begin

text \<open>
  A simulated USB stack for the adapter: concrete inputs on which its hypotheses hold.
\<close>

section \<open>A simulated USB stack\<close>

text \<open>One conforming interface whose completions follow a script: a result, the bytes and the count of
  each. Its clock advances a second in each pass of the run loop, and it keeps the requests it gets.\<close>

record sim_usb =
  su_clock :: rat
  su_outstanding :: "nat list"
  su_script :: "(io_return \<times> bytes \<times> nat) list"
  su_requests :: "usb_request list"

definition sim_pass :: "rat \<Rightarrow> sim_usb \<Rightarrow> completion list \<times> sim_usb" where
  "sim_pass t s =
     (case (su_outstanding s, su_script s) of
        (a # others, (result, data, n) # script) \<Rightarrow>
          ([(a, result, data, n)],
           s\<lparr>su_outstanding := removeAll a others, su_script := script, su_clock := su_clock s + 1\<rparr>)
      | _ \<Rightarrow> ([], s\<lparr>su_clock := su_clock s + 1\<rparr>))"

definition sim_pipe :: "u8 \<Rightarrow> pipe_properties" where
  "sim_pipe pipe =
     (if pipe = 1 then \<lparr>pp_direction = USBIn, pp_transfer_type = USBBulk, pp_max_packet_size = 64\<rparr>
      else if pipe = 2 then \<lparr>pp_direction = USBOut, pp_transfer_type = USBBulk, pp_max_packet_size = 64\<rparr>
      else \<lparr>pp_direction = USBIn, pp_transfer_type = USBInterrupt, pp_max_packet_size = 2\<rparr>)"

definition sim_host :: "sim_usb usb_host" where
  "sim_host =
     \<lparr>uh_number = (\<lambda>_. 0), uh_is_root = False,
      uh_open_seize = Pair IOReturnSuccess, uh_close = Pair IOReturnSuccess,
      uh_interface_class = (\<lambda>s. (IOReturnSuccess, 8, s)), uh_interface_subclass = (\<lambda>s. (IOReturnSuccess, 4, s)),
      uh_interface_protocol = (\<lambda>s. (IOReturnSuccess, 0, s)), uh_interface_number = (\<lambda>s. (IOReturnSuccess, 0, s)),
      uh_num_endpoints = (\<lambda>s. (IOReturnSuccess, 3, s)),
      uh_pipe_properties = (\<lambda>pipe s. (IOReturnSuccess, sim_pipe pipe, s)),
      uh_create_event_source = (\<lambda>s. (IOReturnSuccess, True, s)),
      uh_control_request = (\<lambda>r s. (IOReturnSuccess, 12, s\<lparr>su_requests := su_requests s @ [r]\<rparr>)),
      uh_read_pipe = (\<lambda>pipe n t s. (IOReturnSuccess, zeroed (unat n), n, s)),
      uh_write_pipe = (\<lambda>pipe data n t s. (IOReturnSuccess, s)),
      uh_read_pipe_async = (\<lambda>pipe a s. (IOReturnSuccess, s\<lparr>su_outstanding := su_outstanding s @ [a]\<rparr>)),
      uh_abort_pipe = (\<lambda>pipe. Pair IOReturnSuccess), uh_clear_pipe_stall = (\<lambda>pipe. Pair IOReturnSuccess),
      uh_release = (\<lambda>s. s), uh_current_run_loop = (\<lambda>_. 0),
      uh_add_source = (\<lambda>_ s. s), uh_remove_source = (\<lambda>_ s. s),
      uh_run_pass = sim_pass, uh_absolute_time = (\<lambda>s. (su_clock s, s)), uh_calloc = Pair True\<rparr>"

lemma sim_fair: "fair_kernel sim_host (\<lambda>s. set (su_outstanding s))"
  by (auto simp: fair_kernel_def sim_host_def sim_pass_def split: list.splits prod.splits)

lemma sim_clock: "running_clock sim_host su_clock 1"
  by (simp add: running_clock_def sim_host_def sim_pass_def split: list.splits prod.splits)

definition sim_usb_start :: "(io_return \<times> bytes \<times> nat) list \<Rightarrow> sim_usb" where
  "sim_usb_start script = \<lparr>su_clock = 0, su_outstanding = [], su_script = script, su_requests = []\<rparr>"

text \<open>The adapter after a successful open.\<close>

definition sim_open :: "(io_return \<times> bytes \<times> nat) list \<Rightarrow> sim_usb mac_context" where
  "sim_open script = (initial_mac_context (sim_usb_start script))
     \<lparr>mc_bulk_in_pipe := 1, mc_bulk_out_pipe := 2, mc_interrupt_in_pipe := 3, mc_event_source := True,
      mc_run_loop := Some 0, mc_open := True\<rparr>"

lemma sim_opens: "mac_open_seize sim_host [] (initial_mac_context (sim_usb_start script)) = (CBI_IO_OK, [], sim_open script)"
  by (simp add: mac_open_seize_def inspect_endpoints_def read_descriptor_def classify_pipe_def sim_host_def
      sim_pipe_def initial_mac_context_def sim_open_def M65_USB_MASS_STORAGE_CLASS_def M65_USB_UFI_SUBCLASS_def
      M65_USB_CBI_PROTOCOL_def upt_rec)

text \<open>One interrupt whose completion is \<open>(result, data, n)\<close>.\<close>

lemma sim_interrupt:
  "mac_interrupt_in_with_deadline sim_host 15000 [] (sim_open [(result, data, n)]) =
     Some (interrupt_arrived sim_host 0 [] ((sim_open [])\<lparr>mc_interrupt_request := Some 0,
        mc_requests := [\<lparr>rq_references = 1, rq_complete = True, rq_result = result, rq_transferred = n,
          rq_buffer = fill_buffer (take 2 data) (zeroed 2)\<rparr>],
        mc_state := (sim_usb_start [])\<lparr>su_clock := 1\<rparr>\<rparr>))"
proof -
  let ?m = "(sim_open [(result, data, n)])\<lparr>mc_interrupt_request := Some 0,
    mc_requests := [\<lparr>rq_references = 2, rq_complete = False, rq_result = IOReturnNotReady, rq_transferred = 0,
      rq_buffer = zeroed 2\<rparr>],
    mc_state := (sim_usb_start [(result, data, n)])\<lparr>su_outstanding := [0]\<rparr>\<rparr>"
  let ?m' = "(sim_open [])\<lparr>mc_interrupt_request := Some 0,
    mc_requests := [\<lparr>rq_references = 1, rq_complete = True, rq_result = result, rq_transferred = n,
      rq_buffer = fill_buffer (take 2 data) (zeroed 2)\<rparr>],
    mc_state := (sim_usb_start [])\<lparr>su_clock := 1\<rparr>\<rparr>"
  have "wait_loop sim_host 15 ?m = wait_loop sim_host 15 ?m'"
    by (subst wait_loop.simps)
      (simp add: interrupt_request_complete_def absolute_time_def run_pass_def sim_host_def sim_pass_def
        interrupt_callback_def interrupt_request_release_def update_request_def sim_open_def
        initial_mac_context_def sim_usb_start_def)
  also have "\<dots> = Some (True, ?m')"
    by (subst wait_loop.simps) (simp add: interrupt_request_complete_def)
  finally show ?thesis
    by (simp add: mac_interrupt_in_with_deadline_def on_transport_run_loop_def sim_open_def initial_mac_context_def
        sim_host_def run_until_interrupt_def absolute_time_def sim_usb_start_def)
qed

end
