(* ===== verification/M65_UsbProps.thy ===== *)
theory M65_UsbProps
  imports M65_UsbSim M65_CbiBasis
begin

text \<open>
  The properties of the USB adapter, alone and below the CBI transport.
\<close>



text \<open>C19 The gate in front of the bus: a command block reaches the device only with no interrupt pending;
  while a reset is armed only the reset does, and a reset only then; and nothing but the reset does while
  synchronisation is lost. Otherwise the adapter answers with a protocol error and changes nothing.\<close>

theorem mac_adsc_gate:
  "case mac_adsc host cdb timeout_ms detail m of (status, detail', m') \<Rightarrow>
     if mc_interrupt_request m = None \<and> mc_reset_armed m = is_command_block_reset cdb \<and>
        (if mc_desynchronized m then is_command_block_reset cdb else True)
     then mc_interrupt_request m' = None \<and> mc_reset_armed m' = mc_reset_armed m
     else status = CBI_IO_PROTOCOL \<and> m' = m"
proof (cases "permits cdb m")
  case True
  with adsc_modes show ?thesis by (fastforce simp: permits_def split: prod.splits)
next
  case False
  with adsc_refused [OF False, of host timeout_ms detail] show ?thesis by (auto simp: permits_def)
qed

text \<open>C17 Lost synchronisation is not forgotten: only finishing an armed reset with the verdict recovered,
  or opening the interface anew, ends it.\<close>

theorem mac_desynchronized_until_recovery:
  assumes "mac_step host action m m'" and "mc_desynchronized m" and "\<not> mc_desynchronized m'"
  shows "action = ActOpen \<or> (action = ActFinish True \<and> mc_reset_armed m \<and> \<not> mc_reset_armed m')"
  by (rule step_desynchronized [OF assms])

theorem mac_desynchronized_until_recovery_witness:
  "\<exists>m m'. mac_step sim_host (ActFinish True) m m' \<and> mc_desynchronized m \<and> \<not> mc_reset_armed m'"
proof -
  let ?m = "(sim_open [])\<lparr>mc_desynchronized := True, mc_reset_armed := True\<rparr>"
  let ?m' = "?m\<lparr>mc_reset_armed := False, mc_desynchronized := False\<rparr>"
  have f: "mac_finish_command_block_reset sim_host True [] ?m = (CBI_IO_OK, [], ?m')"
    by (simp add: mac_finish_command_block_reset_def on_transport_run_loop_def sim_open_def
        initial_mac_context_def sim_host_def)
  have s: "mac_step sim_host (ActFinish True) ?m ?m'" by (rule step_finish [OF f])
  from mac_desynchronized_until_recovery [OF s] s show ?thesis
    by (intro exI [of _ ?m] exI [of _ ?m'] conjI) simp_all
qed



section \<open>Endpoints\<close>

text \<open>What the interface answers about its pipes, asked in order.\<close>

fun pipe_answers :: "'s usb_host \<Rightarrow> u8 list \<Rightarrow> 's \<Rightarrow> (u8 \<times> pipe_properties) list" where
  "pipe_answers host [] s = []"
| "pipe_answers host (pipe # pipes) s =
     (case uh_pipe_properties host pipe s of (result, p, s') \<Rightarrow> (pipe, p) # pipe_answers host pipes s')"

definition fits_pipe :: "'s mac_context \<Rightarrow> u8 \<times> pipe_properties \<Rightarrow> bool" where
  "fits_pipe m a \<longleftrightarrow>
     (case a of (pipe, p) \<Rightarrow>
        (pipe = mc_bulk_in_pipe m \<and> pp_transfer_type p = USBBulk \<and> pp_direction p = USBIn) \<or>
        (pipe = mc_bulk_out_pipe m \<and> pp_transfer_type p = USBBulk \<and> pp_direction p = USBOut) \<or>
        (pipe = mc_interrupt_in_pipe m \<and> pp_transfer_type p = USBInterrupt \<and> pp_direction p = USBIn \<and>
         pp_max_packet_size p = 2))"

definition extends_pipes :: "'s mac_context \<Rightarrow> 's mac_context \<Rightarrow> bool" where
  "extends_pipes m m' \<longleftrightarrow>
     (mc_bulk_in_pipe m \<noteq> 0 \<longrightarrow> mc_bulk_in_pipe m' = mc_bulk_in_pipe m) \<and>
     (mc_bulk_out_pipe m \<noteq> 0 \<longrightarrow> mc_bulk_out_pipe m' = mc_bulk_out_pipe m) \<and>
     (mc_interrupt_in_pipe m \<noteq> 0 \<longrightarrow> mc_interrupt_in_pipe m' = mc_interrupt_in_pipe m)"

lemma classify_fits:
  "classify_pipe pipe p m = Some m' \<Longrightarrow> pipe \<noteq> 0 \<Longrightarrow> extends_pipes m' m'' \<Longrightarrow>
     fits_pipe m'' (pipe, p) \<and> extends_pipes m m''"
  by (auto simp: classify_pipe_def fits_pipe_def extends_pipes_def split: if_splits)

lemma endpoint_loop_fits:
  "endpoint_loop host pipes detail m = (True, detail', m') \<Longrightarrow> 0 \<notin> set pipes \<Longrightarrow>
     list_all (fits_pipe m') (pipe_answers host pipes (mc_state m)) \<and> extends_pipes m m'"
proof (induction pipes arbitrary: m)
  case Nil
  then show ?case by (simp add: extends_pipes_def)
next
  case (Cons pipe pipes)
  obtain r p s where g: "uh_pipe_properties host pipe (mc_state m) = (r, p, s)" using prod_cases3 by blast
  obtain m1 where c: "r = IOReturnSuccess" "classify_pipe pipe p (m\<lparr>mc_state := s\<rparr>) = Some m1"
    "endpoint_loop host pipes detail m1 = (True, detail', m')"
    using Cons.prems(1) g by (auto simp: Let_def split: if_splits option.splits)
  have "mc_state m1 = s" using c(2) by (auto simp: classify_pipe_def split: if_splits)
  with Cons.IH [OF c(3)] Cons.prems(2) g classify_fits [OF c(2), of m']
  show ?case by (auto simp: extends_pipes_def)
qed

text \<open>C23 An interface that passes the inspection has three pipes, one bulk-IN, one bulk-OUT and one
  two-byte interrupt-IN, each what it answered it is; the adapter never writes to another.\<close>

theorem inspected_endpoints_exact:
  "case inspect_endpoints host detail m of (inspected, detail', m') \<Rightarrow>
     if inspected
     then {mc_bulk_in_pipe m', mc_bulk_out_pipe m', mc_interrupt_in_pipe m'} = {1, 2, 3} \<and>
       (\<exists>s. list_all (fits_pipe m') (pipe_answers host [1, 2, 3] s))
     else True"
proof -
  obtain b d m' where i: "inspect_endpoints host detail m = (b, d, m')" using prod_cases3 by blast
  have "{mc_bulk_in_pipe m', mc_bulk_out_pipe m', mc_interrupt_in_pipe m'} = {1, 2, 3} \<and>
       (\<exists>s. list_all (fits_pipe m') (pipe_answers host [1, 2, 3] s))" if b
    using i
  proof (cases rule: inspect_cases)
    case refused
    with that show ?thesis by simp
  next
    case (enumerated m7 d8 m8)
    have f: "list_all (fits_pipe m') (pipe_answers host [1, 2, 3] (mc_state m7))"
      using endpoint_loop_fits [OF enumerated(5)] enumerated(6) by simp
    then have "{1, 2, 3} \<subseteq> {mc_bulk_in_pipe m', mc_bulk_out_pipe m', mc_interrupt_in_pipe m'}"
      by (auto simp: fits_pipe_def split: prod.splits)
    moreover have "card {mc_bulk_in_pipe m', mc_bulk_out_pipe m', mc_interrupt_in_pipe m'} \<le> 3"
      by (simp add: card_insert_if)
    moreover have "card {1, 2, 3 :: u8} = 3" by simp
    ultimately have "{1, 2, 3} = {mc_bulk_in_pipe m', mc_bulk_out_pipe m', mc_interrupt_in_pipe m'}"
      by (intro card_subset_eq) (auto intro: antisym card_mono)
    with f show ?thesis by blast
  qed
  then show ?thesis unfolding i prod.case by simp
qed


section \<open>Below the CBI transport\<close>

lemma finish_reset_recovered:
  assumes "finish_reset ops completed first failure detail ctx = (CBI_IO_OK, detail', ctx')"
  shows "\<exists>d. io_finish_reset ops True [] (cc_io ctx) = (CBI_IO_OK, d, cc_io ctx')"
  using assms by (auto simp: finish_reset_def Let_def split: prod.splits if_splits)

text \<open>C21 The two layers agree on recovery: when the transport says that a pending recovery succeeded, the
  adapter below it is synchronised again and has no reset armed.\<close>

theorem cbi_recovery_synchronizes_adapter:
  "case recover_if_required (mac_cbi_ops host) timeout_ms detail ctx of (status, detail', ctx') \<Rightarrow>
     if cc_recovery_required ctx \<and> status = CBI_IO_OK
     then \<not> cc_recovery_required ctx' \<and> \<not> mc_desynchronized (cc_io ctx') \<and> \<not> mc_reset_armed (cc_io ctx')
     else True"
proof -
  obtain status d ctx' where r: "recover_if_required (mac_cbi_ops host) timeout_ms detail ctx = (status, d, ctx')"
    using prod_cases3 by blast
  have "\<not> cc_recovery_required ctx' \<and> \<not> mc_desynchronized (cc_io ctx') \<and> \<not> mc_reset_armed (cc_io ctx')"
    if p: "cc_recovery_required ctx" and ok: "status = CBI_IO_OK"
  proof -
    obtain completed first failure ctx1 where
      f: "finish_reset (mac_cbi_ops host) completed first failure detail ctx1 = (CBI_IO_OK, d, ctx')"
      using r p ok by (auto simp: recover_if_required_def Let_def split: prod.splits if_splits)
    from finish_reset_recovered [OF f] obtain d' where
      "mac_finish_command_block_reset host True [] (cc_io ctx1) = (CBI_IO_OK, d', cc_io ctx')"
      by (auto simp: mac_cbi_ops_def)
    from finish_modes [OF this] have "\<not> mc_desynchronized (cc_io ctx') \<and> \<not> mc_reset_armed (cc_io ctx')" by simp
    moreover have "\<not> cc_recovery_required ctx'"
      using f by (auto simp: finish_reset_def Let_def split: prod.splits if_splits)
    ultimately show ?thesis by simp
  qed
  then show ?thesis unfolding r prod.case by simp
qed

lemma refused_exchange:
  assumes "io_adsc ops cdb timeout_ms detail (cc_io ctx) = (CBI_IO_PROTOCOL, d, cc_io ctx)"
  shows "\<exists>detail' ctx'. run_exchange ops cdb direction data len timeout_ms detail ctx =
      (CBI_IO_PROTOCOL, zero_exchange, data, detail', ctx') \<and> cc_io ctx' = cc_io ctx \<and> cc_recovery_required ctx'"
  using assms
  by (auto simp: run_exchange_def phase_io_failure_def io_status_loses_phase_def Let_def)

lemma validated_not_reset:
  assumes "m65_validate_command c = Inr ()"
  shows "\<not> is_command_block_reset (pad_cdb (c_cdb c, c_cdb_length c))"
proof
  assume r: "is_command_block_reset (pad_cdb (c_cdb c, c_cdb_length c))"
  have l: "0 < c_cdb_length c" "c_cdb_length c \<le> 12"
    using validate_command_Inr_cases(3) [OF assms] by (auto split: if_splits)
  have "take 12 (pad_cdb (c_cdb c, c_cdb_length c)) ! 0 = 0x1d"
    using r by (simp add: is_command_block_reset_def)
  then have "pad_cdb (c_cdb c, c_cdb_length c) ! 0 = 0x1d" by simp
  then have "c_cdb c ! 0 = 0x1d"
    using l by (auto simp: pad_cdb_def nth_buf_write split: if_splits)
  with validate_command_Inr_cases(1) [OF assms] show False by (simp add: allowlist_def)
qed

lemma desynchronized_execute:
  assumes "mc_desynchronized (cc_io ctx)" and "cc_opened ctx" and "\<not> cc_recovery_required ctx"
    and "m65_validate_command command = Inr ()"
  shows "case cbi_execute (mac_cbi_ops host) command ctx of (result, data, ctx') \<Rightarrow>
    r_transport_status result = TRANSPORT_PROTOCOL \<and> cc_io ctx' = cc_io ctx \<and> cc_recovery_required ctx'"
proof -
  let ?cdb = "pad_cdb (c_cdb command, c_cdb_length command)"
  have np: "\<not> permits ?cdb (cc_io ctx)" using assms(1) validated_not_reset [OF assms(4)] by (simp add: permits_def)
  have a: "\<exists>d. io_adsc (mac_cbi_ops host) ?cdb t detail (cc_io ctx) = (CBI_IO_PROTOCOL, d, cc_io ctx)" for t detail
    using adsc_refused [OF np] by (simp add: mac_cbi_ops_def)
  have x: "\<exists>detail' ctx'. run_exchange (mac_cbi_ops host) ?cdb direction data len t detail ctx =
      (CBI_IO_PROTOCOL, zero_exchange, data, detail', ctx') \<and> cc_io ctx' = cc_io ctx \<and> cc_recovery_required ctx'"
    for direction data len t detail
    using a [of t detail] refused_exchange by blast
  have l: "c_cdb_length command \<le> 12" "c_direction command = DATA_OUT \<Longrightarrow> c_cdb command ! 0 = M65_OPCODE_MODE_SELECT_10"
    using validate_command_Inr_cases(2,3) [OF assms(4)] by (auto split: if_splits)
  have e: "cbi_execute (mac_cbi_ops host) command ctx =
      (if c_cdb command ! 0 = M65_OPCODE_REQUEST_SENSE then execute_request_sense (mac_cbi_ops host) command ?cdb ctx
       else execute_command (mac_cbi_ops host) command ?cdb ctx)"
    using assms(2-4) l by (auto simp: cbi_execute_def recover_if_required_def Let_def)
  obtain d1 c1 where 1: "run_exchange (mac_cbi_ops host) ?cdb DATA_IN (command_data command) (c_data_length command)
      (c_timeout_ms command) [] ctx = (CBI_IO_PROTOCOL, zero_exchange, command_data command, d1, c1)"
    "cc_io c1 = cc_io ctx" "cc_recovery_required c1" using x by blast
  obtain d2 c2 where 2: "run_exchange (mac_cbi_ops host) ?cdb (c_direction command) (command_data command)
      (c_data_length command) (c_timeout_ms command) [] ctx =
      (CBI_IO_PROTOCOL, zero_exchange, command_data command, d2, c2)"
    "cc_io c2 = cc_io ctx" "cc_recovery_required c2" using x by blast
  show ?thesis unfolding e
    by (simp add: execute_request_sense_def execute_command_def Let_def 1 2 map_io_status_def)
qed


definition sim_session :: "sim_usb mac_context cbi_context" where
  "sim_session = \<lparr>cc_io = sim_open [(IOUSBPipeStalled, [], 0)], cc_opened = True, cc_recovery_required = False,
                  cc_recovery_detail = []\<rparr>"


end
