(* ===== verification/M65_Registry.thy ===== *)
theory M65_Registry
  imports M65_Device M65_UsbCbi
begin

text \<open>
  Finding the USB interface behind a BSD name and making its transport (the end of
  \<open>src/usb_cbi_macos.c\<close>).

  The I/O Registry and Core Foundation are parameters: an entry's parent and its properties, which are
  numbers, strings, Booleans or dictionaries. The keys are named after the constants of the code. The
  walk up to the root does not return in a registry with a cycle, so it has the value None there.
  Reference counts of registry objects are not modelled.
\<close>

section \<open>The registry\<close>

datatype cf_value = CFNumber int | CFString string | CFBoolean bool | CFDictionary "(cf_value \<times> cf_value) list" | CFOther

datatype registry_key =
    USBInterfaceClass | USBInterfaceSubClass | USBInterfaceProtocol | USBVendorID | USBProductID
  | USBVendorString | USBProductString | IOPropertyProductName | BcdDevice | IOCFPlugInTypes
  | BSDName | PeripheralDeviceType

record 'e registry =
  rg_bsd_matching :: "string \<Rightarrow> bool"
  rg_bsd_service :: "string \<Rightarrow> 'e option"
  rg_parent :: "'e \<Rightarrow> 'e option"
  rg_property :: "'e \<Rightarrow> registry_key \<Rightarrow> cf_value option"
  rg_search_property :: "'e \<Rightarrow> registry_key \<Rightarrow> cf_value option"
  rg_same_text :: "string \<Rightarrow> string \<Rightarrow> bool"
  rg_usb_interface_type :: "string option"
  rg_scsi_task_type :: "string option"

text \<open>\<open>CFNumberGetValue\<close> succeeds where the number fits the type.\<close>

definition cf_number :: "nat \<Rightarrow> cf_value option \<Rightarrow> int option" where
  "cf_number bits value =
     (case value of
        Some (CFNumber n) \<Rightarrow> if - (2 ^ (bits - 1)) \<le> n \<and> n < 2 ^ (bits - 1) then Some n else None
      | _ \<Rightarrow> None)"

definition cf_number_u16 :: "'e registry \<Rightarrow> 'e \<Rightarrow> registry_key \<Rightarrow> u16 option" where
  "cf_number_u16 reg entry key =
     (case cf_number 32 (rg_property reg entry key) of
        None \<Rightarrow> None
      | Some number \<Rightarrow> if number \<ge> 0 \<and> number \<le> 65535 then Some (word_of_int number) else None)"

definition find_plugin_type :: "'e registry \<Rightarrow> string \<Rightarrow> cf_value \<times> cf_value \<Rightarrow> bool \<Rightarrow> bool" where
  "find_plugin_type reg expected entry found =
     (if \<not> found then
        (case fst entry of
           CFString key \<Rightarrow> rg_same_text reg key expected
         | _ \<Rightarrow> False)
      else found)"

definition exposes_usb_interface_plugin :: "'e registry \<Rightarrow> 'e \<Rightarrow> bool" where
  "exposes_usb_interface_plugin reg service =
     (case rg_property reg service IOCFPlugInTypes of
        Some (CFDictionary entries) \<Rightarrow>
          (case rg_usb_interface_type reg of
             None \<Rightarrow> False
           | Some type_string \<Rightarrow> fold (find_plugin_type reg type_string) entries False)
      | _ \<Rightarrow> False)"

definition is_known_ufi_cbi_interface :: "'e registry \<Rightarrow> 'e \<Rightarrow> bool" where
  "is_known_ufi_cbi_interface reg service \<longleftrightarrow>
     cf_number_u16 reg service USBInterfaceClass = Some (ucast M65_USB_MASS_STORAGE_CLASS) \<and>
     cf_number_u16 reg service USBInterfaceSubClass = Some (ucast M65_USB_UFI_SUBCLASS) \<and>
     cf_number_u16 reg service USBInterfaceProtocol = Some (ucast M65_USB_CBI_PROTOCOL) \<and>
     cf_number_u16 reg service USBVendorID = Some M65_USB_TEAC_VID \<and>
     cf_number_u16 reg service USBProductID = Some M65_USB_TEAC_PID \<and>
     exposes_usb_interface_plugin reg service"

definition normalize_name :: "string option \<Rightarrow> string option" where
  "normalize_name bsd_name =
     (case bsd_name of
        None \<Rightarrow> None
      | Some name \<Rightarrow>
          let name = (if has_prefix name ''/dev/'' then drop 5 name else name)
          in Some (if has_prefix name ''rdisk'' then drop 1 name else name))"

text \<open>The walk towards the root, over the entries that are not the interface.\<close>

partial_function (option) walk_to_interface :: "'e registry \<Rightarrow> 'e option \<Rightarrow> 'e option option" where
  "walk_to_interface reg current =
     (case current of
        None \<Rightarrow> Some None
      | Some entry \<Rightarrow>
          if is_known_ufi_cbi_interface reg entry then Some (Some entry)
          else walk_to_interface reg (rg_parent reg entry))"

declare walk_to_interface.simps [code]

definition copy_usb_interface_for_bsd_name :: "'e registry \<Rightarrow> string \<Rightarrow> 'e option option" where
  "copy_usb_interface_for_bsd_name reg bsd_name =
     (if \<not> rg_bsd_matching reg bsd_name then Some None
      else walk_to_interface reg (rg_bsd_service reg bsd_name))"

section \<open>Making the transport\<close>

text \<open>The plug-in calls: a result and whether a plug-in or an interface was returned, and the outcomes of
  the allocations of the adapter, its context, the transport and its context.\<close>

record 'e plugin_host =
  ph_create_plugin :: "'e \<Rightarrow> io_return \<times> bool"
  ph_query_interface :: "'e \<Rightarrow> u32 \<times> bool"
  ph_io_allocated :: bool
  ph_context_allocated :: bool
  ph_transport_allocated :: bool
  ph_engine_allocated :: bool

definition S_OK :: u32 where "S_OK = 0"

type_synonym 's created =
  "transport_status \<times> string \<times> ('s mac_context cbi_context transport_ops \<times> 's mac_context cbi_context) option"

definition create_for_interface ::
    "'s usb_host \<Rightarrow> 'e plugin_host \<Rightarrow> 'e \<Rightarrow> string \<Rightarrow> 's \<Rightarrow> 's created" where
  "create_for_interface host plug service detail s =
     (let (create_result, has_plugin) = ph_create_plugin plug service
      in if create_result \<noteq> IOReturnSuccess \<or> \<not> has_plugin then
           (if create_result = IOReturnSuccess then TRANSPORT_IO
            else transport_status_for_cbi (map_io_return create_result),
            if create_result = IOReturnSuccess
            then set_detail ''documented IOUSBLib plug-in creation returned NULL''
            else describe_io_return host ''create documented IOUSBLib interface plug-in'' create_result, None)
         else
           let (query_result, has_interface) = ph_query_interface plug service
           in if query_result \<noteq> S_OK \<or> \<not> has_interface then
                (TRANSPORT_IO,
                 error_text (''query documented IOUSBInterfaceInterface190 failed with HRESULT 0x'' @
                   hex_digits 8 (unat query_result)), None)
              else if \<not> ph_io_allocated plug \<or> \<not> ph_context_allocated plug then
                (TRANSPORT_IO, set_detail ''out of memory creating USB CBI transport'', None)
              else
                (case m65_cbi_transport_create True (ph_transport_allocated plug) (ph_engine_allocated plug)
                        (mac_cbi_ops host) (initial_mac_context s) of
                   None \<Rightarrow> (TRANSPORT_IO, set_detail ''unable to create USB CBI command engine'', None)
                 | Some transport \<Rightarrow> (TRANSPORT_OK, detail, Some transport)))"

definition m65_usb_cbi_transport_create ::
    "'s usb_host \<Rightarrow> 'e registry \<Rightarrow> 'e plugin_host \<Rightarrow> string option \<Rightarrow> string \<Rightarrow> 's \<Rightarrow> 's created option" where
  "m65_usb_cbi_transport_create host reg plug bsd_name detail s =
     (case normalize_name bsd_name of
        None \<Rightarrow> Some (TRANSPORT_IO, set_detail ''missing BSD device name'', None)
      | Some name \<Rightarrow>
          if name = [] then Some (TRANSPORT_IO, set_detail ''missing BSD device name'', None)
          else map_option
            (\<lambda>service. case service of
               None \<Rightarrow> (TRANSPORT_NO_DEVICE,
                 set_detail ''selected media has no matching TEAC USB UFI/CBI interface in its ancestry'', None)
             | Some entry \<Rightarrow> create_for_interface host plug entry detail s)
            (copy_usb_interface_for_bsd_name reg name))"

end
