(* ===== verification/M65_Scsi.thy ===== *)
theory M65_Scsi
  imports M65_Registry
begin

text \<open>
  The transport over \<open>SCSITaskLib\<close> (\<open>src/scsi_macos.c\<close>). The task interface is a parameter, a record of
  the calls the code makes on it; executing a task returns the sense buffer as the call left it, the
  task status, the realized count and the bytes it stored.
\<close>

section \<open>The transport's operations\<close>

datatype scsi_direction = NoDataTransfer | FromTargetToInitiator | FromInitiatorToTarget

record 's scsi_host =
  sh_number :: "io_return \<Rightarrow> u32"
  sh_obtain_access :: "'s \<Rightarrow> io_return \<times> 's"
  sh_release_access :: "'s \<Rightarrow> io_return \<times> 's"
  sh_create_task :: "'s \<Rightarrow> bool \<times> 's"
  sh_set_cdb :: "bytes \<Rightarrow> u8 \<Rightarrow> 's \<Rightarrow> io_return \<times> 's"
  sh_set_entries :: "bytes option \<Rightarrow> nat \<Rightarrow> scsi_direction \<Rightarrow> 's \<Rightarrow> io_return \<times> 's"
  sh_set_timeout :: "u32 \<Rightarrow> 's \<Rightarrow> io_return \<times> 's"
  sh_execute_task :: "'s \<Rightarrow> io_return \<times> bytes \<times> u32 \<times> 64 word \<times> bytes \<times> 's"
  sh_release_task :: "'s \<Rightarrow> 's"
  sh_release_device :: "'s \<Rightarrow> 's"

record 's scsi_context =
  sc_device :: 's
  sc_exclusive :: bool

definition scsi_map_io_return :: "io_return \<Rightarrow> transport_status" where
  "scsi_map_io_return result =
     (if result = IOReturnSuccess then TRANSPORT_OK
      else if result = IOReturnNotPrivileged \<or> result = IOReturnNotPermitted then TRANSPORT_PERMISSION
      else if result = IOReturnNoDevice \<or> result = IOReturnOffline then TRANSPORT_NO_DEVICE
      else if result = IOReturnTimeout then TRANSPORT_TIMEOUT
      else TRANSPORT_IO)"

definition scsi_describe_io_return :: "'s scsi_host \<Rightarrow> string \<Rightarrow> io_return \<Rightarrow> string" where
  "scsi_describe_io_return host operation result =
     error_text (operation @ '' failed with IOReturn 0x'' @ hex_digits 8 (unat (sh_number host result)))"

definition scsi_acquire ::
    "'s scsi_host \<Rightarrow> string \<Rightarrow> 's scsi_context \<Rightarrow> transport_status \<times> string \<times> 's scsi_context" where
  "scsi_acquire host detail c =
     (if sc_exclusive c then (TRANSPORT_OK, detail, c)
      else
        let (result, s) = sh_obtain_access host (sc_device c);
            c = c\<lparr>sc_device := s\<rparr>
        in if result = IOReturnSuccess then (TRANSPORT_OK, detail, c\<lparr>sc_exclusive := True\<rparr>)
           else (scsi_map_io_return result,
                 if scsi_map_io_return result = TRANSPORT_PERMISSION
                 then error_text (''permission denied obtaining exclusive SCSI access; '' @
                        ''rerun manually with sudo if you trust this diagnostic'')
                 else scsi_describe_io_return host ''ObtainExclusiveAccess'' result, c))"

definition scsi_release ::
    "'s scsi_host \<Rightarrow> string \<Rightarrow> 's scsi_context \<Rightarrow> transport_status \<times> string \<times> 's scsi_context" where
  "scsi_release host detail c =
     (if \<not> sc_exclusive c then (TRANSPORT_OK, detail, c)
      else
        let (result, s) = sh_release_access host (sc_device c);
            c = c\<lparr>sc_device := s\<rparr>
        in if result = IOReturnSuccess then (TRANSPORT_OK, detail, c\<lparr>sc_exclusive := False\<rparr>)
           else (scsi_map_io_return result,
                 scsi_describe_io_return host ''ReleaseExclusiveAccess'' result, c))"

fun transfer_direction :: "data_direction \<Rightarrow> scsi_direction" where
  "transfer_direction DATA_NONE = NoDataTransfer"
| "transfer_direction DATA_IN = FromTargetToInitiator"
| "transfer_direction DATA_OUT = FromInitiatorToTarget"

text \<open>The task after its set-up: what the execution reported.\<close>

definition task_result ::
    "'s scsi_host \<Rightarrow> m65_command \<Rightarrow> 's \<Rightarrow> command_result \<times> bytes \<times> 's" where
  "task_result host command s =
     (let (io_result, sense, task_status, realized, new, s) = sh_execute_task host s;
          result = zero_result\<lparr>r_transport_status := scsi_map_io_return io_result,
                               r_scsi_status := ucast task_status\<rparr>;
          result = (if realized \<le> 0xffffffffffffffff then result\<lparr>r_transferred := unat realized\<rparr>
                    else result\<lparr>r_transport_status := TRANSPORT_PROTOCOL,
                                r_detail := error_text ''realized transfer count exceeds size_t''\<rparr>);
          result = result\<lparr>r_sense :=
            (case m65_parse_sense (Some sense) (length sense) (r_sense result) of
               Inl out \<Rightarrow> out | Inr out \<Rightarrow> out)\<rparr>
      in (if io_result \<noteq> IOReturnSuccess
          then result\<lparr>r_detail := scsi_describe_io_return host ''ExecuteTaskSync'' io_result\<rparr> else result,
          fill_buffer new (command_data command), s))"

text \<open>The set-up, each step up to the jump to the clean-up.\<close>

definition run_task ::
    "'s scsi_host \<Rightarrow> m65_command \<Rightarrow> 's \<Rightarrow> command_result \<times> bytes \<times> 's" where
  "run_task host command s =
     (let failed = (\<lambda>operation io_result s.
            (zero_result\<lparr>r_transport_status := scsi_map_io_return io_result,
                         r_detail := scsi_describe_io_return host operation io_result\<rparr>,
             command_data command, s));
          (io_result, s) =
            sh_set_cdb host (take (c_cdb_length command) (c_cdb command)) (of_nat (c_cdb_length command)) s
      in if io_result \<noteq> IOReturnSuccess then failed ''set CDB'' io_result s
         else
           let (io_result, s) =
                 (if c_direction command = DATA_NONE
                  then sh_set_entries host None 0 NoDataTransfer s
                  else sh_set_entries host (c_data command) (c_data_length command)
                         (transfer_direction (c_direction command)) s)
           in if io_result \<noteq> IOReturnSuccess then failed ''set scatter/gather data'' io_result s
              else
                let (io_result, s) = sh_set_timeout host (c_timeout_ms command) s
                in if io_result \<noteq> IOReturnSuccess then failed ''set timeout'' io_result s
                   else task_result host command s)"

definition scsi_execute ::
    "'s scsi_host \<Rightarrow> m65_command \<Rightarrow> 's scsi_context \<Rightarrow> command_result \<times> bytes \<times> 's scsi_context" where
  "scsi_execute host command c =
     (let rejected = (\<lambda>status text c.
            (zero_result\<lparr>r_transport_status := status, r_detail := error_text text\<rparr>, command_data command, c))
      in if \<not> sc_exclusive c then
           rejected TRANSPORT_PROTOCOL ''SCSI command attempted without exclusive access'' c
         else
           (case m65_validate_command command of
              Inl validation_detail \<Rightarrow>
                rejected TRANSPORT_PROTOCOL
                  (if validation_detail \<noteq> [] then error_text validation_detail
                   else ''command failed diagnostic allowlist validation'') c
            | Inr _ \<Rightarrow>
                let (created, s) = sh_create_task host (sc_device c);
                    c = c\<lparr>sc_device := s\<rparr>
                in if \<not> created then rejected TRANSPORT_IO ''CreateSCSITask returned NULL'' c
                   else
                     let (result, data, s) = run_task host command (sc_device c)
                     in (result, data, c\<lparr>sc_device := sh_release_task host s\<rparr>)))"

definition scsi_destroy :: "'s scsi_host \<Rightarrow> 's scsi_context \<Rightarrow> 's scsi_context" where
  "scsi_destroy host c =
     (let c = (if sc_exclusive c
               then c\<lparr>sc_device := snd (sh_release_access host (sc_device c)), sc_exclusive := False\<rparr> else c)
      in c\<lparr>sc_device := sh_release_device host (sc_device c)\<rparr>)"

definition scsi_ops :: "'s scsi_host \<Rightarrow> 's scsi_context transport_ops" where
  "scsi_ops host = \<lparr>acquire_exclusive = scsi_acquire host, execute = scsi_execute host,
                    release_exclusive = scsi_release host\<rparr>"

section \<open>Finding the task interface\<close>

definition is_direct_access_scsi_service :: "'e registry \<Rightarrow> 'e \<Rightarrow> bool" where
  "is_direct_access_scsi_service reg service \<longleftrightarrow>
     cf_number 32 (rg_property reg service PeripheralDeviceType) = Some 0"

definition exposes_scsi_task_plugin :: "'e registry \<Rightarrow> 'e \<Rightarrow> bool" where
  "exposes_scsi_task_plugin reg service =
     (case rg_property reg service IOCFPlugInTypes of
        Some (CFDictionary entries) \<Rightarrow>
          (case rg_scsi_task_type reg of
             None \<Rightarrow> False
           | Some type_string \<Rightarrow> list_ex (\<lambda>(key, value). key = CFString type_string) entries)
      | _ \<Rightarrow> False)"

record task_search =
  ts_last_result :: io_return
  ts_saw_direct_access :: bool
  ts_saw_task_plugin :: bool

text \<open>One entry of the walk: whether it gave an interface, and what was seen.\<close>

definition try_entry :: "'e registry \<Rightarrow> 'e plugin_host \<Rightarrow> 'e \<Rightarrow> task_search \<Rightarrow> bool \<times> task_search" where
  "try_entry reg plug entry search =
     (let search = (if is_direct_access_scsi_service reg entry
                    then search\<lparr>ts_saw_direct_access := True\<rparr> else search)
      in if exposes_scsi_task_plugin reg entry then
           let (create_result, has_plugin) = ph_create_plugin plug entry;
               search = search\<lparr>ts_saw_task_plugin := True, ts_last_result := create_result\<rparr>
           in if create_result = IOReturnSuccess \<and> has_plugin then
                let (query_result, has_interface) = ph_query_interface plug entry
                in (query_result = S_OK \<and> has_interface, search)
              else (False, search)
         else (False, search))"

partial_function (option) copy_task_interface ::
    "'e registry \<Rightarrow> 'e plugin_host \<Rightarrow> 'e option \<Rightarrow> task_search \<Rightarrow> (bool \<times> task_search) option" where
  "copy_task_interface reg plug current search =
     (case current of
        None \<Rightarrow> Some (False, search)
      | Some entry \<Rightarrow>
          if fst (try_entry reg plug entry search) then Some (try_entry reg plug entry search)
          else copy_task_interface reg plug (rg_parent reg entry) (snd (try_entry reg plug entry search)))"

declare copy_task_interface.simps [code]

type_synonym 's scsi_created =
  "transport_status \<times> string \<times> ('s scsi_context transport_ops \<times> 's scsi_context) option"

definition create_scsi_transport ::
    "'s scsi_host \<Rightarrow> 'e plugin_host \<Rightarrow> string \<Rightarrow> string \<Rightarrow> 's \<Rightarrow> bool \<times> task_search \<Rightarrow> 's scsi_created" where
  "create_scsi_transport host plug name detail s found =
     (case found of (has_interface, search) \<Rightarrow>
        if \<not> has_interface then
          let mapped = scsi_map_io_return (ts_last_result search)
          in (if mapped = TRANSPORT_OK then TRANSPORT_IO else mapped,
              if ts_saw_direct_access search \<and> \<not> ts_saw_task_plugin search
              then error_text (''macOS does not publish an SCSITaskDeviceInterface for direct-access '' @
                     ''device '' @ name @ '' while its in-kernel block-storage driver is attached'')
              else error_text (''no documented SCSITaskDeviceInterface is available for '' @ name @
                     '' (IOReturn 0x'' @ hex_digits 8 (unat (sh_number host (ts_last_result search))) @ '')''),
              None)
        else if \<not> ph_transport_allocated plug \<or> \<not> ph_context_allocated plug
        then (TRANSPORT_IO, detail, None)
        else (TRANSPORT_OK, detail, Some (scsi_ops host, \<lparr>sc_device = s, sc_exclusive = False\<rparr>)))"

definition m65_scsi_transport_create ::
    "'s scsi_host \<Rightarrow> 'e registry \<Rightarrow> 'e plugin_host \<Rightarrow> string option \<Rightarrow> string \<Rightarrow> 's \<Rightarrow> 's scsi_created option" where
  "m65_scsi_transport_create host reg plug bsd_name detail s =
     (case normalize_name bsd_name of
        None \<Rightarrow> Some (TRANSPORT_IO, error_text ''missing BSD device name'', None)
      | Some name \<Rightarrow>
          if name = [] then Some (TRANSPORT_IO, error_text ''missing BSD device name'', None)
          else if \<not> rg_bsd_matching reg name then Some (TRANSPORT_IO, detail, None)
          else
            (case rg_bsd_service reg name of
               None \<Rightarrow> Some (TRANSPORT_NO_DEVICE,
                 error_text (''BSD device '' @ name @ '' disappeared before SCSI transport setup''), None)
             | Some media \<Rightarrow>
                 map_option (create_scsi_transport host plug name detail s)
                   (copy_task_interface reg plug (Some media)
                     \<lparr>ts_last_result = IOReturnUnsupported, ts_saw_direct_access = False,
                      ts_saw_task_plugin = False\<rparr>)))"

section \<open>What it lets through\<close>

lemma run_task_length: "run_task host command s = (r, data, s') \<Longrightarrow> length data = length (command_data command)"
  by (auto simp: run_task_def task_result_def Let_def split: prod.splits if_splits)

text \<open>C26 The SCSI transport lets through what the CBI transport does: without exclusive access, or where
  the command fails validation, no task is made and nothing changes; otherwise access is kept and the
  caller's buffer keeps its size.\<close>

theorem scsi_execute_gate:
  "case scsi_execute host command c of (result, data, c') \<Rightarrow>
     if sc_exclusive c \<and> m65_validate_command command = Inr ()
     then sc_exclusive c' \<and> length data = length (command_data command)
     else r_transport_status result = TRANSPORT_PROTOCOL \<and> c' = c \<and> data = command_data command"
  by (auto simp: scsi_execute_def Let_def dest: run_task_length split: prod.splits sum.splits)

end
