(* ===== verification/M65_Careful.thy ===== *)
theory M65_Careful
  imports M65_CbiProps
begin

text \<open>
  What a session keeps of the outside, over an adapter that keeps it as long as only allowed blocks and
  allowed data are sent: the interface between the transport and its adapter, as a locale, and that
  between a session and its transport.
\<close>

section \<open>Adapters\<close>

locale careful_io =
  fixes io :: "'s cbi_io" and fine :: "'s \<Rightarrow> bool"
  assumes open_fine: "io_open_seize io d s = (st, d', s') \<Longrightarrow> fine s \<Longrightarrow> fine s'"
    and close_fine: "io_close io d s = (st, d', s') \<Longrightarrow> fine s \<Longrightarrow> fine s'"
    and adsc_fine: "io_adsc io cdb t d s = (st, d', s') \<Longrightarrow> fine s \<Longrightarrow> allowed_block cdb \<Longrightarrow> fine s'"
    and bulk_in_fine: "io_bulk_in io n t d s = (st, b, k, d', s') \<Longrightarrow> fine s \<Longrightarrow> fine s'"
    and bulk_out_fine: "io_bulk_out io b n t d s = (st, k, d', s') \<Longrightarrow> fine s \<Longrightarrow> allowed_data b \<Longrightarrow> fine s'"
    and interrupt_fine: "io_interrupt_in io t d s = (st, b, k, d', s') \<Longrightarrow> fine s \<Longrightarrow> fine s'"
    and clear_fine: "io_clear_stall io dir d s = (st, d', s') \<Longrightarrow> fine s \<Longrightarrow> fine s'"
    and prepare_fine: "io_prepare_reset io d s = (st, d', s') \<Longrightarrow> fine s \<Longrightarrow> fine s'"
    and finish_fine: "io_finish_reset io r d s = (st, d', s') \<Longrightarrow> fine s \<Longrightarrow> fine s'"
    and destroy_fine: "fine s \<Longrightarrow> fine (io_destroy io s)"
begin

lemma require_io [simp]: "cc_io (require_recovery d f ctx) = cc_io ctx"
  by (simp add: require_recovery_def)

lemma failure_io: "phase_io_failure st op d ctx = (st', d', ctx') \<Longrightarrow> cc_io ctx' = cc_io ctx"
  by (auto simp: phase_io_failure_def Let_def split: if_splits)

lemma completion_fine:
  "completion_phase io t ex data d ctx = (st, ex', data', d', ctx') \<Longrightarrow> fine (cc_io ctx) \<Longrightarrow> fine (cc_io ctx')"
  by (auto simp: completion_phase_def Let_def dest!: failure_io interrupt_fine split: prod.splits if_splits)

lemma transfer_fine:
  "bulk_transfer io dir data n t d ctx = (st, data', k, d', ctx') \<Longrightarrow> fine (cc_io ctx) \<Longrightarrow>
     (dir = DATA_OUT \<Longrightarrow> allowed_data data) \<Longrightarrow> fine (cc_io ctx')"
  by (cases dir) (auto simp: bulk_transfer_def Let_def dest: bulk_in_fine bulk_out_fine split: prod.splits)

lemma exchange_fine:
  assumes x: "run_exchange io cdb dir data n t d ctx = (st, ex, data', d', ctx')" and f: "fine (cc_io ctx)"
    and c: "allowed_block cdb" and o: "dir = DATA_OUT \<Longrightarrow> allowed_data data"
  shows "fine (cc_io ctx')"
proof -
  obtain s1 d1 i1 where a: "io_adsc io cdb t d (cc_io ctx) = (s1, d1, i1)" using prod_cases3 by blast
  have 1: "fine i1" by (rule adsc_fine [OF a f c])
  obtain s2 b2 k2 d2 c2 where b: "bulk_transfer io dir data n t d1 (ctx\<lparr>cc_io := i1\<rparr>) = (s2, b2, k2, d2, c2)"
    using prod_cases5 by blast
  have 2: "fine (cc_io c2)" using transfer_fine [OF b _ o] 1 by simp
  obtain s3 d3 i3 where e: "io_clear_stall io dir d2 (cc_io c2) = (s3, d3, i3)" using prod_cases3 by blast
  have 3: "fine i3" by (rule clear_fine [OF e 2])
  show ?thesis
    using x 1 2 3 unfolding run_exchange_def Let_def a prod.case b e
    by (auto split: if_splits prod.splits dest!: failure_io completion_fine)
qed

lemma clear_after_fine:
  "clear_after_reset io first failure ctx = (st, f, ctx') \<Longrightarrow> fine (cc_io ctx) \<Longrightarrow> fine (cc_io ctx')"
  by (auto simp: clear_after_reset_def Let_def dest!: clear_fine split: prod.splits)

lemma finish_reset_fine:
  "finish_reset io completed first failure d ctx = (st, d', ctx') \<Longrightarrow> fine (cc_io ctx) \<Longrightarrow> fine (cc_io ctx')"
  by (auto simp: finish_reset_def Let_def dest!: finish_fine split: prod.splits if_splits)

lemma recover_fine:
  assumes x: "recover_if_required io t d ctx = (st, d', ctx')" and f: "fine (cc_io ctx)"
  shows "fine (cc_io ctx')"
proof (cases "cc_recovery_required ctx")
  case False
  with x f show ?thesis by (simp add: recover_if_required_def)
next
  case True
  obtain s1 d1 i1 where p: "io_prepare_reset io [] (cc_io ctx) = (s1, d1, i1)" using prod_cases3 by blast
  have 1: "fine i1" by (rule prepare_fine [OF p f])
  obtain s2 e2 b2 d2 c2 where e: "run_exchange io reset_cdb DATA_NONE [] 0 t d1 (ctx\<lparr>cc_io := i1\<rparr>) = (s2, e2, b2, d2, c2)"
    using prod_cases5 by blast
  have 2: "fine (cc_io c2)" using exchange_fine [OF e _ reset_cdb_allowed] 1 by simp
  show ?thesis
    using x True 1 2 unfolding recover_if_required_def Let_def p prod.case e
    by (auto split: if_splits prod.splits dest!: clear_after_fine finish_reset_fine)
qed

lemma fetch_fine:
  assumes x: "fetch_sense io t sense d ctx = (st, sense', d', ctx')" and f: "fine (cc_io ctx)"
  shows "fine (cc_io ctx')"
proof -
  have "allowed_block request_sense_block"
    by (simp add: request_sense_block_eq allowed_block_def allowlist_def)
  then show ?thesis
    using x f unfolding fetch_sense_def Let_def request_sense_block_def [symmetric]
    by (auto simp: sense_failure_def Let_def dest!: exchange_fine split: prod.splits if_splits sum.splits)
qed

lemma outcome_io: "command_outcome c ex r ctx = (r', ctx') \<Longrightarrow> cc_io ctx' = cc_io ctx"
  by (auto simp: command_outcome_def Let_def split: if_splits)

lemma request_sense_fine:
  "execute_request_sense io c padded ctx = (r, b, ctx') \<Longrightarrow> fine (cc_io ctx) \<Longrightarrow> allowed_block padded \<Longrightarrow> fine (cc_io ctx')"
  by (auto simp: execute_request_sense_def Let_def dest!: exchange_fine split: prod.splits if_splits sum.splits)

lemma command_fine:
  assumes x: "execute_command io c padded ctx = (r, b, ctx')" and f: "fine (cc_io ctx)"
    and p: "allowed_block padded" "c_direction c = DATA_OUT \<Longrightarrow> allowed_data (command_data c)"
  shows "fine (cc_io ctx')"
proof -
  obtain s1 e1 b1 d1 c1 where e: "run_exchange io padded (c_direction c) (command_data c) (c_data_length c)
      (c_timeout_ms c) [] ctx = (s1, e1, b1, d1, c1)" using prod_cases5 by blast
  have 1: "fine (cc_io c1)" by (rule exchange_fine [OF e f p])
  show ?thesis
    using x 1 unfolding execute_command_def Let_def e prod.case
    by (auto split: if_splits prod.splits dest!: fetch_fine outcome_io)
qed

lemma execute_fine:
  assumes x: "cbi_execute io c ctx = (r, b, ctx')" and f: "fine (cc_io ctx)"
  shows "fine (cc_io ctx')"
proof (cases "cc_opened ctx \<and> m65_validate_command c = Inr ()")
  case False
  with x f show ?thesis by (auto simp: cbi_execute_def refused_def split: if_splits sum.splits)
next
  case True
  let ?p = "pad_cdb (c_cdb c, c_cdb_length c)"
  have p: "allowed_block ?p" using command_block_allowed(1) True by (simp add: command_block_def)
  have o: "allowed_data (command_data c)" if "c_direction c = DATA_OUT"
    using planned_allowed(2) [of c] that True by (simp add: planned_data_def)
  obtain s1 d1 c1 where v: "recover_if_required io (c_timeout_ms c) [] ctx = (s1, d1, c1)" using prod_cases3 by blast
  have 1: "fine (cc_io c1)" by (rule recover_fine [OF v f])
  show ?thesis
    using x True f 1 p o request_sense_fine [OF _ 1 p] command_fine [OF _ 1 p o]
    unfolding cbi_execute_def Let_def v prod.case by (auto simp: refused_def split: if_splits)
qed

lemma acquire_fine: "cbi_acquire io d ctx = (st, d', ctx') \<Longrightarrow> fine (cc_io ctx) \<Longrightarrow> fine (cc_io ctx')"
  by (auto simp: cbi_acquire_def Let_def dest!: open_fine split: prod.splits if_splits)

lemma release_fine: "cbi_release io d ctx = (st, d', ctx') \<Longrightarrow> fine (cc_io ctx) \<Longrightarrow> fine (cc_io ctx')"
  by (auto simp: cbi_release_def Let_def dest!: close_fine split: prod.splits if_splits)

lemma end_fine: "fine (cc_io ctx) \<Longrightarrow> fine (cbi_destroy io ctx)"
  by (cases "io_close io [] (cc_io ctx)") (auto simp: cbi_destroy_def intro: destroy_fine dest: close_fine)

end

section \<open>Sessions\<close>

text \<open>A session over such an adapter, on a host whose signals and allocations keep it as well.\<close>

locale careful_session = careful_io io fine
  for io :: "'s cbi_io" and fine :: "'s \<Rightarrow> bool" +
  fixes host :: "'s cbi_context host"
  assumes signals_fine: "h_signals host c = (b, c') \<Longrightarrow> cc_opened c' = cc_opened c \<and> (fine (cc_io c) \<longrightarrow> fine (cc_io c'))"
    and malloc_fine: "h_malloc host n c = (x, c') \<Longrightarrow> cc_opened c' = cc_opened c \<and> (fine (cc_io c) \<longrightarrow> fine (cc_io c'))"

sublocale careful_session \<subseteq> probe_client "cbi_ops io" cc_opened "\<lambda>c. fine (cc_io c)" host
proof unfold_locales
  show "\<And>d s st d' s'. acquire_exclusive (cbi_ops io) d s = (st, d', s') \<Longrightarrow> fine (cc_io s) \<Longrightarrow> fine (cc_io s')"
    by (auto simp: cbi_ops_def dest: acquire_fine)
  show "\<And>d s st d' s'. release_exclusive (cbi_ops io) d s = (st, d', s') \<Longrightarrow> fine (cc_io s) \<Longrightarrow> fine (cc_io s')"
    by (auto simp: cbi_ops_def dest: release_fine)
  show "\<And>c s r b s'. execute (cbi_ops io) c s = (r, b, s') \<Longrightarrow> fine (cc_io s) \<Longrightarrow> fine (cc_io s')"
    by (auto simp: cbi_ops_def dest: execute_fine)
qed (auto dest: signals_fine malloc_fine cbi.acquire_ok cbi.acquire_fails
    cbi.release_ok cbi.execute_acquired cbi.execute_refused cbi.execute_exact)

end
