(* ===== verification/M65_Bus.thy ===== *)
theory M65_Bus
  imports M65_Careful M65_UsbModes
begin

text \<open>
  The USB adapter over a bus that records what is sent: whatever the bus answers, the adapter sends a
  command block only as a class request of its own and data only to the bulk-OUT pipe.
\<close>

section \<open>What a bus keeps\<close>

text \<open>The shape of the only control request the adapter makes (ADSC).\<close>

definition adsc_request_for :: "usb_request \<Rightarrow> bool" where
  "adsc_request_for r \<longleftrightarrow> ur_request_type r = 0x21 \<and> ur_request r = 0 \<and> ur_value r = 0 \<and> ur_length r = 12 \<and>
     allowed_block (ur_data r)"

text \<open>The calls of the bus other than a write to a pipe: what they keep is kept by every operation of the
  adapter but the bulk-OUT transfer.\<close>

locale quiet_bus =
  fixes host :: "'s usb_host" and fine :: "'s \<Rightarrow> bool"
  assumes control_fine: "fine s \<Longrightarrow> adsc_request_for r \<Longrightarrow> fine (snd (snd (uh_control_request host r s)))"
    and open_bus: "fine s \<Longrightarrow> fine (snd (uh_open_seize host s))"
    and close_bus: "fine s \<Longrightarrow> fine (snd (uh_close host s))"
    and class_bus: "fine s \<Longrightarrow> fine (snd (snd (uh_interface_class host s)))"
    and subclass_bus: "fine s \<Longrightarrow> fine (snd (snd (uh_interface_subclass host s)))"
    and protocol_bus: "fine s \<Longrightarrow> fine (snd (snd (uh_interface_protocol host s)))"
    and number_bus: "fine s \<Longrightarrow> fine (snd (snd (uh_interface_number host s)))"
    and endpoints_bus: "fine s \<Longrightarrow> fine (snd (snd (uh_num_endpoints host s)))"
    and pipe_bus: "fine s \<Longrightarrow> fine (snd (snd (uh_pipe_properties host pipe s)))"
    and source_bus: "fine s \<Longrightarrow> fine (snd (snd (uh_create_event_source host s)))"
    and read_bus: "fine s \<Longrightarrow> fine (snd (snd (snd (uh_read_pipe host pipe len t s))))"
    and async_bus: "fine s \<Longrightarrow> fine (snd (uh_read_pipe_async host pipe a s))"
    and abort_bus: "fine s \<Longrightarrow> fine (snd (uh_abort_pipe host pipe s))"
    and clear_bus: "fine s \<Longrightarrow> fine (snd (uh_clear_pipe_stall host pipe s))"
    and release_bus: "fine s \<Longrightarrow> fine (uh_release host s)"
    and add_bus: "fine s \<Longrightarrow> fine (uh_add_source host loop s)"
    and remove_bus: "fine s \<Longrightarrow> fine (uh_remove_source host loop s)"
    and pass_bus: "fine s \<Longrightarrow> fine (snd (uh_run_pass host seconds s))"
    and time_bus: "fine s \<Longrightarrow> fine (snd (uh_absolute_time host s))"
    and calloc_bus: "fine s \<Longrightarrow> fine (snd (uh_calloc host s))"
begin

lemmas bus = control_fine open_bus close_bus class_bus subclass_bus protocol_bus number_bus
  endpoints_bus pipe_bus source_bus read_bus async_bus abort_bus clear_bus release_bus add_bus remove_bus
  pass_bus time_bus calloc_bus

abbreviation fine_at :: "'s mac_context \<Rightarrow> bool" where "fine_at m \<equiv> fine (mc_state m)"

lemma release_state [simp]: "mc_state (release_interrupt_request m) = mc_state m"
  "mc_state (interrupt_request_release a m) = mc_state m"
  by (simp_all add: release_interrupt_request_def interrupt_request_release_def update_request_def split: option.splits)

lemma pass_at: "fine_at m \<Longrightarrow> fine_at (run_pass host t m)"
  by (simp add: run_pass_def case_prod_unfold Let_def bus)

lemma time_at: "fine_at m \<Longrightarrow> fine_at (snd (absolute_time host m))"
  by (simp add: absolute_time_def case_prod_unfold Let_def bus)

lemma wait_at: "run_until_interrupt host t m = Some (b, m') \<Longrightarrow> fine_at m \<Longrightarrow> fine_at m'"
  by (erule wait_invariant [where I = fine_at]) (auto intro: pass_at time_at)

lemma drain_at: "abort_and_drain_interrupt host m = Some (r, m') \<Longrightarrow> fine_at m \<Longrightarrow> fine_at m'"
  by (erule drain_invariant [where I = fine_at]) (auto intro: pass_at time_at bus)

lemma descriptor_at:
  "read_descriptor get result m = (r, v, m') \<Longrightarrow> (\<And>s. fine s \<Longrightarrow> fine (snd (snd (get s)))) \<Longrightarrow> fine_at m \<Longrightarrow> fine_at m'"
  by (auto simp: read_descriptor_def case_prod_unfold Let_def split: if_splits)

lemma endpoints_at: "endpoint_loop host pipes d m = (b, d', m') \<Longrightarrow> fine_at m \<Longrightarrow> fine_at m'"
proof (induction pipes arbitrary: m)
  case (Cons pipe pipes)
  obtain r p s where g: "uh_pipe_properties host pipe (mc_state m) = (r, p, s)" using prod_cases3 by blast
  have "fine s" using pipe_bus [OF Cons.prems(2), of pipe] g by simp
  with Cons g show ?case by (auto simp: classify_pipe_def Let_def split: if_splits option.splits)
qed simp

lemma inspect_at:
  assumes "inspect_endpoints host d m = (b, d', m')" and "fine_at m" shows "fine_at m'"
proof -
  obtain r1 v1 m1 where 1: "read_descriptor (uh_interface_class host) IOReturnSuccess m = (r1, v1, m1)" using prod_cases3 by blast
  obtain r2 v2 m2 where 2: "read_descriptor (uh_interface_subclass host) r1 m1 = (r2, v2, m2)" using prod_cases3 by blast
  obtain r3 v3 m3 where 3: "read_descriptor (uh_interface_protocol host) r2 m2 = (r3, v3, m3)" using prod_cases3 by blast
  obtain r4 v4 m4 where 4: "read_descriptor (uh_interface_number host) r3 m3 = (r4, v4, m4)" using prod_cases3 by blast
  define m5 where "m5 = (case v4 of None \<Rightarrow> m4 | Some n \<Rightarrow> m4\<lparr>mc_interface_number := n\<rparr>)"
  obtain r6 v6 m6 where 6: "read_descriptor (uh_num_endpoints host) r4 m5 = (r6, v6, m6)" using prod_cases3 by blast
  have "mc_state m5 = mc_state m4" by (simp add: m5_def split: option.splits)
  then have s: "fine_at m6"
    using descriptor_at [OF 6 endpoints_bus] descriptor_at [OF 4 number_bus] descriptor_at [OF 3 protocol_bus]
      descriptor_at [OF 2 subclass_bus] descriptor_at [OF 1 class_bus] assms(2) by simp
  show ?thesis
    using assms(1) s unfolding inspect_endpoints_def Let_def 1 2 3 4 prod.case m5_def [symmetric] 6
    by (auto split: if_splits prod.splits dest!: endpoints_at)
qed

lemma remove_at: "fine_at m \<Longrightarrow> fine_at (remove_event_source host m)"
  by (simp add: remove_event_source_def Let_def bus split: option.splits)

lemma forget_at: "fine_at m \<Longrightarrow> fine_at (close_and_forget host m)"
  by (simp add: close_and_forget_def case_prod_unfold Let_def bus)

lemma open_at:
  assumes "mac_open_seize host d m = (st, d', m')" and "fine_at m" shows "fine_at m'"
proof (cases "mc_open m")
  case True
  with assms show ?thesis by (simp add: mac_open_seize_def)
next
  case False
  obtain r s where o: "uh_open_seize host (mc_state m) = (r, s)" by force
  have 1: "fine s" using open_bus [OF assms(2)] o by simp
  let ?m = "m\<lparr>mc_state := s, mc_open := True, mc_desynchronized := False, mc_reset_armed := False\<rparr>"
  obtain b d2 m2 where i: "inspect_endpoints host d ?m = (b, d2, m2)" using prod_cases3 by blast
  have 2: "fine_at m2" using inspect_at [OF i] 1 by simp
  obtain r3 c s3 where e: "uh_create_event_source host (mc_state m2) = (r3, c, s3)" using prod_cases3 by blast
  have 3: "fine s3" using source_bus [OF 2] e by simp
  show ?thesis
    using assms(1) False 1 2 3 forget_at [OF 2] forget_at [OF remove_at [of "m2\<lparr>mc_state := s3, mc_event_source := c\<rparr>"]]
      add_bus [OF 3]
    unfolding mac_open_seize_def o Let_def prod.case
    by (cases "seize_failure host r") (auto simp: i e split: if_splits)
qed

lemma close_at:
  assumes "mac_close host d m = Some (st, d', m')" and "fine_at m" shows "fine_at m'"
proof (cases "mc_open m")
  case False
  with assms show ?thesis by (simp add: mac_close_def)
next
  case True
  obtain same d1 where o: "on_transport_run_loop host d m = (same, d1)" by force
  let ?drained = "if \<not> same then Some (IOReturnBadArgument, m) else abort_and_drain_interrupt host m"
  obtain r m1 where a: "?drained = Some (r, m1)"
    using assms(1) True o by (cases ?drained) (auto simp: mac_close_def)
  have 1: "fine_at m1" using a assms(2) drain_at by (auto split: if_splits)
  show ?thesis
    using assms(1) True close_bus [OF 1] unfolding mac_close_def o Let_def prod.case a
    by (auto simp: case_prod_unfold intro!: remove_at split: if_splits)
qed

lemma adsc_at:
  assumes "mac_adsc host cdb t d m = (st, d', m')" and "fine_at m" and "allowed_block cdb" shows "fine_at m'"
proof -
  have "buf_write 0 (take 12 cdb) (zeroed 12) = cdb"
    using assms(3) by (simp add: allowed_block_def buf_write_def)
  then have "adsc_request_for \<lparr>ur_request_type = 0x21, ur_request = 0, ur_value = 0, ur_index = i, ur_length = 12,
      ur_data = buf_write 0 (take 12 cdb) (zeroed 12), ur_no_data_timeout = t, ur_completion_timeout = t\<rparr>" for i
    using assms(3) by (simp add: adsc_request_for_def)
  from control_fine [OF assms(2) this] show ?thesis
    using assms(1,2) by (auto simp: mac_adsc_def m65_cbi_build_adsc_def Let_def case_prod_unfold split: if_splits)
qed

lemma failure_at: "bulk_failure host op re pipe r d m = (d', m') \<Longrightarrow> fine_at m \<Longrightarrow> fine_at m'"
  by (auto simp: bulk_failure_def Let_def case_prod_unfold bus split: if_splits)

lemma bulk_in_at: "mac_bulk_in host len t d m = (st, b, n, d', m') \<Longrightarrow> fine_at m \<Longrightarrow> fine_at m'"
  using read_bus [of "mc_state m" "mc_bulk_in_pipe m" "of_nat len" t]
  by (auto simp: mac_bulk_in_def Let_def dest!: failure_at split: if_splits prod.splits)

lemma clear_at: "mac_clear_stall host dir d m = (st, d', m') \<Longrightarrow> fine_at m \<Longrightarrow> fine_at m'"
  by (cases dir) (auto simp: mac_clear_stall_def Let_def case_prod_unfold bus split: if_splits)

lemma finish_at: "mac_finish_command_block_reset host r d m = (st, d', m') \<Longrightarrow> fine_at m \<Longrightarrow> fine_at m'"
  by (auto simp: mac_finish_command_block_reset_def Let_def case_prod_unfold split: if_splits)

lemma timeout_at:
  assumes "interrupt_timeout host m = Some (st, b, n, d', m')" and "fine_at m" shows "fine_at m'"
proof -
  obtain r m1 where a: "abort_and_drain_interrupt host (m\<lparr>mc_desynchronized := True\<rparr>) = Some (r, m1)"
    using assms(1) by (auto simp: interrupt_timeout_def)
  have 1: "fine_at m1" using drain_at [OF a] assms(2) by simp
  with assms(1) a clear_bus [OF 1] show ?thesis
    by (auto simp: interrupt_timeout_def Let_def case_prod_unfold split: if_splits)
qed

lemma interrupt_at:
  assumes "mac_interrupt_in_with_deadline host t d m = Some (st, b, n, d', m')" and f: "fine_at m"
  shows "fine_at m'"
proof -
  obtain same d1 where o: "on_transport_run_loop host d m = (same, d1)" by force
  obtain a s where c: "uh_calloc host (mc_state m) = (a, s)" by force
  have 1: "fine s" using calloc_bus [OF f] c by simp
  let ?a = "length (mc_requests m)"
  let ?r = "\<lparr>rq_references = 2, rq_complete = False, rq_result = IOReturnNotReady, rq_transferred = 0,
    rq_buffer = zeroed M65_CBI_STATUS_LENGTH\<rparr>"
  obtain r2 s2 where e: "uh_read_pipe_async host (mc_interrupt_in_pipe m) ?a s = (r2, s2)" by force
  have 2: "fine s2" using async_bus [OF 1, of "mc_interrupt_in_pipe m" ?a] e by simp
  let ?m = "m\<lparr>mc_state := s, mc_requests := mc_requests m @ [?r], mc_interrupt_request := Some ?a\<rparr>\<lparr>mc_state := s2\<rparr>"
  show ?thesis
  proof (cases "same \<and> mc_interrupt_request m = None \<and> a \<and> r2 = IOReturnSuccess")
    case False
    then show ?thesis
      using assms 1 2 unfolding mac_interrupt_in_with_deadline_def o Let_def prod.case c
      by (auto simp: e split: if_splits)
  next
    case True
    obtain arrived m4 where w: "run_until_interrupt host (of_nat (unat t) / 1000) ?m = Some (arrived, m4)"
      and r: "(if \<not> arrived then interrupt_timeout host m4 else Some (interrupt_arrived host ?a d1 m4)) =
        Some (st, b, n, d', m')"
      using assms(1) True unfolding mac_interrupt_in_with_deadline_def o Let_def prod.case c
      by (simp add: e cong: if_cong split: Option.bind_splits) auto
    have "fine_at m4" using wait_at [OF w] 2 by simp
    then show ?thesis using r timeout_at by (auto simp: interrupt_arrived_def Let_def split: if_splits)
  qed
qed

lemma prepare_at:
  assumes "mac_prepare_command_block_reset host d m = Some (st, d', m')" and f: "fine_at m" shows "fine_at m'"
proof -
  obtain same d1 where o: "on_transport_run_loop host d m = (same, d1)" by force
  show ?thesis
  proof (cases "same \<and> mc_open m \<and> \<not> mc_reset_armed m")
    case False
    then show ?thesis
      using assms unfolding mac_prepare_command_block_reset_def o Let_def prod.case by (auto split: if_splits)
  next
    case True
    obtain r m1 where a: "abort_and_drain_interrupt host m = Some (r, m1)"
      using assms(1) True o by (auto simp: mac_prepare_command_block_reset_def)
    have 1: "fine_at m1" by (rule drain_at [OF a f])
    then show ?thesis
      using assms(1) True a clear_bus [OF 1] unfolding mac_prepare_command_block_reset_def o Let_def prod.case
      by (auto simp: case_prod_unfold split: if_splits)
  qed
qed

lemma destroy_at: "mac_destroy_io host m = Some m' \<Longrightarrow> fine_at m \<Longrightarrow> fine_at m'"
  by (auto simp: mac_destroy_io_def Let_def intro!: bus remove_at dest: close_at split: if_splits)

end

text \<open>With data of the allowed kind the bulk-OUT pipe keeps it as well.\<close>

locale careful_bus = quiet_bus host fine
  for host :: "'s usb_host" and fine :: "'s \<Rightarrow> bool" +
  assumes write_fine: "fine s \<Longrightarrow> allowed_data data \<Longrightarrow> fine (snd (uh_write_pipe host pipe data n t s))"
begin

lemma bulk_out_at: "mac_bulk_out host b len t d m = (st, n, d', m') \<Longrightarrow> fine_at m \<Longrightarrow> allowed_data b \<Longrightarrow> fine_at m'"
  using write_fine [of "mc_state m" b "mc_bulk_out_pipe m" "of_nat len" t]
  by (auto simp: mac_bulk_out_def Let_def dest!: failure_at split: if_splits prod.splits)

end

text \<open>So the adapter over such a bus is one for the transport's sessions.\<close>

sublocale careful_bus \<subseteq> careful_io "mac_cbi_ops host" "\<lambda>m. fine (mc_state m)"
  by unfold_locales
    (auto simp: mac_cbi_ops_def returned_def dest: open_at adsc_at bulk_in_at bulk_out_at clear_at finish_at
      close_at interrupt_at prepare_at destroy_at split: option.splits)

section \<open>A bus that records\<close>

datatype bus_event = BusControl usb_request | BusWrite u8 bytes

fun bus_allowed :: "bus_event \<Rightarrow> bool" where
  "bus_allowed (BusControl r) = adsc_request_for r"
| "bus_allowed (BusWrite pipe data) = allowed_data data"

text \<open>A call of the bus that leaves the log alone.\<close>

definition past_log :: "('s \<Rightarrow> 'a \<times> 's) \<Rightarrow> 's \<times> 'l \<Rightarrow> 'a \<times> 's \<times> 'l" where
  "past_log f = (\<lambda>(s, l). let (a, s) = f s in (a, s, l))"

definition past_log2 :: "('s \<Rightarrow> 'a \<times> 'b \<times> 's) \<Rightarrow> 's \<times> 'l \<Rightarrow> 'a \<times> 'b \<times> 's \<times> 'l" where
  "past_log2 f = (\<lambda>(s, l). let (a, b, s) = f s in (a, b, s, l))"

lemma past_log_snd [simp]:
  "snd (snd (past_log f sl)) = snd sl" "snd (snd (snd (past_log2 g sl))) = snd sl"
  by (simp_all add: past_log_def past_log2_def case_prod_unfold Let_def)

definition logged_usb :: "'s usb_host \<Rightarrow> ('s \<times> bus_event list) usb_host" where
  "logged_usb u =
     \<lparr>uh_number = uh_number u, uh_is_root = uh_is_root u, uh_open_seize = past_log (uh_open_seize u),
      uh_close = past_log (uh_close u), uh_interface_class = past_log2 (uh_interface_class u),
      uh_interface_subclass = past_log2 (uh_interface_subclass u),
      uh_interface_protocol = past_log2 (uh_interface_protocol u),
      uh_interface_number = past_log2 (uh_interface_number u),
      uh_num_endpoints = past_log2 (uh_num_endpoints u),
      uh_pipe_properties = (\<lambda>pipe. past_log2 (uh_pipe_properties u pipe)),
      uh_create_event_source = past_log2 (uh_create_event_source u),
      uh_control_request = (\<lambda>r (s, l). let (a, b, s) = uh_control_request u r s in (a, b, s, l @ [BusControl r])),
      uh_read_pipe = (\<lambda>pipe n t (s, l). let (a, b, c, s) = uh_read_pipe u pipe n t s in (a, b, c, s, l)),
      uh_write_pipe = (\<lambda>pipe data n t (s, l).
        let (a, s) = uh_write_pipe u pipe data n t s in (a, s, l @ [BusWrite pipe data])),
      uh_read_pipe_async = (\<lambda>pipe a. past_log (uh_read_pipe_async u pipe a)),
      uh_abort_pipe = (\<lambda>pipe. past_log (uh_abort_pipe u pipe)),
      uh_clear_pipe_stall = (\<lambda>pipe. past_log (uh_clear_pipe_stall u pipe)),
      uh_release = (\<lambda>(s, l). (uh_release u s, l)), uh_current_run_loop = (\<lambda>(s, l). uh_current_run_loop u s),
      uh_add_source = (\<lambda>loop (s, l). (uh_add_source u loop s, l)),
      uh_remove_source = (\<lambda>loop (s, l). (uh_remove_source u loop s, l)),
      uh_run_pass = (\<lambda>t. past_log (uh_run_pass u t)), uh_absolute_time = past_log (uh_absolute_time u),
      uh_calloc = past_log (uh_calloc u)\<rparr>"

definition log_allowed :: "'s \<times> bus_event list \<Rightarrow> bool" where
  "log_allowed sl \<longleftrightarrow> list_all bus_allowed (snd sl)"

interpretation logged_bus: careful_bus "logged_usb u" log_allowed for u :: "'s usb_host"
  by unfold_locales (simp_all add: logged_usb_def log_allowed_def case_prod_unfold Let_def)

text \<open>A host of the probe whose signals and allocations act on the state outside.\<close>

definition bus_session_host :: "'s host \<Rightarrow> ('s \<times> bus_event list) mac_context cbi_context host" where
  "bus_session_host h =
     \<lparr>h_signals = (\<lambda>c. let (b, s) = h_signals h (fst (mc_state (cc_io c)))
        in (b, c\<lparr>cc_io := (cc_io c)\<lparr>mc_state := (s, snd (mc_state (cc_io c)))\<rparr>\<rparr>)),
      h_malloc = (\<lambda>n c. let (x, s) = h_malloc h n (fst (mc_state (cc_io c)))
        in (x, c\<lparr>cc_io := (cc_io c)\<lparr>mc_state := (s, snd (mc_state (cc_io c)))\<rparr>\<rparr>)),
      h_stack_block = h_stack_block h\<rparr>"

interpretation logged_session: careful_session "mac_cbi_ops (logged_usb u)" "\<lambda>m. log_allowed (mc_state m)"
    "bus_session_host h"
  for u :: "'s usb_host" and h :: "'s host"
  by unfold_locales (auto simp: bus_session_host_def log_allowed_def Let_def split: prod.splits)

end
