(* ===== verification/M65_Writes.thy ===== *)
theory M65_Writes
  imports M65_Bus
begin

text \<open>
  What the transport (\<open>src/cbi.c\<close>) writes through its adapter: over an adapter that writes only in its
  bulk-OUT transfers, a command writes its own data once or nothing, and its data for sure when its
  result is good.
\<close>

section \<open>Adapters that write\<close>

locale writing_io =
  fixes io :: "'s cbi_io" and out :: "'s \<Rightarrow> bytes list"
  assumes open_out: "io_open_seize io d s = (st, d', s') \<Longrightarrow> out s' = out s"
    and close_out: "io_close io d s = (st, d', s') \<Longrightarrow> out s' = out s"
    and adsc_out: "io_adsc io cdb t d s = (st, d', s') \<Longrightarrow> out s' = out s"
    and bulk_in_out: "io_bulk_in io n t d s = (st, b, k, d', s') \<Longrightarrow> out s' = out s"
    and bulk_out_out: "io_bulk_out io b n t d s = (st, k, d', s') \<Longrightarrow> out s' = out s @ [b] \<or> st \<noteq> CBI_IO_OK \<and> out s' = out s"
    and interrupt_out: "io_interrupt_in io t d s = (st, b, k, d', s') \<Longrightarrow> out s' = out s"
    and clear_out: "io_clear_stall io dir d s = (st, d', s') \<Longrightarrow> out s' = out s"
    and prepare_out: "io_prepare_reset io d s = (st, d', s') \<Longrightarrow> out s' = out s"
    and finish_out: "io_finish_reset io r d s = (st, d', s') \<Longrightarrow> out s' = out s"
    and destroy_out: "out (io_destroy io s) = out s"
begin

abbreviation written :: "'s cbi_context \<Rightarrow> bytes list" where "written ctx \<equiv> out (cc_io ctx)"

text \<open>From \<open>ctx\<close> to \<open>ctx'\<close> the data went out, once or, unless \<open>sure\<close>, not at all.\<close>

definition writes_data :: "data_direction \<Rightarrow> bytes \<Rightarrow> bool \<Rightarrow> 's cbi_context \<Rightarrow> 's cbi_context \<Rightarrow> bool" where
  "writes_data dir data sure ctx ctx' \<longleftrightarrow>
     (if dir = DATA_OUT then written ctx' = written ctx @ [data] \<or> \<not> sure \<and> written ctx' = written ctx
      else written ctx' = written ctx)"

lemma require_written [simp]: "cc_io (require_recovery d f ctx) = cc_io ctx"
  by (simp add: require_recovery_def)

lemma failure_written: "phase_io_failure st op d ctx = (st', d', ctx') \<Longrightarrow> cc_io ctx' = cc_io ctx \<and> st' = st"
  by (auto simp: phase_io_failure_def Let_def split: if_splits)

lemma completion_written: "completion_phase io t ex data d ctx = (st, ex', data', d', ctx') \<Longrightarrow> written ctx' = written ctx"
  by (auto simp: completion_phase_def Let_def dest!: failure_written interrupt_out split: prod.splits if_splits)

lemma transfer_writes:
  "bulk_transfer io dir data n t d ctx = (st, data', k, d', ctx') \<Longrightarrow> writes_data dir data (st = CBI_IO_OK) ctx ctx'"
  by (cases dir) (auto simp: writes_data_def bulk_transfer_def Let_def dest: bulk_in_out bulk_out_out split: prod.splits)

lemma exchange_writes:
  assumes "run_exchange io cdb dir data n t d ctx = (st, ex, data', d', ctx')"
  shows "writes_data dir data (st = CBI_IO_OK \<and> \<not> ex_adsc_stalled ex \<and> \<not> ex_data_stalled ex) ctx ctx'"
  using assms
proof (cases rule: run_exchange_cases)
  case command
  then show ?thesis by (auto simp: writes_data_def dest: adsc_out dest!: failure_written)
next
  case data
  then show ?thesis using transfer_writes [OF data(2)] adsc_out [OF data(1)]
    by (auto simp: writes_data_def dest!: failure_written split: if_splits)
next
  case clear
  then show ?thesis using transfer_writes [OF clear(2)] adsc_out [OF clear(1)] clear_out [OF clear(3)]
    by (auto simp: writes_data_def dest!: failure_written split: if_splits)
next
  case cleared
  then show ?thesis using transfer_writes [OF cleared(2)] adsc_out [OF cleared(1)] clear_out [OF cleared(3)]
      completion_written [OF cleared(4)] completion_phase_kept(6) [OF cleared(4)]
    by (auto simp: writes_data_def split: if_splits)
next
  case moved
  then show ?thesis using transfer_writes [OF moved(2)] adsc_out [OF moved(1)] completion_written [OF moved(4)]
    by (auto simp: writes_data_def split: if_splits)
qed

lemma exchange_in: "run_exchange io cdb dir data n t d ctx = (st, ex, data', d', ctx') \<Longrightarrow> dir \<noteq> DATA_OUT \<Longrightarrow>
    written ctx' = written ctx"
  using exchange_writes by (metis writes_data_def)

lemma clear_after_written:
  "clear_after_reset io first failure ctx = (st, f, ctx') \<Longrightarrow> written ctx' = written ctx"
  by (auto simp: clear_after_reset_def Let_def dest!: clear_out split: prod.splits)

lemma finish_reset_written:
  "finish_reset io completed first failure d ctx = (st, d', ctx') \<Longrightarrow> written ctx' = written ctx"
  by (auto simp: finish_reset_def Let_def dest!: finish_out split: prod.splits if_splits)

lemma recover_written:
  assumes x: "recover_if_required io t d ctx = (st, d', ctx')"
  shows "written ctx' = written ctx"
proof (cases "cc_recovery_required ctx")
  case False
  with x show ?thesis by (simp add: recover_if_required_def)
next
  case True
  obtain s1 d1 i1 where p: "io_prepare_reset io [] (cc_io ctx) = (s1, d1, i1)" using prod_cases3 by blast
  obtain s2 e2 b2 d2 c2 where e: "run_exchange io reset_cdb DATA_NONE [] 0 t d1 (ctx\<lparr>cc_io := i1\<rparr>) = (s2, e2, b2, d2, c2)"
    using prod_cases5 by blast
  have "out i1 = written ctx" "written c2 = out i1" using prepare_out [OF p] exchange_in [OF e] by simp_all
  then show ?thesis
    using x True unfolding recover_if_required_def Let_def p prod.case e
    by (auto split: if_splits prod.splits dest!: clear_after_written finish_reset_written)
qed

lemma fetch_written: "fetch_sense io t sense d ctx = (st, sense', d', ctx') \<Longrightarrow> written ctx' = written ctx"
  unfolding fetch_sense_def Let_def
  by (auto simp: sense_failure_def Let_def dest!: exchange_in split: prod.splits if_splits sum.splits)

lemma request_sense_written: "execute_request_sense io c padded ctx = (r, b, ctx') \<Longrightarrow> written ctx' = written ctx"
  by (auto simp: execute_request_sense_def Let_def dest!: exchange_in split: prod.splits if_splits sum.splits)

lemma outcome_written:
  "command_outcome c ex res ctx = (r, ctx') \<Longrightarrow> cc_io ctx' = cc_io ctx \<and>
     (command_good r \<longrightarrow> \<not> ex_adsc_stalled ex \<and> \<not> ex_data_stalled ex)"
  by (auto simp: command_outcome_def command_good_def Let_def split: if_splits)

lemma command_writes:
  assumes x: "execute_command io c padded ctx = (r, b, ctx')"
  shows "writes_data (c_direction c) (command_data c) (command_good r) ctx ctx'"
proof -
  obtain st ex b1 d1 c1 where e: "run_exchange io padded (c_direction c) (command_data c) (c_data_length c)
      (c_timeout_ms c) [] ctx = (st, ex, b1, d1, c1)" using prod_cases5 by blast
  have "written ctx' = written c1 \<and> (command_good r \<longrightarrow> st = CBI_IO_OK \<and> \<not> ex_adsc_stalled ex \<and> \<not> ex_data_stalled ex)"
    using x unfolding execute_command_def Let_def e prod.case
    by (auto simp: command_good_def split: if_splits prod.splits dest!: fetch_written outcome_written)
  with exchange_writes [OF e] show ?thesis by (auto simp: writes_data_def split: if_splits)
qed

lemma execute_writes:
  assumes "cbi_execute io c ctx = (r, b, ctx')"
  shows "writes_data (c_direction c) (command_data c) (command_good r) ctx ctx'"
  using assms
proof (cases rule: cbi_execute_cases)
  case refused
  then show ?thesis by (simp add: writes_data_def command_good_def)
next
  case unrecovered
  then show ?thesis using recover_written [OF unrecovered(3)]
    by (simp add: writes_data_def command_good_def)
next
  case sense
  then have "c_direction c \<noteq> DATA_OUT"
    by (auto simp: m65_validate_command_def validate_data_def Let_def split: if_splits)
  then show ?thesis using recover_written [OF sense(4)] request_sense_written [OF sense(6)]
    by (simp add: writes_data_def)
next
  case executed
  then show ?thesis using recover_written [OF executed(4)] command_writes [OF executed(6)]
    by (auto simp: writes_data_def split: if_splits)
qed

lemma acquire_written: "cbi_acquire io d ctx = (st, d', ctx') \<Longrightarrow> written ctx' = written ctx"
  by (auto simp: cbi_acquire_def Let_def dest!: open_out split: prod.splits if_splits)

lemma release_written: "cbi_release io d ctx = (st, d', ctx') \<Longrightarrow> written ctx' = written ctx"
  by (auto simp: cbi_release_def Let_def dest!: close_out split: prod.splits if_splits)

lemma end_written: "out (cbi_destroy io ctx) = written ctx"
  by (cases "io_close io [] (cc_io ctx)") (auto simp: cbi_destroy_def destroy_out dest: close_out)

end

section \<open>The USB adapter\<close>

text \<open>What a record of the bus says was written to the bulk-OUT pipe.\<close>

fun bus_writes :: "bus_event list \<Rightarrow> bytes list" where
  "bus_writes [] = []"
| "bus_writes (BusWrite pipe data # es) = data # bus_writes es"
| "bus_writes (BusControl r # es) = bus_writes es"

lemma bus_writes_append [simp]: "bus_writes (xs @ ys) = bus_writes xs @ bus_writes ys"
  by (induction xs rule: bus_writes.induct) simp_all

interpretation unwritten: quiet_bus "logged_usb u" "\<lambda>s. bus_writes (snd s) = ws"
  for u :: "'s usb_host" and ws :: "bytes list"
  by unfold_locales (simp_all add: logged_usb_def case_prod_unfold Let_def)

abbreviation mac_written :: "('s \<times> bus_event list) mac_context \<Rightarrow> bytes list" where
  "mac_written m \<equiv> bus_writes (snd (mc_state m))"

lemma adsc_unwritten: "mac_adsc (logged_usb u) cdb t d m = (st, d', m') \<Longrightarrow> mac_written m' = mac_written m"
  by (auto simp: mac_adsc_def logged_usb_def case_prod_unfold Let_def split: if_splits option.splits)

lemma bulk_out_writes:
  assumes "mac_bulk_out (logged_usb u) b n t d m = (st, k, d', m')"
  shows "mac_written m' = mac_written m @ [b] \<or> st \<noteq> CBI_IO_OK \<and> mac_written m' = mac_written m"
proof -
  obtain same d1 where o: "on_transport_run_loop (logged_usb u) d m = (same, d1)" by force
  obtain r s where w: "uh_write_pipe (logged_usb u) (mc_bulk_out_pipe m) b (of_nat n) t (mc_state m) = (r, s)" by (metis surj_pair)
  have s: "bus_writes (snd s) = mac_written m @ [b]"
    using w by (auto simp: logged_usb_def case_prod_unfold Let_def)
  show ?thesis
    using assms s unwritten.failure_at [of u _ _ _ _ _ _ _ _ "mac_written m @ [b]"]
    unfolding mac_bulk_out_def o Let_def prod.case w by (auto split: if_splits prod.splits)
qed

interpretation mac_writes: writing_io "mac_cbi_ops (logged_usb u)" mac_written for u :: "'s usb_host"
  by unfold_locales
    (auto simp: mac_cbi_ops_def returned_def dest: unwritten.open_at [OF _ refl] adsc_unwritten
      unwritten.bulk_in_at [OF _ refl] bulk_out_writes unwritten.clear_at [OF _ refl] unwritten.finish_at [OF _ refl]
      unwritten.close_at [OF _ refl] unwritten.interrupt_at [OF _ refl] unwritten.prepare_at [OF _ refl]
      unwritten.destroy_at [OF _ refl] split: option.splits)

end
