(* ===== verification/M65_Discovery.thy ===== *)
theory M65_Discovery
  imports M65_Registry
begin

text \<open>
  Discovery of the devices (\<open>src/discovery_macos.c\<close>) over the I/O Registry, Disk Arbitration and
  \<open>access\<close> as parameters. A C string of the registry is its bytes; one that does not fit its array is
  empty after \<open>copy_cf_string\<close> and cut after \<open>snprintf\<close>. A key string that cannot be created is a
  property that is not found.
\<close>

datatype da_key =
    DADeviceInternal | DAMediaRemovable | DAMediaWhole | DAMediaSize | DAMediaBlockSize | DAVolumePath

type_synonym da_description = "da_key \<Rightarrow> cf_value option"

record 'e disk_host =
  dh_session :: bool
  dh_matching :: bool
  dh_media :: "u32 \<times> 'e list"
  dh_name :: "'e \<Rightarrow> string option"
  dh_path :: "'e \<Rightarrow> string option"
  dh_description :: "string \<Rightarrow> da_description option"
  dh_access :: "string \<Rightarrow> bool \<times> int"

definition M65_MAX_BSD_NAME :: nat where "M65_MAX_BSD_NAME = 32"
definition M65_MAX_IDENTITY :: nat where "M65_MAX_IDENTITY = 128"
definition M65_MAX_REGISTRY_PATH :: nat where "M65_MAX_REGISTRY_PATH = 1024"

definition zero_device :: device_info where
  "zero_device =
     \<lparr>d_bsd_name = [], d_raw_path = [], d_registry_path = [], d_media_name = [], d_usb_manufacturer = [],
      d_usb_product = [], d_product_revision = [], d_usb_vid = 0, d_usb_pid = 0, d_usb_device_revision = 0,
      d_known_controller = False, d_media_present = False, d_external = False, d_removable = False,
      d_whole = False, d_mounted = False, d_readable = False, d_capacity_bytes = 0, d_block_size = 0,
      d_permission_errno = 0\<rparr>"

definition copy_cf_string :: "cf_value option \<Rightarrow> nat \<Rightarrow> string" where
  "copy_cf_string value destination_size =
     (case value of
        Some (CFString s) \<Rightarrow> if length s < destination_size then s else []
      | _ \<Rightarrow> [])"

definition recursive_u16 :: "'e registry \<Rightarrow> 'e \<Rightarrow> registry_key \<Rightarrow> u16" where
  "recursive_u16 reg entry key =
     (case cf_number 64 (rg_search_property reg entry key) of
        None \<Rightarrow> 0
      | Some number \<Rightarrow> if number \<ge> 0 \<and> number \<le> 65535 then word_of_int number else 0)"

definition recursive_string :: "'e registry \<Rightarrow> 'e \<Rightarrow> registry_key \<Rightarrow> string" where
  "recursive_string reg entry key = copy_cf_string (rg_search_property reg entry key) M65_MAX_IDENTITY"

definition dictionary_bool :: "da_description \<Rightarrow> da_key \<Rightarrow> bool \<Rightarrow> bool" where
  "dictionary_bool dictionary key fallback =
     (case dictionary key of Some (CFBoolean b) \<Rightarrow> b | _ \<Rightarrow> fallback)"

definition dictionary_u64 :: "da_description \<Rightarrow> da_key \<Rightarrow> 64 word" where
  "dictionary_u64 dictionary key =
     (case cf_number 64 (dictionary key) of
        None \<Rightarrow> 0
      | Some number \<Rightarrow> if number \<ge> 0 then word_of_int number else 0)"

definition populate_identity :: "'e registry \<Rightarrow> 'e \<Rightarrow> device_info \<Rightarrow> device_info" where
  "populate_identity reg entry device =
     (let device = device\<lparr>d_usb_vid := recursive_u16 reg entry USBVendorID,
            d_usb_pid := recursive_u16 reg entry USBProductID,
            d_usb_device_revision := recursive_u16 reg entry BcdDevice,
            d_usb_manufacturer := recursive_string reg entry USBVendorString,
            d_usb_product := recursive_string reg entry USBProductString\<rparr>;
          device = (if d_usb_product device = []
                    then device\<lparr>d_usb_product := recursive_string reg entry IOPropertyProductName\<rparr>
                    else device);
          device = device\<lparr>d_product_revision :=
            ''0x'' @ hex_digits 4 (unat (d_usb_device_revision device))\<rparr>
      in device\<lparr>d_known_controller := identity_matches device\<rparr>)"

definition fill_da_description :: "'e disk_host \<Rightarrow> device_info \<Rightarrow> bool \<times> device_info" where
  "fill_da_description disks device =
     (case dh_description disks (snprintf_str M65_MAX_IDENTITY (''/dev/'' @ d_bsd_name device)) of
        None \<Rightarrow> (False, device)
      | Some description \<Rightarrow>
          let device = device\<lparr>d_external := \<not> dictionary_bool description DADeviceInternal True,
                d_removable := dictionary_bool description DAMediaRemovable False,
                d_whole := dictionary_bool description DAMediaWhole False,
                d_capacity_bytes := dictionary_u64 description DAMediaSize,
                d_block_size := ucast (dictionary_u64 description DAMediaBlockSize),
                d_mounted := description DAVolumePath \<noteq> None\<rparr>
          in (True, device\<lparr>d_media_present := d_capacity_bytes device > 0\<rparr>))"

definition strip_media :: "string \<Rightarrow> string" where
  "strip_media name =
     (let name_length = length name
      in if name_length > 6 \<and> drop (name_length - 6) name = '' Media''
         then take (name_length - 6) name else name)"

text \<open>What the loop gathers about one medium; None where it has no BSD name.\<close>

definition describe_medium :: "'e registry \<Rightarrow> 'e disk_host \<Rightarrow> 'e \<Rightarrow> device_info option" where
  "describe_medium reg disks media =
     (let device = zero_device\<lparr>d_bsd_name :=
            copy_cf_string (rg_property reg media BSDName) M65_MAX_BSD_NAME\<rparr>
      in if d_bsd_name device = [] then None
         else
           let device = (case dh_name disks media of
                  None \<Rightarrow> device
                | Some name \<Rightarrow>
                    device\<lparr>d_media_name := strip_media (snprintf_str M65_MAX_IDENTITY name)\<rparr>);
               device = (case dh_path disks media of
                  None \<Rightarrow> device
                | Some path \<Rightarrow> device\<lparr>d_registry_path := snprintf_str M65_MAX_REGISTRY_PATH path\<rparr>);
               device = populate_identity reg media device;
               device = device\<lparr>d_raw_path :=
                  snprintf_str M65_MAX_IDENTITY (''/dev/r'' @ d_bsd_name device)\<rparr>;
               device = snd (fill_da_description disks device);
               (readable, errno) = dh_access disks (d_raw_path device)
           in Some (device\<lparr>d_readable := readable,
                           d_permission_errno := (if readable then 0 else errno)\<rparr>))"

fun discover_loop :: "'e registry \<Rightarrow> 'e disk_host \<Rightarrow> 'e list \<Rightarrow> device_list \<Rightarrow> device_list" where
  "discover_loop reg disks [] items = items"
| "discover_loop reg disks (media # rest) items =
     (case describe_medium reg disks media of
        None \<Rightarrow> discover_loop reg disks rest items
      | Some device \<Rightarrow>
          discover_loop reg disks rest
            (if d_known_controller device \<and> length items < M65_MAX_DEVICES then items @ [device] else items))"

definition m65_discover_devices ::
    "'e registry \<Rightarrow> 'e disk_host \<Rightarrow> bool \<times> device_list \<times> string" where
  "m65_discover_devices reg disks =
     (if \<not> dh_session disks then (False, [], error_text ''unable to create a Disk Arbitration session'')
      else if \<not> dh_matching disks then (False, [], [])
      else
        let (kernel_result, media) = dh_media disks
        in if kernel_result \<noteq> 0
           then (False, [], error_text (''I/O Registry media enumeration failed: 0x'' @
                   hex_digits 8 (unat kernel_result)))
           else (True, discover_loop reg disks media [], []))"

section \<open>What is found\<close>

lemma discover_loop_eq:
  "discover_loop reg disks media items =
     items @ take (M65_MAX_DEVICES - length items)
       (filter d_known_controller (List.map_filter (describe_medium reg disks) media))"
proof (induction media arbitrary: items)
  case (Cons m media)
  show ?case
  proof (cases "describe_medium reg disks m")
    case (Some d)
    show ?thesis
    proof (cases "d_known_controller d \<and> length items < M65_MAX_DEVICES")
      case True
      then have "M65_MAX_DEVICES - length items = Suc (M65_MAX_DEVICES - Suc (length items))" by linarith
      with Some True Cons show ?thesis by (simp add: List.map_filter_simps)
    qed (use Some Cons in \<open>auto simp: List.map_filter_simps\<close>)
  qed (use Cons in \<open>simp add: List.map_filter_simps\<close>)
qed (simp add: List.map_filter_simps)

lemma populate_kept [simp]:
  "d_bsd_name (populate_identity reg e d) = d_bsd_name d"
  "d_known_controller (populate_identity reg e d) \<longleftrightarrow> identity_matches (populate_identity reg e d)"
  by (simp_all add: populate_identity_def Let_def identity_matches_def)

lemma fill_kept [simp]:
  "d_bsd_name (snd (fill_da_description disks d)) = d_bsd_name d"
  "d_known_controller (snd (fill_da_description disks d)) = d_known_controller d"
  "identity_matches (snd (fill_da_description disks d)) = identity_matches d"
  "d_raw_path (snd (fill_da_description disks d)) = d_raw_path d"
  by (simp_all add: fill_da_description_def Let_def identity_matches_def split: option.splits)

lemma describe_medium_facts:
  assumes "describe_medium reg disks m = Some d"
  shows "d_bsd_name d \<noteq> []" "length (d_bsd_name d) < 32" "d_raw_path d = ''/dev/r'' @ d_bsd_name d"
    "d_known_controller d = identity_matches d"
proof -
  have c: "length (copy_cf_string v n) < n" if "0 < n" for v n
    using that by (simp add: copy_cf_string_def split: option.splits cf_value.splits)
  define d0 where "d0 = zero_device\<lparr>d_bsd_name := copy_cf_string (rg_property reg m BSDName) M65_MAX_BSD_NAME\<rparr>"
  define d1 where "d1 = (case dh_name disks m of None \<Rightarrow> d0
    | Some name \<Rightarrow> d0\<lparr>d_media_name := strip_media (snprintf_str M65_MAX_IDENTITY name)\<rparr>)"
  define d2 where "d2 = (case dh_path disks m of None \<Rightarrow> d1
    | Some path \<Rightarrow> d1\<lparr>d_registry_path := snprintf_str M65_MAX_REGISTRY_PATH path\<rparr>)"
  define d3 where "d3 = populate_identity reg m d2"
  define d4 where "d4 = d3\<lparr>d_raw_path := snprintf_str M65_MAX_IDENTITY (''/dev/r'' @ d_bsd_name d3)\<rparr>"
  define d5 where "d5 = snd (fill_da_description disks d4)"
  obtain r e where a: "dh_access disks (d_raw_path d5) = (r, e)" by force
  have d: "d = d5\<lparr>d_readable := r, d_permission_errno := (if r then 0 else e)\<rparr>" "d_bsd_name d0 \<noteq> []"
    using assms unfolding describe_medium_def Let_def d0_def [symmetric] d1_def [symmetric] d2_def [symmetric]
      d3_def [symmetric] d4_def [symmetric] d5_def [symmetric] a prod.case by (auto split: if_splits)
  have "d_bsd_name d2 = d_bsd_name d0" by (simp add: d2_def d1_def split: option.splits)
  then have n: "d_bsd_name d5 = d_bsd_name d0" "d_bsd_name d3 = d_bsd_name d0" by (simp_all add: d5_def d4_def d3_def)
  have i: "identity_matches d5 = d_known_controller d5"
    by (simp add: d5_def) (simp add: d4_def d3_def identity_matches_def)
  have b: "d_bsd_name d = copy_cf_string (rg_property reg m BSDName) 32" "d_bsd_name d \<noteq> []"
    "d_raw_path d = snprintf_str M65_MAX_IDENTITY (''/dev/r'' @ d_bsd_name d)"
    "d_known_controller d = identity_matches d"
    using d n i by (simp_all add: d0_def M65_MAX_BSD_NAME_def)
      (simp_all add: d5_def d4_def n d0_def M65_MAX_BSD_NAME_def identity_matches_def)
  then show "d_bsd_name d \<noteq> []" "d_known_controller d = identity_matches d" by simp_all
  show l: "length (d_bsd_name d) < 32" using c [of 32] b(1) by simp
  then show "d_raw_path d = ''/dev/r'' @ d_bsd_name d" using b(3) by (simp add: snprintf_str_def M65_MAX_IDENTITY_def)
qed

text \<open>C24 Discovery returns the first sixteen known controllers among the media, in the order of the
  registry: nothing else is listed, none of them is left out, and the raw path of each is its own
  name's node, not cut off.\<close>

theorem discovery_lists_known_controllers:
  "case m65_discover_devices reg disks of (found, items, detail) \<Rightarrow>
     if found
     then items = take 16 (filter identity_matches (List.map_filter (describe_medium reg disks) (snd (dh_media disks)))) \<and>
       list_all (\<lambda>d. d_known_controller d \<and> d_bsd_name d \<noteq> [] \<and> d_raw_path d = ''/dev/r'' @ d_bsd_name d) items
     else items = []"
proof -
  let ?all = "List.map_filter (describe_medium reg disks) (snd (dh_media disks))"
  have all: "d_bsd_name d \<noteq> [] \<and> d_raw_path d = ''/dev/r'' @ d_bsd_name d \<and> d_known_controller d = identity_matches d"
    if "d \<in> set ?all" for d
  proof -
    from that obtain m where "describe_medium reg disks m = Some d"
      by (auto simp: List.map_filter_def)
    from describe_medium_facts [OF this] show ?thesis by simp
  qed
  then have "filter d_known_controller ?all = filter identity_matches ?all" by (intro filter_cong) auto
  moreover have "list_all (\<lambda>d. d_known_controller d \<and> d_bsd_name d \<noteq> [] \<and> d_raw_path d = ''/dev/r'' @ d_bsd_name d)
      (take 16 (filter identity_matches ?all))"
    using all by (auto simp: list_all_iff dest!: in_set_takeD)
  ultimately show ?thesis
    by (auto simp: m65_discover_devices_def discover_loop_eq M65_MAX_DEVICES_def split: prod.splits)
qed

section \<open>Arrays\<close>

text \<open>Every string of a device fits its array with the terminating zero.\<close>

definition device_fits :: "device_info \<Rightarrow> bool" where
  "device_fits d \<longleftrightarrow>
     length (d_bsd_name d) < M65_MAX_BSD_NAME \<and> length (d_raw_path d) < M65_MAX_IDENTITY \<and>
     length (d_registry_path d) < M65_MAX_REGISTRY_PATH \<and> length (d_media_name d) < M65_MAX_IDENTITY \<and>
     length (d_usb_manufacturer d) < M65_MAX_IDENTITY \<and> length (d_usb_product d) < M65_MAX_IDENTITY \<and>
     length (d_product_revision d) < M65_MAX_IDENTITY"

lemmas array_sizes = M65_MAX_BSD_NAME_def M65_MAX_IDENTITY_def M65_MAX_REGISTRY_PATH_def

lemma copy_cf_string_fits [simp]: "0 < n \<Longrightarrow> length (copy_cf_string v n) < n"
  by (simp add: copy_cf_string_def split: option.splits cf_value.splits)

lemma snprintf_fits [simp]: "0 < n \<Longrightarrow> length (snprintf_str n s) < n"
  by (simp add: snprintf_str_def)

lemma strip_media_fits [simp]: "length name < n \<Longrightarrow> length (strip_media name) < n"
  by (auto simp: strip_media_def Let_def)

lemma populate_fits: "device_fits d \<Longrightarrow> device_fits (populate_identity reg e d)"
  by (simp add: device_fits_def populate_identity_def Let_def recursive_string_def array_sizes)

lemma fill_fits: "device_fits d \<Longrightarrow> device_fits (snd (fill_da_description disks d))"
  by (simp add: device_fits_def fill_da_description_def Let_def split: option.splits)

lemma describe_medium_fits: "describe_medium reg disks m = Some d \<Longrightarrow> device_fits d"
proof -
  assume a: "describe_medium reg disks m = Some d"
  define d0 where "d0 = zero_device\<lparr>d_bsd_name := copy_cf_string (rg_property reg m BSDName) M65_MAX_BSD_NAME\<rparr>"
  define d1 where "d1 = (case dh_name disks m of None \<Rightarrow> d0
    | Some name \<Rightarrow> d0\<lparr>d_media_name := strip_media (snprintf_str M65_MAX_IDENTITY name)\<rparr>)"
  define d2 where "d2 = (case dh_path disks m of None \<Rightarrow> d1
    | Some path \<Rightarrow> d1\<lparr>d_registry_path := snprintf_str M65_MAX_REGISTRY_PATH path\<rparr>)"
  define d3 where "d3 = populate_identity reg m d2"
  define d4 where "d4 = d3\<lparr>d_raw_path := snprintf_str M65_MAX_IDENTITY (''/dev/r'' @ d_bsd_name d3)\<rparr>"
  define d5 where "d5 = snd (fill_da_description disks d4)"
  obtain r e where x: "dh_access disks (d_raw_path d5) = (r, e)" by force
  have d: "d = d5\<lparr>d_readable := r, d_permission_errno := (if r then 0 else e)\<rparr>"
    using a unfolding describe_medium_def Let_def d0_def [symmetric] d1_def [symmetric] d2_def [symmetric]
      d3_def [symmetric] d4_def [symmetric] d5_def [symmetric] x prod.case by (auto split: if_splits)
  have "device_fits d0" by (simp add: d0_def device_fits_def zero_device_def array_sizes)
  then have "device_fits d1" by (simp add: d1_def device_fits_def array_sizes split: option.splits)
  then have "device_fits d2" by (simp add: d2_def device_fits_def array_sizes split: option.splits)
  then have "device_fits d3" unfolding d3_def by (rule populate_fits)
  then have "device_fits d4" by (simp add: d4_def device_fits_def array_sizes)
  then have "device_fits d5" unfolding d5_def by (rule fill_fits)
  then show "device_fits d" by (simp add: d device_fits_def)
qed

text \<open>C25 Discovery stays inside its arrays, whatever strings the registry holds and however many media it
  lists: at most sixteen devices, whose strings and terminating zeros fit, and a detail that fits.\<close>

theorem discovered_devices_fit:
  "case m65_discover_devices reg disks of (found, items, detail) \<Rightarrow>
     length items \<le> M65_MAX_DEVICES \<and> list_all device_fits items \<and> length detail < M65_MAX_ERROR_TEXT"
proof -
  have "list_all device_fits (take n (filter P (List.map_filter (describe_medium reg disks) media)))" for n P media
    using describe_medium_fits by (fastforce simp: list_all_iff List.map_filter_def dest: in_set_takeD)
  then show ?thesis
    by (auto simp: m65_discover_devices_def discover_loop_eq length_error_text M65_MAX_ERROR_TEXT_def split: prod.splits)
qed

end
