(* ===== verification/M65_Cli.thy ===== *)
theory M65_Cli
  imports M65_Prelude
begin

text \<open>
  The command line (\<open>src/cli.c\<close>). \<open>argv\<close> is the list of its \<open>argc\<close> strings; the detail buffer is
  the caller's \<open>char[M65_MAX_ERROR_TEXT]\<close>, and receives a text only where parsing fails. A failed
  parse leaves what it had stored in the options, so the failure carries them too.
\<close>

section \<open>Options\<close>

datatype cli_command = CLI_LIST | CLI_INSPECT | CLI_TEST_1581

record cli_options =
  o_command :: cli_command
  o_device :: "string option"
  o_output :: "string option"
  o_json :: bool
  o_acknowledgement :: bool

definition zero_options :: cli_options where
  "zero_options = \<lparr>o_command = CLI_LIST, o_device = None, o_output = None, o_json = False,
                   o_acknowledgement = False\<rparr>"

type_synonym cli_result = "(string \<times> cli_options) + cli_options"

definition set_once :: "string option \<Rightarrow> string \<Rightarrow> string \<Rightarrow> string + string option" where
  "set_once destination value option_name =
     (if destination \<noteq> None then Inl (option_name @ '' was specified more than once'')
      else Inr (Some value))"

section \<open>Parsing\<close>

text \<open>The loop over the arguments behind the command.\<close>

fun cli_options_loop :: "string list \<Rightarrow> cli_options \<Rightarrow> cli_result" where
  "cli_options_loop [] options = Inr options"
| "cli_options_loop (arg # rest) options =
     (if arg = ''--json'' then
        if o_json options then Inl (''--json was specified more than once'', options)
        else cli_options_loop rest (options\<lparr>o_json := True\<rparr>)
      else if arg = ''--ack-temporary-controller-change'' then
        if o_acknowledgement options
        then Inl (''acknowledgement flag was specified more than once'', options)
        else cli_options_loop rest (options\<lparr>o_acknowledgement := True\<rparr>)
      else if arg = ''--device'' then
        (case rest of
           [] \<Rightarrow> Inl (''--device requires a BSD name'', options)
         | value # rest \<Rightarrow>
             (case set_once (o_device options) value ''--device'' of
                Inl detail \<Rightarrow> Inl (detail, options)
              | Inr destination \<Rightarrow> cli_options_loop rest (options\<lparr>o_device := destination\<rparr>)))
      else if arg = ''--output'' then
        (case rest of
           [] \<Rightarrow> Inl (''--output requires a file path'', options)
         | value # rest \<Rightarrow>
             (case set_once (o_output options) value ''--output'' of
                Inl detail \<Rightarrow> Inl (detail, options)
              | Inr destination \<Rightarrow> cli_options_loop rest (options\<lparr>o_output := destination\<rparr>)))
      else Inl (error_text (''unknown option: '' @ arg), options))"

definition cli_requirements :: "cli_options \<Rightarrow> cli_result" where
  "cli_requirements options =
     (if o_command options = CLI_LIST then
        if o_device options \<noteq> None \<or> o_output options \<noteq> None \<or> o_acknowledgement options
        then Inl (''list accepts only the optional --json flag'', options)
        else Inr options
      else if o_device options = None then
        Inl ((if o_command options = CLI_INSPECT then ''inspect'' else ''test-1581'') @
             '' requires --device <bsd-name>'', options)
      else if o_command options = CLI_INSPECT then
        if o_output options \<noteq> None \<or> o_acknowledgement options
        then Inl (''inspect does not accept --output or the acknowledgement flag'', options)
        else Inr options
      else if \<not> o_acknowledgement options
      then Inl (''test-1581 requires --ack-temporary-controller-change'', options)
      else Inr options)"

definition m65_cli_parse :: "string list \<Rightarrow> cli_result" where
  "m65_cli_parse argv =
     (case argv of
        program # command # rest \<Rightarrow>
          (case (if command = ''list'' then Some CLI_LIST
                 else if command = ''inspect'' then Some CLI_INSPECT
                 else if command = ''test-1581'' then Some CLI_TEST_1581
                 else None) of
             None \<Rightarrow> Inl (error_text (''unknown command: '' @ command), zero_options)
           | Some c \<Rightarrow>
               (case cli_options_loop rest (zero_options\<lparr>o_command := c\<rparr>) of
                  Inl failure \<Rightarrow> Inl failure
                | Inr options \<Rightarrow> cli_requirements options))
      | _ \<Rightarrow> Inl (''missing command'', zero_options))"

definition m65_cli_usage :: "string \<Rightarrow> string" where
  "m65_cli_usage program =
     (let nl = [CHR 0x0a]
      in ''Usage:'' @ nl @
         ''  '' @ program @ '' list [--json]'' @ nl @
         ''  '' @ program @ '' inspect --device <bsd-name> [--json]'' @ nl @
         ''  '' @ program @ '' test-1581 --device <bsd-name> '' @
         ''--ack-temporary-controller-change [--json] [--output <new-file.d81>]'' @ nl)"

section \<open>Command lines as options\<close>

text \<open>What a well-formed command line says: a list of options in any order.\<close>

datatype cli_token = TokJson | TokAck | TokDevice string | TokOutput string

fun token_words :: "cli_token \<Rightarrow> string list" where
  "token_words TokJson = [''--json'']"
| "token_words TokAck = [''--ack-temporary-controller-change'']"
| "token_words (TokDevice s) = [''--device'', s]"
| "token_words (TokOutput s) = [''--output'', s]"

text \<open>An option may be given once.\<close>

fun apply_token :: "cli_token \<Rightarrow> cli_options \<Rightarrow> cli_options option" where
  "apply_token TokJson opts = (if o_json opts then None else Some (opts\<lparr>o_json := True\<rparr>))"
| "apply_token TokAck opts =
     (if o_acknowledgement opts then None else Some (opts\<lparr>o_acknowledgement := True\<rparr>))"
| "apply_token (TokDevice s) opts =
     (if o_device opts \<noteq> None then None else Some (opts\<lparr>o_device := Some s\<rparr>))"
| "apply_token (TokOutput s) opts =
     (if o_output opts \<noteq> None then None else Some (opts\<lparr>o_output := Some s\<rparr>))"

fun apply_tokens :: "cli_token list \<Rightarrow> cli_options \<Rightarrow> cli_options option" where
  "apply_tokens [] opts = Some opts"
| "apply_tokens (t # ts) opts = Option.bind (apply_token t opts) (apply_tokens ts)"

text \<open>The combinations the three commands accept.\<close>

definition permitted :: "cli_options \<Rightarrow> bool" where
  "permitted opts \<longleftrightarrow>
     (case o_command opts of
        CLI_LIST \<Rightarrow> o_device opts = None \<and> o_output opts = None \<and> \<not> o_acknowledgement opts
      | CLI_INSPECT \<Rightarrow> o_device opts \<noteq> None \<and> o_output opts = None \<and> \<not> o_acknowledgement opts
      | CLI_TEST_1581 \<Rightarrow> o_device opts \<noteq> None \<and> o_acknowledgement opts)"

fun command_word :: "cli_command \<Rightarrow> string" where
  "command_word CLI_LIST = ''list''"
| "command_word CLI_INSPECT = ''inspect''"
| "command_word CLI_TEST_1581 = ''test-1581''"

lemma cli_loop_tokens:
  "cli_options_loop (token_words t @ rest) opts =
     (case apply_token t opts of
        Some opts' \<Rightarrow> cli_options_loop rest opts'
      | None \<Rightarrow> cli_options_loop (token_words t @ rest) opts)"
  by (cases t) (auto simp: set_once_def)

lemma cli_loop_apply:
  "apply_tokens ts opts = Some opts' \<Longrightarrow> cli_options_loop (concat (map token_words ts)) opts = Inr opts'"
proof (induction ts arbitrary: opts)
  case (Cons t ts)
  then obtain o1 where o1: "apply_token t opts = Some o1" "apply_tokens ts o1 = Some opts'"
    by (auto split: Option.bind_splits)
  with cli_loop_tokens [of t "concat (map token_words ts)" opts] Cons.IH [OF o1(2)] show ?case
    by (simp del: cli_options_loop.simps)
qed simp

lemma cli_loop_only_tokens:
  "cli_options_loop args opts = Inr opts' \<Longrightarrow>
     \<exists>ts. args = concat (map token_words ts) \<and> apply_tokens ts opts = Some opts'"
proof (induction args opts rule: cli_options_loop.induct)
  case (1 opts)
  then show ?case by (intro exI [of _ "[]"]) simp
next
  case (2 arg rest opts)
  have step: ?case if words: "arg # rest = token_words t @ rest'" and one: "apply_token t opts = Some o1"
    and more: "\<exists>ts. rest' = concat (map token_words ts) \<and> apply_tokens ts o1 = Some opts'" for t rest' o1
  proof -
    obtain ts where "rest' = concat (map token_words ts)" "apply_tokens ts o1 = Some opts'" using more by auto
    with words one show ?thesis by (intro exI [of _ "t # ts"]) simp
  qed
  consider (json) "arg = ''--json''" | (ack) "arg = ''--ack-temporary-controller-change''"
    | (device) "arg = ''--device''" | (out) "arg = ''--output''"
    | (other) "arg \<notin> {''--json'', ''--ack-temporary-controller-change'', ''--device'', ''--output''}"
    by blast
  then show ?case
  proof cases
    case json
    then have "\<not> o_json opts" using "2.prems" by auto
    with json "2.prems" "2.IH"(1) show ?thesis by (intro step [of TokJson rest]) auto
  next
    case ack
    then have "\<not> o_acknowledgement opts" using "2.prems" by auto
    with ack "2.prems" "2.IH"(2) show ?thesis by (intro step [of TokAck rest]) auto
  next
    case device
    then obtain v rest' where v: "rest = v # rest'" using "2.prems" by (cases rest) auto
    then have "o_device opts = None" using "2.prems" device by (auto simp: set_once_def split: if_splits)
    with device v "2.prems" "2.IH"(3) show ?thesis
      by (intro step [of "TokDevice v" rest']) (auto simp: set_once_def)
  next
    case out
    then obtain v rest' where v: "rest = v # rest'" using "2.prems" by (cases rest) auto
    then have "o_output opts = None" using "2.prems" out by (auto simp: set_once_def split: if_splits)
    with out v "2.prems" "2.IH"(4) show ?thesis
      by (intro step [of "TokOutput v" rest']) (auto simp: set_once_def)
  next
    case other
    with "2.prems" show ?thesis by simp
  qed
qed

lemma cli_requirements_iff: "cli_requirements opts = Inr opts' \<longleftrightarrow> opts' = opts \<and> permitted opts"
  by (cases "o_command opts") (auto simp: cli_requirements_def permitted_def)

text \<open>C37 A command line is accepted exactly when it is a command followed by options in any order,
  each at most once, in a combination the command permits; the result is then what they say. The
  1581 test is never accepted without the acknowledgement and a device, and no other command with it.\<close>

theorem cli_parse_accepts_iff:
  "m65_cli_parse argv = Inr opts \<longleftrightarrow>
     (\<exists>program ts. argv = program # command_word (o_command opts) # concat (map token_words ts) \<and>
        apply_tokens ts (zero_options\<lparr>o_command := o_command opts\<rparr>) = Some opts \<and> permitted opts)"
  (is "?l = ?r")
proof
  assume ?l
  then obtain program command rest where a: "argv = program # command # rest"
    by (auto simp: m65_cli_parse_def split: list.splits)
  obtain c where c: "command = command_word c"
      "(case cli_options_loop rest (zero_options\<lparr>o_command := c\<rparr>) of
          Inl failure \<Rightarrow> Inl failure | Inr options \<Rightarrow> cli_requirements options) = Inr opts"
  proof -
    consider "command = ''list''" | "command = ''inspect''" | "command = ''test-1581''"
      | "command \<notin> {''list'', ''inspect'', ''test-1581''}" by blast
    then show thesis
      using \<open>?l\<close> a that [of CLI_LIST] that [of CLI_INSPECT] that [of CLI_TEST_1581]
      by cases (simp_all add: m65_cli_parse_def)
  qed
  then obtain o1 where o1: "cli_options_loop rest (zero_options\<lparr>o_command := c\<rparr>) = Inr o1" "o1 = opts" "permitted opts"
    by (auto simp: cli_requirements_iff split: sum.splits)
  from cli_loop_only_tokens [OF o1(1)] obtain ts where
    ts: "rest = concat (map token_words ts)" "apply_tokens ts (zero_options\<lparr>o_command := c\<rparr>) = Some opts"
    using o1(2) by auto
  have "apply_token t x = Some y \<Longrightarrow> o_command y = o_command x" for t x y
    by (cases t) (auto split: if_splits)
  then have "apply_tokens us x = Some y \<Longrightarrow> o_command y = o_command x" for us x y
    by (induction us arbitrary: x) (auto split: Option.bind_splits)
  from this [OF ts(2)] have "c = o_command opts" by simp
  with a c ts o1 show ?r by auto
next
  assume ?r
  then obtain program ts where r: "argv = program # command_word (o_command opts) # concat (map token_words ts)"
    "apply_tokens ts (zero_options\<lparr>o_command := o_command opts\<rparr>) = Some opts" "permitted opts" by auto
  have "cli_requirements opts = Inr opts" using r(3) by (simp add: cli_requirements_iff)
  with r(1) cli_loop_apply [OF r(2)] show ?l
    by (cases "o_command opts") (simp_all add: m65_cli_parse_def)
qed

end
