(* ===== verification/M65_Json.thy ===== *)
theory M65_Json
  imports M65_Prelude
begin

text \<open>
  The streaming JSON writer (\<open>src/json.c\<close>): its growing buffer, the escaping of strings and the
  stack of open containers.

  The buffer is its first \<open>length\<close> bytes, the terminating NUL behind them not included; None is a
  NULL pointer. \<open>malloc\<close> and \<open>realloc\<close> are a parameter that says whether a block of a given size
  can be had: a writer asks for each size at most once, since a refusal fails it for good and its
  capacity only grows. \<open>size_t\<close> has 64 bits; the code checks its sums itself, so they are \<open>nat\<close>
  with \<open>SIZE_MAX\<close> as the bound. A \<open>bool\<close> function returns its result and the writer.
\<close>

definition SIZE_MAX :: nat where "SIZE_MAX = 2 ^ 64 - 1"
definition M65_JSON_MAX_DEPTH :: nat where "M65_JSON_MAX_DEPTH = 16"

datatype json_container = JSON_OBJECT | JSON_ARRAY

record json =
  j_data :: "string option"
  j_capacity :: nat
  j_containers :: "json_container option list"
  j_counts :: "nat list"
  j_expecting_value :: "bool list"
  j_depth :: nat
  j_root_written :: bool
  j_failed :: bool

definition json_text :: "json \<Rightarrow> string" where
  "json_text json = (case j_data json of None \<Rightarrow> [] | Some s \<Rightarrow> s)"

definition json_fail :: "json \<Rightarrow> bool \<times> json" where
  "json_fail json = (False, json\<lparr>j_failed := True\<rparr>)"

definition zero_json :: json where
  "zero_json = \<lparr>j_data = None, j_capacity = 0, j_containers = replicate M65_JSON_MAX_DEPTH None,
     j_counts = replicate M65_JSON_MAX_DEPTH 0, j_expecting_value = replicate M65_JSON_MAX_DEPTH False,
     j_depth = 0, j_root_written = False, j_failed = False\<rparr>"

section \<open>The buffer\<close>

text \<open>The doubling loop. It does not return for capacity 0, which only a writer has that was never
  initialised or was destroyed; Some None is the overflow exit.\<close>

partial_function (option) grow_capacity :: "nat \<Rightarrow> nat \<Rightarrow> nat option option" where
  "grow_capacity new_capacity required =
     (if new_capacity < required then
        (if new_capacity > SIZE_MAX div 2 then Some None
         else grow_capacity (new_capacity * 2) required)
      else Some (Some new_capacity))"

declare grow_capacity.simps [code]

definition reserve :: "(nat \<Rightarrow> bool) \<Rightarrow> nat \<Rightarrow> json \<Rightarrow> bool \<times> json" where
  "reserve alloc extra json =
     (let len = length (json_text json)
      in if j_failed json \<or> extra > SIZE_MAX - len - 1 then json_fail json
         else
           let required = len + extra + 1
           in if required \<le> j_capacity json then (True, json)
              else
                (case the (grow_capacity (j_capacity json) required) of
                   None \<Rightarrow> json_fail json
                 | Some new_capacity \<Rightarrow>
                     if \<not> alloc new_capacity then json_fail json
                     else (True, json\<lparr>j_capacity := new_capacity\<rparr>)))"

definition append_bytes :: "(nat \<Rightarrow> bool) \<Rightarrow> string \<Rightarrow> json \<Rightarrow> bool \<times> json" where
  "append_bytes alloc data json =
     (case reserve alloc (length data) json of
        (False, json) \<Rightarrow> (False, json)
      | (True, json) \<Rightarrow> (True, json\<lparr>j_data := Some (json_text json @ data)\<rparr>))"

definition append_text :: "(nat \<Rightarrow> bool) \<Rightarrow> string \<Rightarrow> json \<Rightarrow> bool \<times> json" where
  "append_text alloc text json = append_bytes alloc text json"

definition append_char :: "(nat \<Rightarrow> bool) \<Rightarrow> char \<Rightarrow> json \<Rightarrow> bool \<times> json" where
  "append_char alloc value json = append_bytes alloc [value] json"

text \<open>\<open>first && second\<close> of two calls on the writer.\<close>

definition and_then :: "('a \<Rightarrow> bool \<times> 'a) \<Rightarrow> ('a \<Rightarrow> bool \<times> 'a) \<Rightarrow> 'a \<Rightarrow> bool \<times> 'a" where
  "and_then first second a = (case first a of (True, a) \<Rightarrow> second a | (False, a) \<Rightarrow> (False, a))"

section \<open>Strings\<close>

definition escape_char :: "char \<Rightarrow> string" where
  "escape_char c =
     (let code = (of_char c :: nat)
      in if code = 0x22 then [CHR 0x5c, CHR 0x22]
         else if code = 0x5c then [CHR 0x5c, CHR 0x5c]
         else if code = 0x08 then [CHR 0x5c, CHR ''b'']
         else if code = 0x0c then [CHR 0x5c, CHR ''f'']
         else if code = 0x0a then [CHR 0x5c, CHR ''n'']
         else if code = 0x0d then [CHR 0x5c, CHR ''r'']
         else if code = 0x09 then [CHR 0x5c, CHR ''t'']
         else if code < 0x20 then [CHR 0x5c, CHR ''u''] @ hex_digits 4 code
         else [c])"

fun append_escaped_loop :: "(nat \<Rightarrow> bool) \<Rightarrow> string \<Rightarrow> json \<Rightarrow> bool \<times> json" where
  "append_escaped_loop alloc [] json = (True, json)"
| "append_escaped_loop alloc (c # cs) json =
     and_then (append_text alloc (escape_char c)) (append_escaped_loop alloc cs) json"

definition append_escaped :: "(nat \<Rightarrow> bool) \<Rightarrow> string \<Rightarrow> json \<Rightarrow> bool \<times> json" where
  "append_escaped alloc value =
     and_then (append_char alloc CHR 0x22)
       (and_then (append_escaped_loop alloc value) (append_char alloc CHR 0x22))"

section \<open>Containers and values\<close>

definition before_value :: "(nat \<Rightarrow> bool) \<Rightarrow> json \<Rightarrow> bool \<times> json" where
  "before_value alloc json =
     (if j_failed json then (False, json)
      else if j_depth json = 0 then
        if j_root_written json then json_fail json
        else (True, json\<lparr>j_root_written := True\<rparr>)
      else
        let index = j_depth json - 1
        in if j_containers json ! index = Some JSON_OBJECT then
             if \<not> j_expecting_value json ! index then json_fail json
             else (True, json\<lparr>j_expecting_value := (j_expecting_value json)[index := False],
                              j_counts := (j_counts json)[index := j_counts json ! index + 1]\<rparr>)
           else
             (case (if j_counts json ! index > 0 then append_char alloc CHR '','' json else (True, json)) of
                (False, json) \<Rightarrow> (False, json)
              | (True, json) \<Rightarrow>
                  (True, json\<lparr>j_counts := (j_counts json)[index := j_counts json ! index + 1]\<rparr>)))"

definition m65_json_init :: "(nat \<Rightarrow> bool) \<Rightarrow> bool \<times> json" where
  "m65_json_init alloc =
     (let json = zero_json\<lparr>j_capacity := 256\<rparr>
      in if \<not> alloc 256 then json_fail json else (True, json\<lparr>j_data := Some []\<rparr>))"

definition m65_json_destroy :: "json \<Rightarrow> json" where
  "m65_json_destroy json = zero_json"

definition begin_container :: "(nat \<Rightarrow> bool) \<Rightarrow> json_container \<Rightarrow> char \<Rightarrow> json \<Rightarrow> bool \<times> json" where
  "begin_container alloc container token json =
     (if j_depth json \<ge> M65_JSON_MAX_DEPTH then json_fail json
      else
        (case and_then (before_value alloc) (append_char alloc token) json of
           (False, json) \<Rightarrow> json_fail json
         | (True, json) \<Rightarrow>
             let d = j_depth json
             in (True, json\<lparr>j_containers := (j_containers json)[d := Some container],
                            j_counts := (j_counts json)[d := 0],
                            j_expecting_value := (j_expecting_value json)[d := False],
                            j_depth := d + 1\<rparr>)))"

definition m65_json_begin_object :: "(nat \<Rightarrow> bool) \<Rightarrow> json \<Rightarrow> bool \<times> json" where
  "m65_json_begin_object alloc = begin_container alloc JSON_OBJECT CHR ''{''"

definition m65_json_begin_array :: "(nat \<Rightarrow> bool) \<Rightarrow> json \<Rightarrow> bool \<times> json" where
  "m65_json_begin_array alloc = begin_container alloc JSON_ARRAY CHR ''[''"

definition end_container :: "(nat \<Rightarrow> bool) \<Rightarrow> json_container \<Rightarrow> char \<Rightarrow> json \<Rightarrow> bool \<times> json" where
  "end_container alloc container token json =
     (if j_depth json = 0 then (False, json)
      else
        let index = j_depth json - 1
        in if j_containers json ! index \<noteq> Some container \<or> j_expecting_value json ! index
           then json_fail json
           else append_char alloc token (json\<lparr>j_depth := index\<rparr>))"

definition m65_json_end_object :: "(nat \<Rightarrow> bool) \<Rightarrow> json \<Rightarrow> bool \<times> json" where
  "m65_json_end_object alloc = end_container alloc JSON_OBJECT CHR ''}''"

definition m65_json_end_array :: "(nat \<Rightarrow> bool) \<Rightarrow> json \<Rightarrow> bool \<times> json" where
  "m65_json_end_array alloc = end_container alloc JSON_ARRAY CHR '']''"

definition m65_json_key :: "(nat \<Rightarrow> bool) \<Rightarrow> string option \<Rightarrow> json \<Rightarrow> bool \<times> json" where
  "m65_json_key alloc key json =
     (case key of
        None \<Rightarrow> (False, json)
      | Some k \<Rightarrow>
          if j_depth json = 0 then (False, json)
          else
            let index = j_depth json - 1
            in if j_containers json ! index \<noteq> Some JSON_OBJECT \<or> j_expecting_value json ! index
               then json_fail json
               else
                 (case and_then
                     (\<lambda>json. if j_counts json ! index > 0 then append_char alloc CHR '','' json
                             else (True, json))
                     (and_then (append_escaped alloc k) (append_char alloc CHR '':'')) json of
                    (False, json) \<Rightarrow> (False, json)
                  | (True, json) \<Rightarrow>
                      (True, json\<lparr>j_expecting_value := (j_expecting_value json)[index := True]\<rparr>)))"

definition m65_json_string :: "(nat \<Rightarrow> bool) \<Rightarrow> string option \<Rightarrow> json \<Rightarrow> bool \<times> json" where
  "m65_json_string alloc value json =
     (case value of
        None \<Rightarrow> (False, json)
      | Some s \<Rightarrow> and_then (before_value alloc) (append_escaped alloc s) json)"

definition m65_json_uint :: "(nat \<Rightarrow> bool) \<Rightarrow> 64 word \<Rightarrow> json \<Rightarrow> bool \<times> json" where
  "m65_json_uint alloc value =
     and_then (before_value alloc) (append_text alloc (dec_string (unat value)))"

definition m65_json_int :: "(nat \<Rightarrow> bool) \<Rightarrow> 64 word \<Rightarrow> json \<Rightarrow> bool \<times> json" where
  "m65_json_int alloc value =
     and_then (before_value alloc)
       (append_text alloc
         (if sint value < 0 then CHR ''-'' # dec_string (nat (- sint value))
          else dec_string (nat (sint value))))"

definition m65_json_bool :: "(nat \<Rightarrow> bool) \<Rightarrow> bool \<Rightarrow> json \<Rightarrow> bool \<times> json" where
  "m65_json_bool alloc value =
     and_then (before_value alloc) (append_text alloc (if value then ''true'' else ''false''))"

definition m65_json_null :: "(nat \<Rightarrow> bool) \<Rightarrow> json \<Rightarrow> bool \<times> json" where
  "m65_json_null alloc = and_then (before_value alloc) (append_text alloc ''null'')"

definition m65_json_finish :: "json \<Rightarrow> bool" where
  "m65_json_finish json \<longleftrightarrow> \<not> j_failed json \<and> j_root_written json \<and> j_depth json = 0"

definition m65_json_data :: "json \<Rightarrow> string" where
  "m65_json_data json = json_text json"

end
