(* ===== verification/M65_JsonRefine.thy ===== *)
theory M65_JsonRefine
  imports M65_Json
begin

text \<open>
  The documents the JSON writer produces: JSON values and their text as the specification, the
  writer's buffer and container stack as a refinement of it.
\<close>

section \<open>JSON values and their text\<close>

datatype jvalue =
    JObj "(string \<times> jvalue) list" | JArr "jvalue list" | JStr string | JNum int | JBool bool | JNull

fun join_comma :: "string list \<Rightarrow> string" where
  "join_comma [] = []"
| "join_comma [s] = s"
| "join_comma (s # t # ss) = s @ CHR '','' # join_comma (t # ss)"

lemma join_comma_snoc [simp]:
  "join_comma (ss @ [s]) = (if ss = [] then s else join_comma ss @ CHR '','' # s)"
  by (induction ss rule: join_comma.induct) auto

definition quote :: "string \<Rightarrow> string" where
  "quote s = CHR 0x22 # concat (map escape_char s) @ [CHR 0x22]"

definition int_text :: "int \<Rightarrow> string" where
  "int_text n = (if n < 0 then CHR ''-'' # dec_string (nat (- n)) else dec_string (nat n))"

fun render :: "jvalue \<Rightarrow> string" where
  "render (JObj ms) = CHR ''{'' # join_comma (map (\<lambda>(k, v). quote k @ CHR '':'' # render v) ms) @ [CHR ''}'']"
| "render (JArr vs) = CHR ''['' # join_comma (map render vs) @ [CHR '']'']"
| "render (JStr s) = quote s"
| "render (JNum n) = int_text n"
| "render (JBool b) = (if b then ''true'' else ''false'')"
| "render JNull = ''null''"

section \<open>Appending\<close>

text \<open>A writer in use: it has not failed and its text and NUL fit its capacity.\<close>

definition buffer_ok :: "json \<Rightarrow> bool" where
  "buffer_ok j \<longleftrightarrow> \<not> j_failed j \<and> j_data j \<noteq> None \<and> length (json_text j) < j_capacity j"

text \<open>What appending \<open>s\<close> may do to such a writer.\<close>

definition same_stack :: "json \<Rightarrow> json \<Rightarrow> bool" where
  "same_stack j j' \<longleftrightarrow> j_containers j' = j_containers j \<and> j_counts j' = j_counts j \<and>
     j_expecting_value j' = j_expecting_value j \<and> j_depth j' = j_depth j \<and>
     j_root_written j' = j_root_written j"

definition appends :: "string \<Rightarrow> json \<Rightarrow> bool \<times> json \<Rightarrow> bool" where
  "appends s j x \<longleftrightarrow>
     (case x of (b, j') \<Rightarrow>
        if b then buffer_ok j' \<and> j_data j' = Some (json_text j @ s) \<and> same_stack j j'
        else j_failed j')"

lemma json_text_simps [simp]:
  "json_text (j\<lparr>j_data := Some s\<rparr>) = s" "json_text (j\<lparr>j_capacity := c\<rparr>) = json_text j"
  "json_text (j\<lparr>j_containers := cs\<rparr>) = json_text j" "json_text (j\<lparr>j_counts := ns\<rparr>) = json_text j"
  "json_text (j\<lparr>j_expecting_value := es\<rparr>) = json_text j" "json_text (j\<lparr>j_depth := d\<rparr>) = json_text j"
  "json_text (j\<lparr>j_root_written := r\<rparr>) = json_text j"
  by (simp_all add: json_text_def)

lemma json_fail_simps [simp]: "fst (json_fail j) = False" "j_failed (snd (json_fail j))"
  by (simp_all add: json_fail_def)

text \<open>The doubling loop returns, with room for what was asked or with the overflow it detects.\<close>

lemma grow_capacity_returns:
  assumes "0 < cap"
  shows "\<exists>r. grow_capacity cap req = Some r \<and> (case r of None \<Rightarrow> SIZE_MAX div 2 < req | Some c \<Rightarrow> req \<le> c)"
  using assms
proof (induction "req - cap" arbitrary: cap rule: less_induct)
  case less
  show ?case
  proof (cases "cap < req \<and> \<not> cap > SIZE_MAX div 2")
    case True
    then have "req - cap * 2 < req - cap" "0 < cap * 2" using less.prems by auto
    from less.hyps [OF this] show ?thesis using True
      by (subst grow_capacity.simps) simp
  next
    case False
    then show ?thesis by (subst grow_capacity.simps) auto
  qed
qed

lemma reserve_appends:
  assumes "buffer_ok j"
  shows "case reserve alloc extra j of (b, j') \<Rightarrow>
     if b then \<exists>c. j' = j\<lparr>j_capacity := c\<rparr> \<and> length (json_text j) + extra < c else j_failed j'"
proof -
  let ?req = "length (json_text j) + extra + 1"
  have "0 < j_capacity j" using assms by (simp add: buffer_ok_def)
  then obtain r where g: "grow_capacity (j_capacity j) ?req = Some r" "case r of None \<Rightarrow> True | Some c \<Rightarrow> ?req \<le> c"
    using grow_capacity_returns [of "j_capacity j" ?req] by (fastforce split: option.splits)
  have "j = j\<lparr>j_capacity := j_capacity j\<rparr>" by simp
  with assms g show ?thesis
    by (auto simp: reserve_def Let_def json_fail_def buffer_ok_def split: option.splits
        intro: exI [of _ "j_capacity j"])
qed

text \<open>A step of the writer that appends \<open>s\<close>.\<close>

definition writes :: "string \<Rightarrow> (json \<Rightarrow> bool \<times> json) \<Rightarrow> bool" where
  "writes s f \<longleftrightarrow> (\<forall>j. buffer_ok j \<longrightarrow> appends s j (f j))"

lemma writesD: "writes s f \<Longrightarrow> buffer_ok j \<Longrightarrow> appends s j (f j)"
  by (simp add: writes_def)

lemma append_bytes_writes: "writes s (append_bytes alloc s)"
  unfolding writes_def
proof (intro allI impI)
  fix j assume b: "buffer_ok j"
  show "appends s j (append_bytes alloc s j)"
    using reserve_appends [OF b, where alloc = alloc and extra = "length s"] b
    by (auto simp: append_bytes_def appends_def buffer_ok_def same_stack_def split: prod.splits bool.splits)
qed

lemma append_bytes_failed: "j_failed j \<Longrightarrow> append_bytes alloc s j = (False, j)"
  by (simp add: append_bytes_def reserve_def json_fail_def Let_def)

lemma appends_buffer_ok: "appends s j (True, j') \<Longrightarrow> buffer_ok j'"
  by (simp add: appends_def)

lemma and_then_writes:
  assumes "writes s f" and "writes t g"
  shows "writes (s @ t) (and_then f g)"
  unfolding writes_def
proof (intro allI impI)
  fix j assume b: "buffer_ok j"
  obtain ok j' where j': "f j = (ok, j')" by force
  show "appends (s @ t) j (and_then f g j)"
  proof (cases ok)
    case False
    with writesD [OF assms(1) b] j' show ?thesis by (simp add: and_then_def appends_def)
  next
    case True
    with writesD [OF assms(1) b] j' writesD [OF assms(2), of j'] show ?thesis
      by (auto simp: and_then_def appends_def same_stack_def json_text_def split: prod.splits)
  qed
qed

lemma append_text_writes: "writes s (append_text alloc s)"
  by (simp add: append_text_def [abs_def] append_bytes_writes)

lemma append_char_writes: "writes [c] (append_char alloc c)"
  by (simp add: append_char_def [abs_def] append_bytes_writes)

lemma skip_writes: "writes [] (\<lambda>j. (True, j))"
  by (auto simp: writes_def appends_def buffer_ok_def same_stack_def json_text_def)

lemma append_escaped_loop_writes: "writes (concat (map escape_char s)) (append_escaped_loop alloc s)"
proof (induction s)
  case (Cons c s)
  have "append_escaped_loop alloc (c # s) = and_then (append_text alloc (escape_char c)) (append_escaped_loop alloc s)"
    by (rule ext) simp
  with and_then_writes [OF append_text_writes Cons] show ?case by simp
next
  case Nil
  have "append_escaped_loop alloc [] = (\<lambda>j. (True, j))" by (rule ext) simp
  with skip_writes show ?case by simp
qed

lemma append_escaped_writes: "writes (quote s) (append_escaped alloc s)"
  unfolding append_escaped_def quote_def
  using and_then_writes [OF append_char_writes and_then_writes
      [OF append_escaped_loop_writes append_char_writes]]
  by simp


section \<open>Open documents\<close>

text \<open>An open container with what it holds so far; an object may have written a key.\<close>

datatype frame = FObj "(string \<times> jvalue) list" "string option" | FArr "jvalue list"

fun kind :: "frame \<Rightarrow> json_container" where
  "kind (FObj ms p) = JSON_OBJECT"
| "kind (FArr vs) = JSON_ARRAY"

fun count :: "frame \<Rightarrow> nat" where
  "count (FObj ms p) = length ms"
| "count (FArr vs) = length vs"

fun pending :: "frame \<Rightarrow> bool" where
  "pending (FObj ms p) = (p \<noteq> None)"
| "pending (FArr vs) = False"

definition accepts :: "frame \<Rightarrow> bool" where
  "accepts f \<longleftrightarrow> kind f = JSON_ARRAY \<or> pending f"

fun put :: "jvalue \<Rightarrow> frame \<Rightarrow> frame" where
  "put v (FObj ms p) = (case p of None \<Rightarrow> FObj ms p | Some k \<Rightarrow> FObj (ms @ [(k, v)]) None)"
| "put v (FArr vs) = FArr (vs @ [v])"

fun closed :: "frame \<Rightarrow> jvalue" where
  "closed (FObj ms p) = JObj ms"
| "closed (FArr vs) = JArr vs"

fun open_text :: "frame \<Rightarrow> string" where
  "open_text (FObj ms p) =
     CHR ''{'' # join_comma (map (\<lambda>(k, v). quote k @ CHR '':'' # render v) ms) @
       (case p of None \<Rightarrow> [] | Some k \<Rightarrow> (if ms = [] then [] else [CHR '','']) @ quote k @ [CHR '':''])"
| "open_text (FArr vs) = CHR ''['' # join_comma (map render vs)"

text \<open>The text of a container up to the value inside it that is being written.\<close>

definition below_text :: "frame \<Rightarrow> string" where
  "below_text f = open_text f @ (case f of FArr (v # vs) \<Rightarrow> [CHR '',''] | _ \<Rightarrow> [])"

definition outer_text :: "frame list \<Rightarrow> string" where
  "outer_text fs = concat (map below_text (rev fs))"

text \<open>A document: the open containers, innermost first, and the finished root.\<close>

type_synonym doc = "frame list \<times> jvalue option"

fun doc_text :: "doc \<Rightarrow> string" where
  "doc_text ([], None) = []"
| "doc_text ([], Some v) = render v"
| "doc_text (f # fs, root) = outer_text fs @ open_text f"

fun doc_put :: "jvalue \<Rightarrow> frame list \<Rightarrow> doc" where
  "doc_put v [] = ([], Some v)"
| "doc_put v (f # fs) = (put v f # fs, None)"

fun doc_accepts :: "doc \<Rightarrow> bool" where
  "doc_accepts ([], root) = (root = None)"
| "doc_accepts (f # fs, root) = accepts f"

lemma outer_text_Cons [simp]: "outer_text (f # fs) = outer_text fs @ below_text f"
  by (simp add: outer_text_def)

lemma outer_text_Nil [simp]: "outer_text [] = []"
  by (simp add: outer_text_def)

lemma open_text_put: "accepts f \<Longrightarrow> open_text (put v f) = below_text f @ render v"
  by (cases f) (auto simp: accepts_def below_text_def split: option.splits list.splits)

lemma put_simps [simp]:
  "kind (put v f) = kind f" "accepts f \<Longrightarrow> count (put v f) = Suc (count f)" "accepts f \<Longrightarrow> \<not> pending (put v f)"
  by (cases f; auto simp: accepts_def split: option.splits)+

lemma open_text_close:
  "\<not> pending f \<Longrightarrow> open_text f @ [if kind f = JSON_OBJECT then CHR ''}'' else CHR '']''] = render (closed f)"
  by (cases f) (auto split: option.splits)

section \<open>The writer refines the document\<close>

fun frames_ok :: "bool \<Rightarrow> json \<Rightarrow> frame list \<Rightarrow> bool" where
  "frames_ok inner j [] \<longleftrightarrow> True"
| "frames_ok inner j (f # fs) \<longleftrightarrow>
     j_containers j ! length fs = Some (kind f) \<and>
     j_counts j ! length fs = (if inner then count f else Suc (count f)) \<and>
     j_expecting_value j ! length fs = (inner \<and> pending f) \<and> frames_ok False j fs"

definition stack_ok :: "json \<Rightarrow> frame list \<Rightarrow> bool" where
  "stack_ok j fs \<longleftrightarrow> j_depth j = length fs \<and> length fs \<le> M65_JSON_MAX_DEPTH \<and>
     length (j_containers j) = M65_JSON_MAX_DEPTH \<and> length (j_counts j) = M65_JSON_MAX_DEPTH \<and>
     length (j_expecting_value j) = M65_JSON_MAX_DEPTH"

fun refines :: "json \<Rightarrow> doc \<Rightarrow> bool" where
  "refines j (fs, root) \<longleftrightarrow> buffer_ok j \<and> json_text j = doc_text (fs, root) \<and> stack_ok j fs \<and>
     frames_ok True j fs \<and> (j_root_written j \<longleftrightarrow> fs \<noteq> [] \<or> root \<noteq> None) \<and> (fs \<noteq> [] \<longrightarrow> root = None) \<and>
     list_all accepts (tl fs)"

text \<open>A value may be written next into the innermost container.\<close>

definition ready :: "string \<Rightarrow> json \<Rightarrow> frame list \<Rightarrow> bool" where
  "ready s j fs \<longleftrightarrow> buffer_ok j \<and> json_text j = outer_text fs @ s \<and> stack_ok j fs \<and>
     frames_ok False j fs \<and> j_root_written j \<and> list_all accepts fs"

lemma frames_ok_cong:
  assumes "\<And>i. i < length fs \<Longrightarrow> j_containers j' ! i = j_containers j ! i \<and>
    j_counts j' ! i = j_counts j ! i \<and> j_expecting_value j' ! i = j_expecting_value j ! i"
  shows "frames_ok inner j' fs = frames_ok inner j fs"
  using assms by (induction fs arbitrary: inner) auto

lemma same_stack_ok:
  "same_stack j j' \<Longrightarrow> stack_ok j' fs = stack_ok j fs"
  "same_stack j j' \<Longrightarrow> frames_ok inner j' fs = frames_ok inner j fs"
  "same_stack j j' \<Longrightarrow> j_root_written j' = j_root_written j"
  by (simp add: same_stack_def stack_ok_def) (rule frames_ok_cong, auto simp: same_stack_def)+

lemma ready_appends:
  "ready s j fs \<Longrightarrow> appends t j (True, j') \<Longrightarrow> ready (s @ t) j' fs"
  by (auto simp: ready_def appends_def same_stack_ok json_text_def)

text \<open>The value is complete.\<close>

lemma ready_complete:
  assumes "ready (render v) j fs"
  shows "refines j (doc_put v fs)"
proof (cases fs)
  case Nil
  with assms show ?thesis by (simp add: ready_def)
next
  case (Cons f gs)
  with assms show ?thesis by (auto simp: ready_def open_text_put stack_ok_def)
qed

text \<open>The separator before a value or a key.\<close>

lemma comma_appends:
  assumes "buffer_ok j"
  shows "appends (if n = 0 then [] else [CHR '','']) j (if 0 < (n :: nat) then append_char alloc CHR '','' j else (True, j))"
  using writesD [OF skip_writes assms] writesD [OF append_char_writes assms] by simp

lemma innermost:
  assumes "refines j (f # gs, root)"
  shows "j_depth j = Suc (length gs)" "\<not> j_failed j" "buffer_ok j" "length gs < M65_JSON_MAX_DEPTH"
    "length gs < length (j_counts j)" "length gs < length (j_expecting_value j)"
  using assms by (auto simp: stack_ok_def buffer_ok_def)

lemma value_in_object:
  assumes r: "refines j (FObj ms p # gs, root)"
  shows "case before_value alloc j of (b, j') \<Rightarrow>
     if b then doc_accepts (FObj ms p # gs, root) \<and> ready [] j' (FObj ms p # gs) else j_failed j'"
proof -
  let ?f = "FObj ms p" and ?j = "j\<lparr>j_expecting_value := (j_expecting_value j)[length gs := False],
    j_counts := (j_counts j)[length gs := Suc (length ms)]\<rparr>"
  have b: "before_value alloc j = (if \<not> pending ?f then json_fail j else (True, ?j))"
    using r innermost [OF r] by (simp add: before_value_def Let_def)
  have "frames_ok False ?j (?f # gs)"
    using r innermost [OF r] by (simp, subst frames_ok_cong [of _ _ j], auto)
  with b r show ?thesis
    by (cases p) (auto simp: ready_def accepts_def buffer_ok_def stack_ok_def below_text_def json_fail_def)
qed

lemma value_in_array:
  assumes r: "refines j (FArr vs # gs, root)"
  shows "case before_value alloc j of (b, j') \<Rightarrow>
     if b then doc_accepts (FArr vs # gs, root) \<and> ready [] j' (FArr vs # gs) else j_failed j'"
proof -
  let ?comma = "if 0 < j_counts j ! length gs then append_char alloc CHR '','' j else (True, j)"
  obtain b1 j1 where c: "?comma = (b1, j1)" by force
  have ap: "appends (if vs = [] then [] else [CHR '','']) j (b1, j1)"
    using comma_appends [OF innermost(3) [OF r], of "j_counts j ! length gs" alloc] c r by auto
  let ?j = "j1\<lparr>j_counts := (j_counts j1)[length gs := j_counts j1 ! length gs + 1]\<rparr>"
  have b: "before_value alloc j = (if b1 then (True, ?j) else (False, j1))"
    using r innermost [OF r] c by (simp add: before_value_def Let_def split: bool.splits)
  show ?thesis
  proof (cases b1)
    case False
    with ap b show ?thesis by (simp add: appends_def)
  next
    case True
    then have s: "same_stack j j1" "buffer_ok j1" "json_text j1 = json_text j @ (if vs = [] then [] else [CHR '',''])"
      using ap by (auto simp: appends_def json_text_def)
    have "below_text (FArr vs) = open_text (FArr vs) @ (if vs = [] then [] else [CHR '',''])"
      by (auto simp: below_text_def split: list.splits)
    then have t: "json_text ?j = outer_text (FArr vs # gs)" using s(3) r by simp
    have "frames_ok False ?j (FArr vs # gs)"
      using r s(1) innermost [OF r] by (simp add: same_stack_def, subst frames_ok_cong [of _ _ j]) (auto simp: same_stack_def)
    with b True t s r show ?thesis
      by (auto simp: ready_def accepts_def buffer_ok_def stack_ok_def same_stack_def)
  qed
qed

lemma before_value_ready:
  assumes r: "refines j (fs, root)"
  shows "case before_value alloc j of (b, j') \<Rightarrow>
     if b then doc_accepts (fs, root) \<and> ready [] j' fs else j_failed j'"
proof (cases fs)
  case Nil
  with r show ?thesis
    by (auto simp: before_value_def json_fail_def ready_def buffer_ok_def stack_ok_def json_text_def
        split: option.splits)
next
  case (Cons f gs)
  show ?thesis
  proof (cases f)
    case (FObj ms p)
    show ?thesis unfolding Cons FObj by (rule value_in_object) (use r Cons FObj in blast)
  next
    case (FArr vs)
    show ?thesis unfolding Cons FArr by (rule value_in_array) (use r Cons FArr in blast)
  qed
qed


section \<open>Operations\<close>

datatype json_op =
    OpBeginObject | OpEndObject | OpBeginArray | OpEndArray | OpKey "string option"
  | OpString "string option" | OpUint "64 word" | OpInt "64 word" | OpBool bool | OpNull

fun run_op :: "(nat \<Rightarrow> bool) \<Rightarrow> json_op \<Rightarrow> json \<Rightarrow> bool \<times> json" where
  "run_op alloc OpBeginObject = m65_json_begin_object alloc"
| "run_op alloc OpEndObject = m65_json_end_object alloc"
| "run_op alloc OpBeginArray = m65_json_begin_array alloc"
| "run_op alloc OpEndArray = m65_json_end_array alloc"
| "run_op alloc (OpKey k) = m65_json_key alloc k"
| "run_op alloc (OpString s) = m65_json_string alloc s"
| "run_op alloc (OpUint n) = m65_json_uint alloc n"
| "run_op alloc (OpInt n) = m65_json_int alloc n"
| "run_op alloc (OpBool b) = m65_json_bool alloc b"
| "run_op alloc OpNull = m65_json_null alloc"

definition doc_value :: "jvalue \<Rightarrow> doc \<Rightarrow> doc option" where
  "doc_value v d = (if doc_accepts d then Some (doc_put v (fst d)) else None)"

definition doc_open :: "frame \<Rightarrow> doc \<Rightarrow> doc option" where
  "doc_open f d =
     (if length (fst d) < M65_JSON_MAX_DEPTH \<and> doc_accepts d then Some (f # fst d, None) else None)"

fun doc_close :: "json_container \<Rightarrow> doc \<Rightarrow> doc option" where
  "doc_close k ([], root) = None"
| "doc_close k (f # fs, root) =
     (if kind f = k \<and> \<not> pending f then Some (doc_put (closed f) fs) else None)"

fun doc_key :: "string \<Rightarrow> doc \<Rightarrow> doc option" where
  "doc_key k (FObj ms None # fs, root) = Some (FObj ms (Some k) # fs, root)"
| "doc_key k d = None"

text \<open>The specification of an operation: None where the document does not allow it.\<close>

fun doc_step :: "json_op \<Rightarrow> doc \<Rightarrow> doc option" where
  "doc_step OpBeginObject d = doc_open (FObj [] None) d"
| "doc_step OpEndObject d = doc_close JSON_OBJECT d"
| "doc_step OpBeginArray d = doc_open (FArr []) d"
| "doc_step OpEndArray d = doc_close JSON_ARRAY d"
| "doc_step (OpKey k) d = Option.bind k (\<lambda>k. doc_key k d)"
| "doc_step (OpString s) d = Option.bind s (\<lambda>s. doc_value (JStr s) d)"
| "doc_step (OpUint n) d = doc_value (JNum (uint n)) d"
| "doc_step (OpInt n) d = doc_value (JNum (sint n)) d"
| "doc_step (OpBool b) d = doc_value (JBool b) d"
| "doc_step OpNull d = doc_value JNull d"

text \<open>An operation of the writer implements a step of the document: where it succeeds the step is
  allowed and the writer represents its outcome; where it does not, the writer has failed or is
  unchanged.\<close>

definition implements :: "(json \<Rightarrow> bool \<times> json) \<Rightarrow> (doc \<Rightarrow> doc option) \<Rightarrow> bool" where
  "implements f step \<longleftrightarrow>
     (\<forall>j d. refines j d \<longrightarrow> (case f j of (b, j') \<Rightarrow>
        if b then \<exists>d'. step d = Some d' \<and> refines j' d' else j_failed j' \<or> j' = j)) \<and>
     (\<forall>j. j_failed j \<longrightarrow> (case f j of (b, j') \<Rightarrow> \<not> b \<and> j_failed j'))"

lemma before_value_failed: "j_failed j \<Longrightarrow> before_value alloc j = (False, j)"
  by (simp add: before_value_def)

lemma value_implements:
  assumes w: "writes (render v) f"
  shows "implements (and_then (before_value alloc) f) (doc_value v)"
  unfolding implements_def
proof (intro conjI allI impI)
  fix j d assume r: "refines j d"
  obtain fs root where d: "d = (fs, root)" by force
  obtain b1 j1 where b: "before_value alloc j = (b1, j1)" by force
  obtain b2 j2 where f: "f j1 = (b2, j2)" by force
  show "case and_then (before_value alloc) f j of (b, j') \<Rightarrow>
     if b then \<exists>d'. doc_value v d = Some d' \<and> refines j' d' else j_failed j' \<or> j' = j"
  proof (cases b1)
    case False
    with before_value_ready [of j fs root alloc] r b d show ?thesis by (simp add: and_then_def)
  next
    case True
    then have rd: "doc_accepts d" "ready [] j1 fs"
      using before_value_ready [of j fs root alloc] r b d by auto
    then have "appends (render v) j1 (b2, j2)" using writesD [OF w, of j1] f by (simp add: ready_def)
    then show ?thesis
      using ready_appends [OF rd(2), of "render v" j2] ready_complete [of v j2 fs] rd(1) True b f d
      by (cases b2) (auto simp: and_then_def doc_value_def appends_def)
  qed
next
  fix j :: json assume "j_failed j"
  then show "case and_then (before_value alloc) f j of (b, j') \<Rightarrow> \<not> b \<and> j_failed j'"
    by (simp add: and_then_def before_value_failed)
qed

lemma open_implements:
  assumes "c = kind f" "count f = 0" "\<not> pending f" "[token] = open_text f"
  shows "implements (begin_container alloc c token) (doc_open f)"
  unfolding implements_def
proof (intro conjI allI impI)
  fix j d assume r: "refines j d"
  obtain fs root where d: "d = (fs, root)" by force
  have depth: "j_depth j = length fs" using r d by (simp add: stack_ok_def)
  obtain b1 j1 where b: "before_value alloc j = (b1, j1)" by force
  obtain b2 j2 where t: "append_char alloc token j1 = (b2, j2)" by force
  show "case begin_container alloc c token j of (b, j') \<Rightarrow>
     if b then \<exists>d'. doc_open f d = Some d' \<and> refines j' d' else j_failed j' \<or> j' = j"
  proof (cases "length fs \<ge> M65_JSON_MAX_DEPTH \<or> \<not> b1 \<or> \<not> b2")
    case True
    with b t depth show ?thesis
      by (auto simp: begin_container_def and_then_def json_fail_def split: bool.splits)
  next
    case False
    then have rd: "doc_accepts d" "ready [] j1 fs"
      using before_value_ready [of j fs root alloc] r b d by auto
    then have "appends [token] j1 (True, j2)"
      using writesD [OF append_char_writes, of j1 token alloc] t False by (simp add: ready_def)
    from ready_appends [OF rd(2) this] have rd2: "ready [token] j2 fs" by simp
    let ?j = "j2\<lparr>j_containers := (j_containers j2)[length fs := Some c],
        j_counts := (j_counts j2)[length fs := 0],
        j_expecting_value := (j_expecting_value j2)[length fs := False], j_depth := length fs + 1\<rparr>"
    have "j_depth j2 = length fs" using rd2 by (simp add: ready_def stack_ok_def)
    then have "begin_container alloc c token j = (True, ?j)"
      using False b t depth by (simp add: begin_container_def and_then_def Let_def)
    moreover have "frames_ok False ?j fs"
      using rd2 by (subst frames_ok_cong [of _ _ j2]) (auto simp: ready_def)
    then have "refines ?j (f # fs, None)"
      using rd2 False assms by (auto simp: ready_def stack_ok_def buffer_ok_def)
    ultimately show ?thesis using rd(1) False d by (simp add: doc_open_def del: refines.simps)
  qed
next
  fix j :: json assume "j_failed j"
  then show "case begin_container alloc c token j of (b, j') \<Rightarrow> \<not> b \<and> j_failed j'"
    by (auto simp: begin_container_def and_then_def before_value_failed json_fail_def)
qed

lemma close_implements:
  "implements (end_container alloc k (if k = JSON_OBJECT then CHR ''}'' else CHR '']'')) (doc_close k)"
  unfolding implements_def
proof (intro conjI allI impI)
  fix j d assume r: "refines j d"
  obtain fs root where d: "d = (fs, root)" by force
  let ?t = "if k = JSON_OBJECT then CHR ''}'' else CHR '']''"
  show "case end_container alloc k ?t j of (b, j') \<Rightarrow>
     if b then \<exists>d'. doc_close k d = Some d' \<and> refines j' d' else j_failed j' \<or> j' = j"
  proof (cases fs)
    case Nil
    with r d show ?thesis by (simp add: end_container_def stack_ok_def)
  next
    case (Cons f gs)
    note r' = r [unfolded d Cons, simplified]
    have i: "j_depth j = Suc (length gs)" using r' by (simp add: stack_ok_def)
    show ?thesis
    proof (cases "kind f = k \<and> \<not> pending f")
      case False
      with r' i show ?thesis by (auto simp: end_container_def Let_def json_fail_def)
    next
      case True
      let ?j = "j\<lparr>j_depth := length gs\<rparr>"
      obtain b1 j1 where a: "append_char alloc ?t ?j = (b1, j1)" by force
      have e: "end_container alloc k ?t j = (b1, j1)"
        using r' i True a by (simp add: end_container_def Let_def)
      have fr: "frames_ok False ?j gs" using r' by (subst frames_ok_cong [of _ _ j]) auto
      have "buffer_ok ?j" using r' by (auto simp: buffer_ok_def)
      from writesD [OF append_char_writes this, of ?t alloc] have w: "appends [?t] ?j (b1, j1)"
        unfolding a .
      show ?thesis
      proof (cases b1)
        case False
        with e w show ?thesis by (simp add: appends_def)
      next
        case b1: True
        have "ready (open_text f) ?j gs"
          using r' fr True by (auto simp: ready_def stack_ok_def buffer_ok_def)
        from ready_appends [OF this w [unfolded eqTrueI [OF b1]]] have "ready (render (closed f)) j1 gs"
          using open_text_close [of f] True by simp
        with e b1 d Cons True show ?thesis by (simp add: ready_complete del: refines.simps)
      qed
    qed
  qed
next
  fix j :: json assume "j_failed j"
  then show "case end_container alloc k (if k = JSON_OBJECT then CHR ''}'' else CHR '']'') j of (b, j') \<Rightarrow> \<not> b \<and> j_failed j'"
    by (auto simp: end_container_def json_fail_def append_char_def append_bytes_failed Let_def)
qed


lemma key_in_object:
  assumes r: "refines j (FObj ms None # gs, root)"
  shows "case m65_json_key alloc (Some k) j of (b, j') \<Rightarrow>
    if b then refines j' (FObj ms (Some k) # gs, None) else j_failed j'"
proof -
  let ?comma = "\<lambda>json. if j_counts json ! length gs > 0 then append_char alloc CHR '','' json else (True, json)"
  let ?rest = "and_then (append_escaped alloc k) (append_char alloc CHR '':'')"
  let ?text = "(if ms = [] then [] else [CHR '','']) @ quote k @ [CHR '':'']"
  obtain b1 j1 where x: "and_then ?comma ?rest j = (b1, j1)" by force
  have e: "m65_json_key alloc (Some k) j = (if b1 then (True, j1\<lparr>j_expecting_value :=
      (j_expecting_value j1)[length gs := True]\<rparr>) else (False, j1))"
    using r innermost(1) [OF r] x by (simp add: m65_json_key_def Let_def split: bool.splits)
  obtain b0 j0 where y: "?comma j = (b0, j0)" by force
  have c: "appends (if ms = [] then [] else [CHR '','']) j (b0, j0)"
    using comma_appends [OF innermost(3) [OF r], of "j_counts j ! length gs" alloc] y r by auto
  have w: "appends ?text j (b1, j1)"
  proof (cases b0)
    case False
    with c x y show ?thesis by (auto simp: and_then_def appends_def)
  next
    case True
    with c have "buffer_ok j0" by (simp add: appends_def)
    from writesD [OF and_then_writes [OF append_escaped_writes append_char_writes] this, of k "CHR '':''" alloc alloc]
    show ?thesis using c x y True
      by (auto simp: and_then_def [of ?comma] appends_def same_stack_def json_text_def)
  qed
  show ?thesis
  proof (cases b1)
    case False
    with e w show ?thesis by (simp add: appends_def)
  next
    case b1: True
    let ?j = "j1\<lparr>j_expecting_value := (j_expecting_value j1)[length gs := True]\<rparr>"
    have s: "same_stack j j1" "buffer_ok j1" "json_text j1 = json_text j @ ?text"
      using w b1 by (auto simp: appends_def json_text_def)
    have "frames_ok False ?j gs"
      using r s(1) by (subst frames_ok_cong [of _ _ j]) (auto simp: same_stack_def)
    then have "refines ?j (FObj ms (Some k) # gs, None)"
      using r s by (auto simp: stack_ok_def same_stack_def buffer_ok_def)
    with e b1 show ?thesis by (simp del: refines.simps)
  qed
qed

lemma key_implements: "implements (m65_json_key alloc key) (\<lambda>d. Option.bind key (\<lambda>k. doc_key k d))"
  unfolding implements_def
proof (intro conjI allI impI)
  fix j d assume r: "refines j d"
  obtain fs root where d: "d = (fs, root)" by force
  show "case m65_json_key alloc key j of (b, j') \<Rightarrow>
     if b then \<exists>d'. Option.bind key (\<lambda>k. doc_key k d) = Some d' \<and> refines j' d' else j_failed j' \<or> j' = j"
  proof (cases "key = None \<or> fs = []")
    case True
    with r d show ?thesis by (auto simp: m65_json_key_def stack_ok_def split: option.splits)
  next
    case False
    then obtain k f gs where k: "key = Some k" "fs = f # gs" by (cases fs) auto
    note r' = r [unfolded d k]
    show ?thesis
    proof (cases "kind f = JSON_OBJECT \<and> \<not> pending f")
      case False
      with r' innermost(1) [OF r'] k show ?thesis by (auto simp: m65_json_key_def Let_def json_fail_def)
    next
      case True
      then obtain ms where f: "f = FObj ms None" by (cases f) auto
      have "root = None" using r' by simp
      with key_in_object [OF r' [unfolded f], of k alloc] show ?thesis
        unfolding d k f by (auto simp del: refines.simps split: prod.splits if_splits)
    qed
  qed
next
  fix j :: json assume "j_failed j"
  then show "case m65_json_key alloc key j of (b, j') \<Rightarrow> \<not> b \<and> j_failed j'"
    by (auto simp: m65_json_key_def json_fail_def append_char_def append_bytes_failed Let_def and_then_def
        append_escaped_def split: option.split)
qed

lemma fail_implements: "implements (\<lambda>j. (False, j)) (\<lambda>d. None)"
  by (simp add: implements_def)

lemma doc_step_eqs:
  "doc_step OpBeginObject = doc_open (FObj [] None)" "doc_step OpEndObject = doc_close JSON_OBJECT"
  "doc_step OpBeginArray = doc_open (FArr [])" "doc_step OpEndArray = doc_close JSON_ARRAY"
  "doc_step (OpKey k) = (\<lambda>d. Option.bind k (\<lambda>k. doc_key k d))"
  "doc_step (OpUint n) = doc_value (JNum (uint n))" "doc_step (OpInt n) = doc_value (JNum (sint n))"
  "doc_step (OpBool b) = doc_value (JBool b)" "doc_step OpNull = doc_value JNull"
  by (simp_all add: fun_eq_iff)

lemma run_op_implements: "implements (run_op alloc op) (doc_step op)"
proof (cases op)
  case OpBeginObject
  have "implements (m65_json_begin_object alloc) (doc_open (FObj [] None))"
    unfolding m65_json_begin_object_def by (rule open_implements) simp_all
  with OpBeginObject show ?thesis by (simp add: doc_step_eqs)
next
  case OpBeginArray
  have "implements (m65_json_begin_array alloc) (doc_open (FArr []))"
    unfolding m65_json_begin_array_def by (rule open_implements) simp_all
  with OpBeginArray show ?thesis by (simp add: doc_step_eqs)
next
  case OpEndObject
  have "m65_json_end_object alloc = end_container alloc JSON_OBJECT (if JSON_OBJECT = JSON_OBJECT then CHR ''}'' else CHR '']'')"
    by (simp add: m65_json_end_object_def)
  with close_implements [of alloc JSON_OBJECT] OpEndObject show ?thesis by (simp add: doc_step_eqs)
next
  case OpEndArray
  have "m65_json_end_array alloc = end_container alloc JSON_ARRAY (if JSON_ARRAY = JSON_OBJECT then CHR ''}'' else CHR '']'')"
    by (simp add: m65_json_end_array_def)
  with close_implements [of alloc JSON_ARRAY] OpEndArray show ?thesis by (simp add: doc_step_eqs)
next
  case (OpKey k)
  with key_implements OpKey show ?thesis by (simp add: doc_step_eqs)
next
  case (OpString s)
  show ?thesis
  proof (cases s)
    case None
    then have "run_op alloc op = (\<lambda>j. (False, j))" "doc_step op = (\<lambda>d. None)"
      using OpString by (auto simp: m65_json_string_def)
    with fail_implements show ?thesis by simp
  next
    case (Some t)
    then have "run_op alloc op = and_then (before_value alloc) (append_escaped alloc t)"
      "doc_step op = doc_value (JStr t)"
      using OpString by (auto simp: m65_json_string_def)
    with value_implements [of "JStr t"] append_escaped_writes show ?thesis by simp
  qed
next
  case (OpUint n)
  have "implements (m65_json_uint alloc n) (doc_value (JNum (uint n)))"
    unfolding m65_json_uint_def
    by (rule value_implements) (simp add: int_text_def append_text_writes flip: unat_eq_nat_uint)
  with OpUint show ?thesis by (simp add: doc_step_eqs)
next
  case (OpInt n)
  have "implements (m65_json_int alloc n) (doc_value (JNum (sint n)))"
    unfolding m65_json_int_def by (rule value_implements) (simp add: int_text_def append_text_writes)
  with OpInt show ?thesis by (simp add: doc_step_eqs)
next
  case (OpBool b)
  have "implements (m65_json_bool alloc b) (doc_value (JBool b))"
    unfolding m65_json_bool_def by (rule value_implements) (simp add: append_text_writes)
  with OpBool show ?thesis by (simp add: doc_step_eqs)
next
  case OpNull
  have "implements (m65_json_null alloc) (doc_value JNull)"
    unfolding m65_json_null_def by (rule value_implements) (simp add: append_text_writes)
  with OpNull show ?thesis by (simp add: doc_step_eqs)
qed

end
