(* ===== verification/M65_JsonProps.thy ===== *)
theory M65_JsonProps
  imports M65_JsonRefine
begin

text \<open>
  Whole runs of the JSON writer (\<open>src/json.c\<close>): every finished text is the text of one JSON value,
  every value can be written, and strings read back as they were.
\<close>

section \<open>Success\<close>

text \<open>With memory to be had and a text far below \<open>SIZE_MAX\<close>, an append succeeds.\<close>

definition short :: "string \<Rightarrow> bool" where
  "short s \<longleftrightarrow> length s < 2 ^ 62"

definition succeeds :: "string \<Rightarrow> (json \<Rightarrow> bool \<times> json) \<Rightarrow> bool" where
  "succeeds s f \<longleftrightarrow> (\<forall>j. buffer_ok j \<longrightarrow> short (json_text j @ s) \<longrightarrow> fst (f j))"

abbreviation memory :: "nat \<Rightarrow> bool" where "memory \<equiv> \<lambda>_. True"

lemma append_bytes_succeeds: "succeeds s (append_bytes memory s)"
  unfolding succeeds_def
proof (intro allI impI)
  fix j assume j: "buffer_ok j" "short (json_text j @ s)"
  let ?req = "length (json_text j) + length s + 1"
  have "0 < j_capacity j" using j(1) by (simp add: buffer_ok_def)
  from grow_capacity_returns [OF this, of ?req] obtain r where
    g: "grow_capacity (j_capacity j) ?req = Some r" "case r of None \<Rightarrow> SIZE_MAX div 2 < ?req | Some c \<Rightarrow> ?req \<le> c"
    by blast
  have "?req \<le> SIZE_MAX div 2" "length s \<le> SIZE_MAX - length (json_text j) - 1"
    using j(2) by (auto simp: short_def SIZE_MAX_def)
  with g j(1) show "fst (append_bytes memory s j)"
    by (auto simp: append_bytes_def reserve_def Let_def buffer_ok_def split: option.splits)
qed

lemma and_then_succeeds:
  assumes "writes s f" "succeeds s f" "succeeds t g"
  shows "succeeds (s @ t) (and_then f g)"
  unfolding succeeds_def
proof (intro allI impI)
  fix j assume j: "buffer_ok j" "short (json_text j @ s @ t)"
  obtain b j' where f: "f j = (b, j')" by force
  have "short (json_text j @ s)" using j(2) by (simp add: short_def)
  then have b using assms(2) j(1) f by (auto simp: succeeds_def)
  with writesD [OF assms(1) j(1)] f have "buffer_ok j'" "json_text j' = json_text j @ s"
    by (auto simp: appends_def json_text_def)
  with assms(3) j(2) f \<open>b\<close> show "fst (and_then f g j)" by (simp add: and_then_def succeeds_def)
qed

lemma append_text_succeeds: "succeeds s (append_text memory s)"
  by (simp add: append_text_def [abs_def] append_bytes_succeeds)

lemma append_char_succeeds: "succeeds [c] (append_char memory c)"
  by (simp add: append_char_def [abs_def] append_bytes_succeeds)

lemma append_escaped_loop_succeeds: "succeeds (concat (map escape_char s)) (append_escaped_loop memory s)"
proof (induction s)
  case (Cons c s)
  have "append_escaped_loop memory (c # s) = and_then (append_text memory (escape_char c)) (append_escaped_loop memory s)"
    by (rule ext) simp
  with and_then_succeeds [OF append_text_writes append_text_succeeds Cons] show ?case by simp
qed (simp add: succeeds_def)

lemma append_escaped_succeeds: "succeeds (quote s) (append_escaped memory s)"
  unfolding append_escaped_def quote_def
  using and_then_succeeds [OF append_char_writes append_char_succeeds and_then_succeeds
      [OF append_escaped_loop_writes append_escaped_loop_succeeds append_char_succeeds]]
  by simp

text \<open>An allowed step succeeds.\<close>

definition completes :: "(json \<Rightarrow> bool \<times> json) \<Rightarrow> (doc \<Rightarrow> doc option) \<Rightarrow> bool" where
  "completes f step \<longleftrightarrow>
     (\<forall>j d d'. refines j d \<longrightarrow> step d = Some d' \<longrightarrow> short (doc_text d') \<longrightarrow> fst (f j))"

lemma before_value_succeeds:
  assumes "refines j (fs, root)" "doc_accepts (fs, root)" "short (outer_text fs)"
  shows "fst (before_value memory j)"
proof (cases fs)
  case Nil
  with assms show ?thesis by (simp add: before_value_def buffer_ok_def stack_ok_def)
next
  case (Cons f gs)
  note r = assms(1) [unfolded Cons, simplified]
  have i: "j_depth j = Suc (length gs)" using r by (simp add: stack_ok_def)
  have a: "accepts f" using assms(2) Cons by simp
  show ?thesis
  proof (cases f)
    case (FObj ms p)
    with a r i show ?thesis by (auto simp: before_value_def Let_def accepts_def buffer_ok_def)
  next
    case (FArr vs)
    have "fst (append_char memory CHR '','' j)" if "vs \<noteq> []"
    proof -
      have "short (json_text j @ [CHR '',''])"
        using assms(3) r Cons FArr that by (auto simp: below_text_def short_def split: list.splits)
      then show ?thesis using append_char_succeeds r by (auto simp: succeeds_def)
    qed
    with r i FArr show ?thesis
      by (cases "vs = []") (auto simp: before_value_def Let_def buffer_ok_def split: prod.splits bool.splits)
  qed
qed

lemma value_completes:
  assumes "writes (render v) f" "succeeds (render v) f"
  shows "completes (and_then (before_value memory) f) (doc_value v)"
  unfolding completes_def
proof (intro allI impI)
  fix j d d' assume r: "refines j d" and s: "doc_value v d = Some d'" "short (doc_text d')"
  obtain fs root where d: "d = (fs, root)" by force
  have a: "doc_accepts (fs, root)" "d' = doc_put v fs" using s(1) d by (auto simp: doc_value_def split: if_splits)
  have t: "doc_text d' = outer_text fs @ render v"
    using a by (cases fs) (auto simp: open_text_put)
  obtain b j1 where b: "before_value memory j = (b, j1)" by force
  have b1: b using before_value_succeeds [of j fs root] r a(1) d s(2) b t by (auto simp: short_def)
  then have "ready [] j1 fs" using before_value_ready [of j fs root memory] r d b by auto
  then show "fst (and_then (before_value memory) f j)"
    using assms(2) s(2) t b b1 by (auto simp: and_then_def succeeds_def ready_def)
qed

lemma open_completes:
  assumes "[token] = open_text f"
  shows "completes (begin_container memory c token) (doc_open f)"
  unfolding completes_def
proof (intro allI impI)
  fix j d d' assume r: "refines j d" and s: "doc_open f d = Some d'" "short (doc_text d')"
  obtain fs root where d: "d = (fs, root)" by force
  have a: "doc_accepts (fs, root)" "d' = (f # fs, None)" "length fs < M65_JSON_MAX_DEPTH"
    using s(1) d by (auto simp: doc_open_def split: if_splits)
  have t: "doc_text d' = outer_text fs @ [token]" using a assms by simp
  obtain b j1 where b: "before_value memory j = (b, j1)" by force
  have b1: b using before_value_succeeds [of j fs root] r a(1) d s(2) b t by (auto simp: short_def)
  then have rd: "ready [] j1 fs" using before_value_ready [of j fs root memory] r d b by auto
  then have "fst (append_char memory token j1)"
    using append_char_succeeds s(2) t by (auto simp: succeeds_def ready_def)
  then show "fst (begin_container memory c token j)"
    using b b1 a(3) r d by (auto simp: begin_container_def and_then_def stack_ok_def Let_def split: prod.splits bool.splits)
qed

lemma close_completes:
  "completes (end_container memory k (if k = JSON_OBJECT then CHR ''}'' else CHR '']'')) (doc_close k)"
  unfolding completes_def
proof (intro allI impI)
  fix j d d' assume r: "refines j d" and s: "doc_close k d = Some d'" "short (doc_text d')"
  obtain f fs root where d: "d = (f # fs, root)" using s(1) by (cases d; cases "fst d") auto
  let ?t = "if k = JSON_OBJECT then CHR ''}'' else CHR '']''"
  have a: "kind f = k" "\<not> pending f" "d' = doc_put (closed f) fs"
    using s(1) d by (auto split: if_splits)
  have acc: "list_all accepts fs" using r d by simp
  then have "doc_text d' = outer_text fs @ render (closed f)"
    using a by (cases fs) (auto simp: open_text_put)
  then have "doc_text d' = doc_text d @ [?t]" using open_text_close [of f] a d by simp
  then have "short (json_text (j\<lparr>j_depth := length fs\<rparr>) @ [?t])" using s(2) r d by simp
  moreover have "buffer_ok (j\<lparr>j_depth := length fs\<rparr>)" using r d by (auto simp: buffer_ok_def)
  ultimately have "fst (append_char memory ?t (j\<lparr>j_depth := length fs\<rparr>))"
    using append_char_succeeds [of ?t] unfolding succeeds_def by blast
  then show "fst (end_container memory k ?t j)"
    using r d a by (simp add: end_container_def Let_def stack_ok_def)
qed

lemma key_completes: "completes (m65_json_key memory key) (\<lambda>d. Option.bind key (\<lambda>k. doc_key k d))"
  unfolding completes_def
proof (intro allI impI)
  fix j d d' assume r: "refines j d" and s: "Option.bind key (\<lambda>k. doc_key k d) = Some d'" "short (doc_text d')"
  obtain k where k: "key = Some k" using s(1) by (cases key) auto
  obtain ms fs root where d: "d = (FObj ms None # fs, root)" "d' = (FObj ms (Some k) # fs, root)"
    using s(1) k by (cases "(k, d)" rule: doc_key.cases) auto
  note r' = r [unfolded d, simplified]
  let ?c = "if ms = [] then [] else [CHR '','']"
  let ?comma = "\<lambda>json. if j_counts json ! length fs > 0 then append_char memory CHR '','' json else (True, json)"
  have t: "doc_text d' = json_text j @ ?c @ quote k @ [CHR '':'']" using r' d by simp
  have q: "succeeds (quote k @ [CHR '':'']) (and_then (append_escaped memory k) (append_char memory CHR '':''))"
    by (rule and_then_succeeds [OF append_escaped_writes append_escaped_succeeds append_char_succeeds])
  obtain b j0 where y: "?comma j = (b, j0)" by force
  have "b \<and> buffer_ok j0 \<and> json_text j0 = json_text j @ ?c"
  proof (cases "ms = []")
    case True
    with y r' show ?thesis by auto
  next
    case False
    then have a: "append_char memory CHR '','' j = (b, j0)" using y r' by simp
    have "short (json_text j @ [CHR '',''])" using s(2) t False by (simp add: short_def)
    then have b using append_char_succeeds r' a by (force simp: succeeds_def)
    with writesD [OF append_char_writes, of j "CHR '',''" memory] a r' False show ?thesis
      by (auto simp: appends_def json_text_def)
  qed
  then have "fst (and_then ?comma (and_then (append_escaped memory k) (append_char memory CHR '':'')) j)"
    using q y s(2) t by (simp add: and_then_def [of ?comma] succeeds_def)
  then show "fst (m65_json_key memory key j)"
    using r' k by (auto simp: m65_json_key_def Let_def stack_ok_def split: prod.splits bool.splits)
qed


lemma run_op_completes: "completes (run_op memory op) (doc_step op)"
proof (cases op)
  case OpBeginObject
  have "completes (m65_json_begin_object memory) (doc_open (FObj [] None))"
    unfolding m65_json_begin_object_def by (rule open_completes) simp
  with OpBeginObject show ?thesis by (simp add: doc_step_eqs)
next
  case OpBeginArray
  have "completes (m65_json_begin_array memory) (doc_open (FArr []))"
    unfolding m65_json_begin_array_def by (rule open_completes) simp
  with OpBeginArray show ?thesis by (simp add: doc_step_eqs)
next
  case OpEndObject
  with close_completes [of JSON_OBJECT] show ?thesis by (simp add: doc_step_eqs m65_json_end_object_def)
next
  case OpEndArray
  with close_completes [of JSON_ARRAY] show ?thesis by (simp add: doc_step_eqs m65_json_end_array_def)
next
  case (OpKey k)
  with key_completes show ?thesis by (simp add: doc_step_eqs)
next
  case (OpString s)
  show ?thesis
  proof (cases s)
    case None
    with OpString show ?thesis by (simp add: completes_def)
  next
    case (Some t)
    then have "run_op memory op = and_then (before_value memory) (append_escaped memory t)"
      "doc_step op = doc_value (JStr t)"
      using OpString by (auto simp: m65_json_string_def)
    with value_completes [of "JStr t"] append_escaped_writes append_escaped_succeeds show ?thesis by simp
  qed
next
  case (OpUint n)
  have "completes (m65_json_uint memory n) (doc_value (JNum (uint n)))"
    unfolding m65_json_uint_def
    by (rule value_completes)
      (simp_all add: int_text_def append_text_writes append_text_succeeds flip: unat_eq_nat_uint)
  with OpUint show ?thesis by (simp add: doc_step_eqs)
next
  case (OpInt n)
  have "completes (m65_json_int memory n) (doc_value (JNum (sint n)))"
    unfolding m65_json_int_def
    by (rule value_completes) (simp_all add: int_text_def append_text_writes append_text_succeeds)
  with OpInt show ?thesis by (simp add: doc_step_eqs)
next
  case (OpBool b)
  have "completes (m65_json_bool memory b) (doc_value (JBool b))"
    unfolding m65_json_bool_def by (rule value_completes) (simp_all add: append_text_writes append_text_succeeds)
  with OpBool show ?thesis by (simp add: doc_step_eqs)
next
  case OpNull
  have "completes (m65_json_null memory) (doc_value JNull)"
    unfolding m65_json_null_def by (rule value_completes) (simp_all add: append_text_writes append_text_succeeds)
  with OpNull show ?thesis by (simp add: doc_step_eqs)
qed

section \<open>Sequences of operations\<close>

text \<open>The caller goes on whatever the results are; and the whole run succeeded.\<close>

fun run_ops :: "(nat \<Rightarrow> bool) \<Rightarrow> json_op list \<Rightarrow> json \<Rightarrow> bool \<times> json" where
  "run_ops alloc [] j = (True, j)"
| "run_ops alloc (op # ops) j =
     (case run_op alloc op j of (b, j1) \<Rightarrow>
        (case run_ops alloc ops j1 of (b', j2) \<Rightarrow> (b \<and> b', j2)))"

fun doc_run :: "json_op list \<Rightarrow> doc \<Rightarrow> doc option" where
  "doc_run [] d = Some d"
| "doc_run (op # ops) d = Option.bind (doc_step op d) (doc_run ops)"

lemma doc_run_append: "doc_run (xs @ ys) d = Option.bind (doc_run xs d) (doc_run ys)"
  by (induction xs arbitrary: d) (auto split: Option.bind_splits)

definition represented :: "json \<Rightarrow> bool" where
  "represented j \<longleftrightarrow> j_failed j \<or> (\<exists>d. refines j d)"

lemma init_represented: "m65_json_init alloc = (b, j) \<Longrightarrow> if b then refines j ([], None) else j_failed j"
proof (cases "alloc 256")
  case True
  assume "m65_json_init alloc = (b, j)"
  with True have "b" "j = zero_json\<lparr>j_capacity := 256, j_data := Some []\<rparr>"
    by (auto simp: m65_json_init_def Let_def)
  then show ?thesis by (simp add: zero_json_def buffer_ok_def json_text_def stack_ok_def)
next
  case False
  assume "m65_json_init alloc = (b, j)"
  with False have "\<not> b" "j = zero_json\<lparr>j_capacity := 256, j_failed := True\<rparr>"
    by (auto simp: m65_json_init_def Let_def json_fail_def)
  then show ?thesis by simp
qed

lemma implements_step:
  assumes "implements f step" "refines j d" "f j = (b, j')"
  shows "if b then \<exists>d'. step d = Some d' \<and> refines j' d' else j_failed j' \<or> j' = j"
proof -
  have "case f j of (b, j') \<Rightarrow> if b then \<exists>d'. step d = Some d' \<and> refines j' d' else j_failed j' \<or> j' = j"
    using assms(1) [unfolded implements_def, THEN conjunct1, THEN spec, THEN spec, THEN mp, OF assms(2)] .
  then show ?thesis unfolding assms(3) prod.case .
qed

lemma implements_failed:
  assumes "implements f step" "j_failed j" "f j = (b, j')"
  shows "\<not> b \<and> j_failed j'"
proof -
  have "case f j of (b, j') \<Rightarrow> \<not> b \<and> j_failed j'"
    using assms(1) [unfolded implements_def, THEN conjunct2, THEN spec, THEN mp, OF assms(2)] .
  then show ?thesis unfolding assms(3) prod.case .
qed

lemma run_op_represented:
  assumes "run_op alloc op j = (b, j')" "represented j" shows "represented j'"
proof (cases "j_failed j")
  case True
  with implements_failed [OF run_op_implements this assms(1)] show ?thesis by (simp add: represented_def)
next
  case False
  with assms(2) obtain d where "refines j d" unfolding represented_def by blast
  from implements_step [OF run_op_implements this assms(1)]
  have "if b then \<exists>d'. doc_step op d = Some d' \<and> refines j' d' else j_failed j' \<or> j' = j" .
  with \<open>refines j d\<close> have "j_failed j' \<or> (\<exists>d. refines j' d)" by (metis (full_types))
  then show ?thesis unfolding represented_def .
qed

lemma run_ops_represented: "run_ops alloc ops j = (b, j') \<Longrightarrow> represented j \<Longrightarrow> represented j'"
proof (induction ops arbitrary: j b)
  case (Cons op ops)
  then show ?case using run_op_represented by (auto split: prod.splits)
qed simp

lemma refines_finish:
  assumes "refines j d" and "m65_json_finish j"
  shows "\<exists>v. d = ([], Some v) \<and> m65_json_data j = render v"
  using assms by (cases d) (auto simp: m65_json_finish_def m65_json_data_def stack_ok_def)

text \<open>The operations that write a value.\<close>

fun ops_of :: "jvalue \<Rightarrow> json_op list" where
  "ops_of (JObj ms) = OpBeginObject # concat (map (\<lambda>(k, v). OpKey (Some k) # ops_of v) ms) @ [OpEndObject]"
| "ops_of (JArr vs) = OpBeginArray # concat (map ops_of vs) @ [OpEndArray]"
| "ops_of (JStr s) = [OpString (Some s)]"
| "ops_of (JNum n) = [if n < 0 then OpInt (word_of_int n) else OpUint (word_of_int n)]"
| "ops_of (JBool b) = [OpBool b]"
| "ops_of JNull = [OpNull]"

text \<open>Values within the writer's limits: 16 levels, and integers of 64 bits.\<close>

fun fits :: "nat \<Rightarrow> jvalue \<Rightarrow> bool" where
  "fits 0 (JObj ms) = False"
| "fits (Suc n) (JObj ms) = list_all (\<lambda>(k, v). fits n v) ms"
| "fits 0 (JArr vs) = False"
| "fits (Suc n) (JArr vs) = list_all (fits n) vs"
| "fits n (JNum i) = (- (2 ^ 63) \<le> i \<and> i < 2 ^ 64)"
| "fits n v = True"

lemma doc_value_run:
  "doc_step op = doc_value v \<Longrightarrow> doc_accepts (fs, root) \<Longrightarrow> doc_run [op] (fs, root) = Some (doc_put v fs)"
  by (simp add: doc_value_def)

lemma ops_of_run:
  "fits n v \<Longrightarrow> doc_accepts (fs, root) \<Longrightarrow> length fs + n \<le> M65_JSON_MAX_DEPTH \<Longrightarrow>
     doc_run (ops_of v) (fs, root) = Some (doc_put v fs)"
proof (induction n v arbitrary: fs root rule: fits.induct)
  case (2 n ms)
  have "doc_run (concat (map (\<lambda>(k, v). OpKey (Some k) # ops_of v) xs)) (FObj ys None # fs, None) =
      Some (FObj (ys @ xs) None # fs, None)" if "set xs \<subseteq> set ms" for xs ys
    using that
  proof (induction xs arbitrary: ys)
    case (Cons x xs)
    obtain k v where x: "x = (k, v)" by force
    have "fits n v" using "2.prems"(1) Cons.prems x by (auto simp: list_all_iff)
    then have "doc_run (ops_of v) (FObj ys (Some k) # fs, None) = Some (FObj (ys @ [(k, v)]) None # fs, None)"
      using "2.IH" [of x] Cons.prems x "2.prems"(3) by (auto simp: accepts_def)
    with Cons x show ?case by (simp add: doc_run_append)
  qed simp
  from this [of ms "[]"] show ?case
    using "2.prems" by (simp add: doc_run_append doc_open_def)
next
  case (4 n vs)
  have "doc_run (concat (map ops_of xs)) (FArr ys # fs, None) = Some (FArr (ys @ xs) # fs, None)"
    if "set xs \<subseteq> set vs" for xs ys
    using that
  proof (induction xs arbitrary: ys)
    case (Cons v xs)
    have "fits n v" using "4.prems"(1) Cons.prems by (auto simp: list_all_iff)
    then have "doc_run (ops_of v) (FArr ys # fs, None) = Some (FArr (ys @ [v]) # fs, None)"
      using "4.IH" [of v] Cons.prems "4.prems"(3) by (auto simp: accepts_def)
    with Cons show ?case by (simp add: doc_run_append)
  qed simp
  from this [of vs "[]"] show ?case
    using "4.prems" by (simp add: doc_run_append doc_open_def)
next
  case (5 n i)
  show ?case
  proof (cases "i < 0")
    case True
    then have "sint (word_of_int i :: 64 word) = i" using 5 by (simp add: signed_of_int signed_take_bit_int_eq_self)
    with True 5 show ?thesis by (simp add: doc_value_def)
  next
    case False
    then have "uint (word_of_int i :: 64 word) = i" using 5 by (simp add: unsigned_of_int take_bit_int_eq_self)
    with False 5 show ?thesis by (simp add: doc_value_def)
  qed
qed (auto simp: doc_value_def)

lemma doc_put_grows:
  "list_all accepts fs \<Longrightarrow> length (outer_text fs) + length (render v) \<le> length (doc_text (doc_put v fs)) \<and>
     list_all accepts (tl (fst (doc_put v fs)))"
  by (cases fs) (auto simp: open_text_put)

lemma doc_accepts_text:
  "doc_accepts (fs, root) \<Longrightarrow> list_all accepts (tl fs) \<Longrightarrow>
     length (doc_text (fs, root)) \<le> length (outer_text fs) \<and> list_all accepts fs"
  by (cases fs; cases root) (auto simp: below_text_def)

lemma doc_value_grows:
  assumes "doc_value v d = Some d'" "list_all accepts (tl (fst d))"
  shows "length (doc_text d) \<le> length (doc_text d') \<and> list_all accepts (tl (fst d'))"
proof -
  obtain fs root where d: "d = (fs, root)" by force
  have a: "doc_accepts (fs, root)" "d' = doc_put v fs" using assms(1) d by (auto simp: doc_value_def split: if_splits)
  with doc_accepts_text [OF a(1)] doc_put_grows [of fs v] assms(2) d show ?thesis by auto
qed

lemma doc_open_grows:
  assumes "doc_open f d = Some d'" "list_all accepts (tl (fst d))"
  shows "length (doc_text d) \<le> length (doc_text d') \<and> list_all accepts (tl (fst d'))"
proof -
  obtain fs root where d: "d = (fs, root)" by force
  have a: "doc_accepts (fs, root)" "d' = (f # fs, None)" using assms(1) d by (auto simp: doc_open_def split: if_splits)
  with doc_accepts_text [OF a(1)] assms(2) d show ?thesis by auto
qed

lemma doc_close_grows:
  assumes "doc_close k d = Some d'" "list_all accepts (tl (fst d))"
  shows "length (doc_text d) \<le> length (doc_text d') \<and> list_all accepts (tl (fst d'))"
proof -
  obtain f fs root where d: "d = (f # fs, root)" using assms(1) by (cases d; cases "fst d") auto
  have a: "d' = doc_put (closed f) fs" "\<not> pending f" using assms(1) d by (auto split: if_splits)
  have "length (open_text f) \<le> length (render (closed f))" using open_text_close [OF a(2), symmetric] by simp
  with a doc_put_grows [of fs "closed f"] assms(2) d show ?thesis by auto
qed

lemma doc_key_grows:
  assumes "doc_key k d = Some d'" "list_all accepts (tl (fst d))"
  shows "length (doc_text d) \<le> length (doc_text d') \<and> list_all accepts (tl (fst d'))"
  using assms by (cases "(k, d)" rule: doc_key.cases) auto

lemma doc_step_grows:
  assumes "doc_step op d = Some d'" "list_all accepts (tl (fst d))"
  shows "length (doc_text d) \<le> length (doc_text d') \<and> list_all accepts (tl (fst d'))"
  using assms
  by (cases op) (auto dest: doc_value_grows doc_open_grows doc_close_grows doc_key_grows split: Option.bind_splits)

lemma doc_run_grows:
  "doc_run ops d = Some d' \<Longrightarrow> list_all accepts (tl (fst d)) \<Longrightarrow> length (doc_text d) \<le> length (doc_text d')"
proof (induction ops arbitrary: d)
  case (Cons op ops)
  then obtain d1 where d1: "doc_step op d = Some d1" "doc_run ops d1 = Some d'" by (auto split: Option.bind_splits)
  from doc_step_grows [OF d1(1) Cons.prems(2)] Cons.IH [OF d1(2)] show ?case by auto
qed simp

lemma run_ops_complete:
  "refines j d \<Longrightarrow> doc_run ops d = Some d' \<Longrightarrow> short (doc_text d') \<Longrightarrow>
     \<exists>j'. run_ops memory ops j = (True, j') \<and> refines j' d'"
proof (induction ops arbitrary: j d)
  case (Cons op ops)
  obtain d1 where d1: "doc_step op d = Some d1" "doc_run ops d1 = Some d'"
    using Cons.prems(2) by (auto split: Option.bind_splits)
  have acc: "list_all accepts (tl (fst d))" using Cons.prems(1) by (cases d) auto
  have "length (doc_text d1) \<le> length (doc_text d')"
    using doc_run_grows [OF d1(2)] doc_step_grows [OF d1(1) acc] by simp
  then have sh: "short (doc_text d1)" using Cons.prems(3) by (simp add: short_def)
  obtain b j1 where r: "run_op memory op j = (b, j1)" by force
  have "fst (run_op memory op j)"
    using run_op_completes [of op] Cons.prems(1) d1(1) sh unfolding completes_def by blast
  then have b: b using r by simp
  then have "refines j1 d1"
    using implements_step [OF run_op_implements Cons.prems(1) r] d1(1) by simp
  from Cons.IH [OF this d1(2) Cons.prems(3)] r b show ?case by auto
qed auto

section \<open>Reading strings back\<close>

definition hex_value :: "char \<Rightarrow> nat" where
  "hex_value c = (let n = (of_char c :: nat) in if n \<le> 0x39 then n - 0x30 else n - 0x57)"

text \<open>The inverse of \<open>escape_char\<close> on the front of a text: the character and what follows it.\<close>

fun unescape :: "string \<Rightarrow> (char \<times> string) option" where
  "unescape [] = None"
| "unescape (c # cs) =
     (if c = CHR 0x22 \<or> (of_char c :: nat) < 0x20 then None
      else if c = CHR 0x5c then
        (case cs of
           [] \<Rightarrow> None
         | e # rest \<Rightarrow>
             if e = CHR 0x22 \<or> e = CHR 0x5c then Some (e, rest)
             else if e = CHR ''b'' then Some (CHR 0x08, rest)
             else if e = CHR ''f'' then Some (CHR 0x0c, rest)
             else if e = CHR ''n'' then Some (CHR 0x0a, rest)
             else if e = CHR ''r'' then Some (CHR 0x0d, rest)
             else if e = CHR ''t'' then Some (CHR 0x09, rest)
             else if e = CHR ''u'' then
               (case rest of
                  h1 # h2 # h3 # h4 # rest \<Rightarrow>
                    Some (char_of (((hex_value h1 * 16 + hex_value h2) * 16 + hex_value h3) * 16 + hex_value h4), rest)
                | _ \<Rightarrow> None)
             else None)
      else Some (c, cs))"

lemma unescape_shorter: "unescape s = Some (c, rest) \<Longrightarrow> length rest < length s"
  by (cases s) (auto split: if_splits list.splits)

function unquote_body :: "string \<Rightarrow> (string \<times> string) option" where
  "unquote_body s =
     (case s of
        [] \<Rightarrow> None
      | c # cs \<Rightarrow>
          if c = CHR 0x22 then Some ([], cs)
          else (case unescape s of
                  None \<Rightarrow> None
                | Some (d, rest) \<Rightarrow> map_option (\<lambda>(ds, r). (d # ds, r)) (unquote_body rest)))"
  by pat_completeness auto
termination
  by (relation "measure length") (auto dest: unescape_shorter simp del: unescape.simps)

declare unquote_body.simps [simp del]

definition unquote :: "string \<Rightarrow> (string \<times> string) option" where
  "unquote s = (case s of c # cs \<Rightarrow> if c = CHR 0x22 then unquote_body cs else None | [] \<Rightarrow> None)"

lemma unescape_quote: "unescape [] = None" "unescape (CHR 0x22 # t) = None"
  by simp_all

lemma control_chars:
  "char_of (8 :: nat) = CHR 0x08" "char_of (9 :: nat) = CHR 0x09" "char_of (10 :: nat) = CHR 0x0a"
  "char_of (12 :: nat) = CHR 0x0c" "char_of (13 :: nat) = CHR 0x0d"
  by (simp_all add: char_of_eq_iff take_bit_eq_mod)

lemma hex_digits_4: "hex_digits 4 n = [hex_digit (n div 16 div 16 div 16), hex_digit (n div 16 div 16), hex_digit (n div 16), hex_digit n]"
proof -
  have "4 = Suc (Suc (Suc (Suc 0)))" by simp
  then show ?thesis by (simp only: hex_digits.simps append.simps)
qed

lemma unescape_escape: "unescape (escape_char c @ rest) = Some (c, rest)"
proof (cases "(of_char c :: nat) < 0x20")
  case True
  then have "of_char c \<in> {0, 1, 2, 3, 4, 5, 6, 7, 8, 9, 10, 11, 12, 13, 14, 15, 16, 17, 18, 19, 20, 21,
      22, 23, 24, 25, 26, 27, 28, 29, 30, 31 :: nat}"
    unfolding insert_iff empty_iff by presburger
  then have "\<exists>n \<in> {0, 1, 2, 3, 4, 5, 6, 7, 8, 9, 10, 11, 12, 13, 14, 15, 16, 17, 18, 19, 20, 21,
      22, 23, 24, 25, 26, 27, 28, 29, 30, 31 :: nat}. c = char_of n"
    by (intro bexI [of _ "of_char c"]) simp_all
  then show ?thesis
    by (elim bexE insertE emptyE) (simp_all add: escape_char_def hex_digits_4 hex_digit_def hex_value_def Let_def control_chars)
next
  case False
  have "c = CHR 0x22 \<longleftrightarrow> of_char c = (of_char CHR 0x22 :: nat)"
    "c = CHR 0x5c \<longleftrightarrow> of_char c = (of_char CHR 0x5c :: nat)"
    by (simp_all only: of_char_eq_iff)
  then have e: "c = CHR 0x22 \<longleftrightarrow> of_char c = (0x22 :: nat)" "c = CHR 0x5c \<longleftrightarrow> of_char c = (0x5c :: nat)"
    by simp_all
  show ?thesis using False e by (auto simp: escape_char_def Let_def) 
qed

lemma unquote_quote: "unquote (quote s @ rest) = Some (s, rest)"
proof -
  have "unquote_body (concat (map escape_char s) @ CHR 0x22 # rest) = Some (s, rest)"
  proof (induction s)
    case Nil
    show ?case by (simp add: unquote_body.simps)
  next
    case (Cons c s)
    let ?t = "concat (map escape_char s) @ CHR 0x22 # rest"
    have "unescape (escape_char c @ ?t) = Some (c, ?t)" by (rule unescape_escape)
    moreover obtain x xs where x: "escape_char c @ ?t = x # xs" "x \<noteq> CHR 0x22"
      using calculation unescape_quote by (cases "escape_char c @ ?t") (metis option.distinct(1))+
    ultimately show ?case using Cons by (simp add: unquote_body.simps [of "x # xs"] del: unescape.simps)
  qed
  then show ?thesis by (simp add: unquote_def quote_def)
qed


section \<open>Properties\<close>

text \<open>C36 Whatever operations are called in whatever order, with whatever results and allocation
  failures ignored, a writer that says it is finished holds the text of exactly one JSON value:
  commas, colons, quotes and brackets are all in place.\<close>

theorem json_finished_is_value:
  "case m65_json_init alloc of (b, j) \<Rightarrow>
     (case run_ops alloc ops j of (b', j') \<Rightarrow>
        if m65_json_finish j' then \<exists>v. m65_json_data j' = render v else True)"
proof -
  obtain b j where i: "m65_json_init alloc = (b, j)" by force
  obtain b' j' where r: "run_ops alloc ops j = (b', j')" by force
  have "represented j" using init_represented [OF i] unfolding represented_def by (cases b) (simp_all, blast?)
  then have "represented j'" by (rule run_ops_represented [OF r])
  then have "\<exists>v. m65_json_data j' = render v" if "m65_json_finish j'"
    using that refines_finish unfolding represented_def by (metis m65_json_finish_def)
  with i r show ?thesis by simp
qed

text \<open>Every JSON value of at most sixteen levels with 64-bit integers can be written: with memory
  to be had every operation succeeds, the writer is finished and holds exactly the value's text.\<close>

theorem json_writes_value:
  assumes "fits 16 v" and "length (render v) < 2 ^ 62"
  shows "case m65_json_init (\<lambda>_. True) of (b, j) \<Rightarrow> b \<and>
    (case run_ops (\<lambda>_. True) (ops_of v) j of (b', j') \<Rightarrow>
       b' \<and> m65_json_finish j' \<and> m65_json_data j' = render v)"
proof -
  obtain b j where i: "m65_json_init memory = (b, j)" by force
  have b: b using i by (auto simp: m65_json_init_def Let_def)
  with init_represented [OF i] have r: "refines j ([], None)" by simp
  have "doc_run (ops_of v) ([], None) = Some (doc_put v [])"
    by (rule ops_of_run [OF assms(1)]) (simp_all add: M65_JSON_MAX_DEPTH_def)
  from run_ops_complete [OF r this] assms(2) obtain j' where
    j': "run_ops memory (ops_of v) j = (True, j')" "refines j' ([], Some v)"
    by (auto simp: short_def)
  then have "m65_json_finish j' \<and> m65_json_data j' = render v"
    by (auto simp: m65_json_finish_def m65_json_data_def buffer_ok_def stack_ok_def)
  with i b j' show ?thesis by simp
qed

theorem json_writes_value_witness:
  "case m65_json_init (\<lambda>_. True) of (b, j) \<Rightarrow>
    (case run_ops (\<lambda>_. True) (ops_of (JObj [(''a'', JArr [JNum 7, JStr [CHR 0x22]])])) j of (b', j') \<Rightarrow>
       m65_json_finish j')"
proof -
  let ?v = "JObj [(''a'', JArr [JNum 7, JStr [CHR 0x22]])]"
  have f: "fits 16 ?v" by (simp add: eval_nat_numeral)
  have l: "length (render ?v) < 2 ^ 62"
    by (simp add: quote_def escape_char_def int_text_def dec_string.simps)
  from json_writes_value [OF f l] show ?thesis by (auto split: prod.splits)
qed

text \<open>A written string reads back as it was, whatever bytes it holds: escaping is reversible and
  the closing quote is the first unescaped one.\<close>

theorem json_string_roundtrip:
  "case append_escaped (\<lambda>_. True) s (zero_json\<lparr>j_capacity := 256, j_data := Some []\<rparr>) of (b, j) \<Rightarrow>
     if b then unquote (m65_json_data j @ rest) = Some (s, rest) else j_failed j"
proof -
  let ?j = "zero_json\<lparr>j_capacity := 256, j_data := Some []\<rparr>"
  have "buffer_ok ?j" by (simp add: buffer_ok_def zero_json_def json_text_def)
  from writesD [OF append_escaped_writes this, of s memory] show ?thesis
    by (auto simp: appends_def m65_json_data_def json_text_def unquote_quote split: prod.splits)
qed

end
