(* ===== verification/M65_Output.thy ===== *)
theory M65_Output
  imports M65_JsonProps M65_Device M65_Test1581
begin

text \<open>
  The reports (\<open>src/output.c\<close>): JSON on the writer, and text.

  The JSON functions ignore what the writer's calls return, so a static function that writes a
  fragment is the list of the calls it makes, and \<open>m65_output_...\<close> performs the calls of its body on
  the writer \<open>json_top\<close> opened. A function that prints returns what it prints to standard output;
  the JSON ones return their result, standard output and standard error. \<open>M65FlexibleDiskPage\<close> has
  one flag for each of the fields in the order of the enumeration.
\<close>

definition M65_SCHEMA_VERSION :: "64 word" where "M65_SCHEMA_VERSION = 1"

definition nl :: string where "nl = [CHR 0x0a]"

abbreviation (input) Key :: "string \<Rightarrow> json_op" where "Key k \<equiv> OpKey (Some k)"
abbreviation (input) Str :: "string \<Rightarrow> json_op" where "Str s \<equiv> OpString (Some s)"

text \<open>A field of a device, or the default where there is no device.\<close>

definition field_of :: "'a \<Rightarrow> (device_info \<Rightarrow> 'a) \<Rightarrow> device_info option \<Rightarrow> 'a" where
  "field_of fallback field device = (case device of None \<Rightarrow> fallback | Some d \<Rightarrow> field d)"

section \<open>Fragments\<close>

definition json_identifier :: "u16 \<Rightarrow> json_op list" where
  "json_identifier value =
     [OpBeginObject, Key ''numeric'', OpUint (ucast value),
      Key ''hex'', Str (''0x'' @ hex_digits 4 (unat value)), OpEndObject]"

definition json_device_fields :: "device_info option \<Rightarrow> json_op list" where
  "json_device_fields device =
     [Key ''bsd_name'',
      (if device \<noteq> None \<and> field_of [] d_bsd_name device \<noteq> []
       then Str (field_of [] d_bsd_name device) else OpNull),
      Key ''name'', Str (field_of [] d_media_name device),
      Key ''usb'', OpBeginObject] @
     Key ''vid'' # json_identifier (field_of 0 d_usb_vid device) @
     Key ''pid'' # json_identifier (field_of 0 d_usb_pid device) @
     Key ''device_revision'' # json_identifier (field_of 0 d_usb_device_revision device) @
     [Key ''manufacturer'', Str (field_of [] d_usb_manufacturer device),
      Key ''product'', Str (field_of [] d_usb_product device),
      Key ''product_revision'', Str (field_of [] d_product_revision device),
      Key ''known_controller'', OpBool (field_of False d_known_controller device),
      OpEndObject]"

definition json_media_fields :: "device_info option \<Rightarrow> json_op list" where
  "json_media_fields device =
     [Key ''present'', OpBool (field_of False d_media_present device),
      Key ''external'', OpBool (field_of False d_external device),
      Key ''removable'', OpBool (field_of False d_removable device),
      Key ''whole'', OpBool (field_of False d_whole device),
      Key ''mounted'', OpBool (field_of False d_mounted device),
      Key ''capacity_bytes'', OpUint (field_of 0 d_capacity_bytes device),
      Key ''block_size'', OpUint (ucast (field_of 0 d_block_size device)),
      Key ''permissions'', OpBeginObject,
      Key ''raw_path'', Str (field_of [] d_raw_path device),
      Key ''readable'', OpBool (field_of False d_readable device),
      Key ''errno'', OpInt (word_of_int (field_of 0 d_permission_errno device)),
      OpEndObject]"

definition json_sense :: "m65_sense option \<Rightarrow> json_op list" where
  "json_sense sense =
     [OpBeginObject,
      Key ''valid'', OpBool (case sense of None \<Rightarrow> False | Some s \<Rightarrow> sense_valid s),
      Key ''sense_key'', OpUint (case sense of None \<Rightarrow> 0 | Some s \<Rightarrow> ucast (sense_key s)),
      Key ''asc'', OpUint (case sense of None \<Rightarrow> 0 | Some s \<Rightarrow> ucast (sense_asc s)),
      Key ''ascq'', OpUint (case sense of None \<Rightarrow> 0 | Some s \<Rightarrow> ucast (sense_ascq s)),
      OpEndObject]"

definition changeable_names :: "flexible_disk_page \<Rightarrow> string list" where
  "changeable_names page =
     map (\<lambda>i. m65_flexible_field_name (flexible_field_order ! i))
       (filter (\<lambda>i. fp_field_changeable page ! i) [0..<length flexible_field_order])"

definition json_flexible :: "flexible_disk_page \<Rightarrow> bool \<Rightarrow> json_op list" where
  "json_flexible page include_changeable =
     [OpBeginObject,
      Key ''transfer_rate_kbit_s'', OpUint (ucast (fp_transfer_rate_kbit page)),
      Key ''heads'', OpUint (ucast (fp_heads page)),
      Key ''sectors_per_track'', OpUint (ucast (fp_sectors_per_track page)),
      Key ''bytes_per_sector'', OpUint (ucast (fp_bytes_per_sector page)),
      Key ''cylinders'', OpUint (ucast (fp_cylinders page)),
      Key ''medium_rotation_rate_rpm'', OpUint (ucast (fp_medium_rotation_rate_rpm page))] @
     (if include_changeable
      then [Key ''changeable_fields'', OpBeginArray] @
           concat (map (\<lambda>name. [Str name]) (changeable_names page)) @ [OpEndArray]
      else []) @
     [OpEndObject]"

definition json_errors :: "string option \<Rightarrow> m65_sense option \<Rightarrow> json_op list" where
  "json_errors error sense =
     [Key ''errors'', OpBeginArray] @
     (case error of
        None \<Rightarrow> []
      | Some text \<Rightarrow>
          if text \<noteq> [] then
            [OpBeginObject, Key ''message'', Str text] @
            (case sense of
               None \<Rightarrow> []
             | Some s \<Rightarrow> if sense_valid s then Key ''sense'' # json_sense sense else []) @
            [OpEndObject]
          else []) @
     [OpEndArray]"

section \<open>Opening and emitting\<close>

type_synonym emitted = "bool \<times> string \<times> string"

definition json_emit :: "json \<Rightarrow> emitted" where
  "json_emit json =
     (if m65_json_finish json then (True, m65_json_data json @ nl, [])
      else (False, [], ''internal error: failed to construct JSON output'' @ nl))"

definition json_top :: "(nat \<Rightarrow> bool) \<Rightarrow> string \<Rightarrow> bool \<times> json" where
  "json_top alloc command =
     (case m65_json_init alloc of
        (False, json) \<Rightarrow> (False, json)
      | (True, json) \<Rightarrow>
          (case and_then (m65_json_begin_object alloc)
                (and_then (m65_json_key alloc (Some ''schema_version''))
                (and_then (m65_json_uint alloc M65_SCHEMA_VERSION)
                (and_then (m65_json_key alloc (Some ''command''))
                (and_then (m65_json_begin_object alloc)
                (and_then (m65_json_key alloc (Some ''name''))
                (and_then (m65_json_string alloc (Some command))
                          (m65_json_end_object alloc))))))) json of
             (False, json) \<Rightarrow> (False, m65_json_destroy json)
           | (True, json) \<Rightarrow> (True, json)))"

text \<open>The body of an \<open>m65_output_...\<close> function behind \<open>json_top\<close>.\<close>

definition output_json :: "(nat \<Rightarrow> bool) \<Rightarrow> string \<Rightarrow> json_op list \<Rightarrow> emitted" where
  "output_json alloc command calls =
     (case json_top alloc command of
        (False, json) \<Rightarrow> (False, [], [])
      | (True, json) \<Rightarrow> json_emit (snd (run_ops alloc calls json)))"

definition json_object :: "string \<Rightarrow> json_op list \<Rightarrow> json_op list" where
  "json_object key members = [Key key, OpBeginObject] @ members @ [OpEndObject]"

section \<open>Reports as JSON\<close>

definition candidate_calls :: "device_info \<Rightarrow> json_op list" where
  "candidate_calls device =
     OpBeginObject # json_device_fields (Some device) @
       json_object ''media'' (json_media_fields (Some device)) @ [OpEndObject]"

definition m65_output_list_json :: "(nat \<Rightarrow> bool) \<Rightarrow> device_list option \<Rightarrow> string option \<Rightarrow> emitted" where
  "m65_output_list_json alloc devices error =
     (let items = (case devices of None \<Rightarrow> [] | Some items \<Rightarrow> items)
      in output_json alloc ''list''
           (json_object ''device''
              ([Key ''candidates'', OpBeginArray] @ concat (map candidate_calls items) @ [OpEndArray]) @
            json_object ''media'' [Key ''candidate_count'', OpUint (of_nat (length items))] @
            json_object ''ufi'' [] @
            json_object ''result''
              [Key ''status'', Str (if error = None then ''ok'' else ''error''),
               Key ''reason'', Str (case error of None \<Rightarrow> ''enumeration completed'' | Some text \<Rightarrow> text)] @
            json_errors error None @
            [OpEndObject]))"

definition m65_output_error_json ::
    "(nat \<Rightarrow> bool) \<Rightarrow> string option \<Rightarrow> device_info option \<Rightarrow> string option \<Rightarrow> emitted" where
  "m65_output_error_json alloc command device error =
     output_json alloc (case command of None \<Rightarrow> ''invalid'' | Some text \<Rightarrow> text)
       (json_object ''device'' (json_device_fields device) @
        json_object ''media'' (json_media_fields device) @
        json_object ''ufi'' [] @
        json_object ''result''
          [Key ''status'', Str ''error'',
           Key ''reason'', Str (case error of None \<Rightarrow> ''unknown error'' | Some text \<Rightarrow> text)] @
        json_errors error None @
        [OpEndObject])"

definition format_calls :: "format_descriptor \<Rightarrow> json_op list" where
  "format_calls descriptor =
     [OpBeginObject, Key ''blocks'', OpUint (ucast (fd_blocks descriptor)),
      Key ''block_size'', OpUint (ucast (fd_block_size descriptor)),
      Key ''descriptor_code'', OpUint (ucast (fd_descriptor_code descriptor)), OpEndObject]"

text \<open>\<open>report->code == M65_PROBE_OK ? NULL : report->reason\<close>.\<close>

definition report_error :: "probe_code \<Rightarrow> string \<Rightarrow> string option" where
  "report_error code reason = (if code = PROBE_OK then None else Some reason)"

definition m65_output_inspect_json :: "(nat \<Rightarrow> bool) \<Rightarrow> device_info \<Rightarrow> inspect_report \<Rightarrow> emitted" where
  "m65_output_inspect_json alloc device report =
     output_json alloc ''inspect''
       (json_object ''device'' (json_device_fields (Some device)) @
        json_object ''media'' (json_media_fields (Some device)) @
        json_object ''ufi''
          (json_object ''inquiry''
             [Key ''vendor'', Str (inq_vendor (ir_inquiry report)),
              Key ''product'', Str (inq_product (ir_inquiry report)),
              Key ''firmware'', Str (inq_firmware (ir_inquiry report))] @
           [Key ''test_unit_ready'', OpBool (ir_unit_ready report)] @
           json_object ''capacity''
             [Key ''blocks'', OpUint (ucast (cap_blocks (ir_capacity report))),
              Key ''block_size'', OpUint (ucast (cap_block_size (ir_capacity report))),
              Key ''bytes'', OpUint (ucast (cap_blocks (ir_capacity report)) *
                                     ucast (cap_block_size (ir_capacity report)))] @
           [Key ''format_capacities'', OpBeginArray] @
             concat (map format_calls (ir_format_capacities report)) @ [OpEndArray] @
           Key ''flexible_disk'' # json_flexible (mp_flexible (ir_current_mode report)) True @
           Key ''sense'' # json_sense (Some (ir_sense report))) @
        json_object ''result''
          [Key ''status'', Str (if ir_code report = PROBE_OK then ''ok'' else ''error''),
           Key ''reason'', Str (ir_reason report)] @
        json_errors (report_error (ir_code report) (ir_reason report)) (Some (ir_sense report)) @
        [OpEndObject])"

definition m65_output_1581_json ::
    "(nat \<Rightarrow> bool) \<Rightarrow> device_info \<Rightarrow> report_1581 \<Rightarrow> string option \<Rightarrow> emitted" where
  "m65_output_1581_json alloc device report output_path =
     output_json alloc ''test-1581''
       (json_object ''device'' (json_device_fields (Some device)) @
        json_object ''media'' (json_media_fields (Some device)) @
        json_object ''ufi''
          (Key ''original_flexible_disk'' # json_flexible (tr_original report) True @
           Key ''requested_flexible_disk'' # json_flexible (tr_requested report) False @
           Key ''accepted_flexible_disk'' # json_flexible (tr_accepted report) False @
           Key ''sense'' # json_sense (Some (tr_sense report))) @
        json_object ''result''
          [Key ''status'', Str (m65_1581_status_text (tr_status report)),
           Key ''reason'', Str (tr_reason report),
           Key ''acknowledgement_supplied'', OpBool (tr_acknowledgement_supplied report),
           Key ''original_parameters_saved'', OpBool (tr_original_saved report),
           Key ''controller_restored'', OpBool (tr_controller_restored report),
           Key ''boundary_lba_9_read'', OpBool (tr_boundary_lba_9_read report),
           Key ''boundary_lba_1599_read'', OpBool (tr_boundary_lba_1599_read report),
           Key ''repeated_reads_match'', OpBool (tr_repeated_reads_match report),
           Key ''output'',
           (if output_path \<noteq> None \<and> tr_code report = PROBE_OK then Str (the output_path) else OpNull)] @
        json_errors (report_error (tr_code report) (tr_reason report)) (Some (tr_sense report)) @
        [OpEndObject])"

section \<open>Reports as text\<close>

definition u_dec :: "'a::len word \<Rightarrow> string" where "u_dec w = dec_string (unat w)"

definition either_text :: "bool \<Rightarrow> string \<Rightarrow> string \<Rightarrow> string" where
  "either_text condition one other = (if condition then one else other)"

definition device_lines :: "device_info \<Rightarrow> string" where
  "device_lines device =
     d_bsd_name device @ nl @
     ''  Name: '' @ d_media_name device @ nl @
     ''  USB: '' @ d_usb_manufacturer device @ '' / '' @ d_usb_product device @
     '', VID 0x'' @ hex_digits 4 (unat (d_usb_vid device)) @ '' ('' @ u_dec (d_usb_vid device) @
     ''), PID 0x'' @ hex_digits 4 (unat (d_usb_pid device)) @ '' ('' @ u_dec (d_usb_pid device) @
     ''), revision '' @ d_product_revision device @ nl @
     ''  Media: '' @ either_text (d_media_present device) ''present'' ''not present'' @ '', '' @
     u_dec (d_capacity_bytes device) @ '' bytes, '' @ u_dec (d_block_size device) @ ''-byte blocks, '' @
     either_text (d_external device) ''external'' ''internal'' @ '', '' @
     either_text (d_removable device) ''removable'' ''not removable'' @ '', '' @
     either_text (d_whole device) ''whole'' ''not whole'' @ '', '' @
     either_text (d_mounted device) ''mounted'' ''unmounted'' @ nl @
     ''  Permissions: '' @ either_text (d_readable device) ''readable'' ''permission denied'' @
     '' ('' @ d_raw_path device @ '')'' @ nl"

definition m65_output_list_human :: "device_list option \<Rightarrow> string option \<Rightarrow> string" where
  "m65_output_list_human devices error =
     (case error of None \<Rightarrow> [] | Some text \<Rightarrow> ''Result: '' @ text @ nl) @
     (case devices of
        None \<Rightarrow> ''No matching TEAC USB floppy device found.'' @ nl
      | Some items \<Rightarrow>
          if items = [] then ''No matching TEAC USB floppy device found.'' @ nl
          else concat (map device_lines items))"

definition sense_line :: "m65_sense \<Rightarrow> string" where
  "sense_line sense =
     (if sense_valid sense
      then ''Sense: key 0x'' @ hex_digits 2 (unat (sense_key sense)) @ '', ASC 0x'' @
           hex_digits 2 (unat (sense_asc sense)) @ '', ASCQ 0x'' @
           hex_digits 2 (unat (sense_ascq sense)) @ nl
      else [])"

definition format_line :: "format_descriptor \<Rightarrow> string" where
  "format_line descriptor =
     ''  '' @ u_dec (fd_blocks descriptor) @ '' blocks x '' @ u_dec (fd_block_size descriptor) @
     '' bytes (descriptor code '' @ u_dec (fd_descriptor_code descriptor) @ '')'' @ nl"

definition m65_output_inspect_human :: "device_info \<Rightarrow> inspect_report \<Rightarrow> string" where
  "m65_output_inspect_human device report =
     (let page = mp_flexible (ir_current_mode report);
          blocks = cap_blocks (ir_capacity report);
          block_size = cap_block_size (ir_capacity report)
      in ''Device: '' @ d_bsd_name device @ nl @
         ''INQUIRY: vendor '' @ [CHR 0x22] @ inq_vendor (ir_inquiry report) @ [CHR 0x22] @
         '', product '' @ [CHR 0x22] @ inq_product (ir_inquiry report) @ [CHR 0x22] @
         '', firmware '' @ [CHR 0x22] @ inq_firmware (ir_inquiry report) @ [CHR 0x22] @ nl @
         ''TEST UNIT READY: '' @ either_text (ir_unit_ready report) ''ready'' ''not ready'' @ nl @
         ''Capacity: '' @ u_dec blocks @ '' blocks x '' @ u_dec block_size @ '' bytes = '' @
         u_dec (ucast blocks * ucast block_size :: 64 word) @ '' bytes'' @ nl @
         ''Advertised format capacities:'' @ nl @
         concat (map format_line (ir_format_capacities report)) @
         ''Flexible Disk: '' @ u_dec (fp_transfer_rate_kbit page) @ '' kbit/s, '' @
         u_dec (fp_heads page) @ '' heads, '' @ u_dec (fp_sectors_per_track page) @ '' sectors/track, '' @
         u_dec (fp_bytes_per_sector page) @ '' bytes/sector, '' @ u_dec (fp_cylinders page) @
         '' cylinders, '' @ u_dec (fp_medium_rotation_rate_rpm page) @ '' RPM'' @ nl @
         ''Changeable Flexible Disk fields:'' @
         concat (map (\<lambda>name. '' '' @ name) (changeable_names page)) @
         nl @ ''Result: '' @ ir_reason report @ nl @
         sense_line (ir_sense report))"

definition m65_output_1581_human :: "device_info \<Rightarrow> report_1581 \<Rightarrow> string option \<Rightarrow> string" where
  "m65_output_1581_human device report output_path =
     ''Device: '' @ d_bsd_name device @ nl @
     ''1581 geometry result: '' @ m65_1581_status_text (tr_status report) @ nl @
     ''Reason: '' @ tr_reason report @ nl @
     ''Original parameters saved: '' @ either_text (tr_original_saved report) ''yes'' ''no'' @ nl @
     ''Original parameters restored: '' @ either_text (tr_controller_restored report) ''yes'' ''no'' @ nl @
     ''Boundary reads: LBA 9 '' @ either_text (tr_boundary_lba_9_read report) ''read'' ''not read'' @
     '', LBA 1599 '' @ either_text (tr_boundary_lba_1599_read report) ''read'' ''not read'' @ nl @
     ''Repeated complete reads: '' @
     either_text (tr_repeated_reads_match report) ''matched'' ''did not match/not completed'' @ nl @
     (if output_path \<noteq> None \<and> tr_code report = PROBE_OK
      then ''New image written: '' @ the output_path @ '' ('' @ dec_string (tr_image_length report) @
           '' bytes)'' @ nl
      else []) @
     sense_line (tr_sense report)"

end
