(* ===== verification/M65_Files.thy ===== *)
theory M65_Files
  imports M65_Prelude
begin

text \<open>
  The output file of \<open>src/main.c\<close> (\<open>forbidden_output_path\<close>, \<open>write_new_image\<close>). The file system is the
  content of every path that exists; the POSIX calls act on it, and whether they succeed, and how many
  bytes a \<open>write\<close> takes, is the host's choice. No other process works on the same path meanwhile.
\<close>

section \<open>The file system\<close>

type_synonym files = "string \<Rightarrow> bytes option"

text \<open>\<open>fh_write written n\<close> answers a \<open>write\<close> of \<open>n\<close> bytes behind \<open>written\<close> ones: an \<open>errno\<close>, or a number
  of bytes, at most \<open>n\<close> of which count.\<close>

record files_host =
  fh_open_error :: "string \<Rightarrow> int option"
  fh_write :: "nat \<Rightarrow> nat \<Rightarrow> int + nat"
  fh_close_error :: "int option"
  fh_unlinks :: bool
  fh_strerror :: "int \<Rightarrow> string"

definition EEXIST :: int where "EEXIST = 17"

text \<open>\<open>open\<close> with \<open>O_WRONLY | O_CREAT | O_EXCL\<close>.\<close>

definition open_exclusively :: "files_host \<Rightarrow> string \<Rightarrow> files \<Rightarrow> int + files" where
  "open_exclusively host path files =
     (if files path \<noteq> None then Inl EEXIST
      else (case fh_open_error host path of
              Some errno \<Rightarrow> Inl errno
            | None \<Rightarrow> Inr (files(path \<mapsto> []))))"

definition unlink_file :: "files_host \<Rightarrow> string \<Rightarrow> files \<Rightarrow> files" where
  "unlink_file host path files = (if fh_unlinks host then files(path := None) else files)"

definition append_to :: "string \<Rightarrow> bytes \<Rightarrow> files \<Rightarrow> files" where
  "append_to path new files =
     files(path \<mapsto> (case files path of None \<Rightarrow> [] | Some content \<Rightarrow> content) @ new)"

section \<open>Writing the image\<close>

definition forbidden_output_path :: "string option \<Rightarrow> bool" where
  "forbidden_output_path path =
     (case path of
        None \<Rightarrow> True
      | Some p \<Rightarrow> take 9 p = ''/dev/disk'' \<or> take 10 p = ''/dev/rdisk'')"

text \<open>The loop over \<open>write\<close>: the reason it stopped early, if it did.\<close>

function write_loop :: "files_host \<Rightarrow> string \<Rightarrow> bytes \<Rightarrow> nat \<Rightarrow> nat \<Rightarrow> files \<Rightarrow> string option \<times> files" where
  "write_loop host path img len written files =
     (if written < len then
        (case fh_write host written (len - written) of
           Inl errno \<Rightarrow> (Some (fh_strerror host errno), files)
         | Inr result \<Rightarrow>
             if result = 0 then (Some ''zero-byte write'', files)
             else let n = min result (len - written)
                  in write_loop host path img len (written + n)
                       (append_to path (take n (drop written img)) files))
      else (None, files))"
  by pat_completeness auto
termination by (relation "measure (\<lambda>(_, _, _, len, written, _). len - written)") auto

declare write_loop.simps [simp del]

text \<open>The detail is written on a failure only.\<close>

definition write_new_image ::
    "files_host \<Rightarrow> string option \<Rightarrow> bytes \<Rightarrow> nat \<Rightarrow> string \<Rightarrow> files \<Rightarrow> bool \<times> string \<times> files" where
  "write_new_image host path img len detail files =
     (case path of
        Some name \<Rightarrow>
          if forbidden_output_path (Some name)
          then (False, error_text ''output must be a new regular file, never a /dev disk node'', files)
          else
            (case open_exclusively host name files of
               Inl errno \<Rightarrow>
                 (False, error_text (''cannot create output file exclusively: '' @ fh_strerror host errno), files)
             | Inr files \<Rightarrow>
                 (case write_loop host name img len 0 files of
                    (Some reason, files) \<Rightarrow>
                      (False, error_text (''output write failed: '' @ reason), unlink_file host name files)
                  | (None, files) \<Rightarrow>
                      (case fh_close_error host of
                         Some errno \<Rightarrow>
                           (False, error_text (''closing output failed: '' @ fh_strerror host errno),
                            unlink_file host name files)
                       | None \<Rightarrow> (True, detail, files))))
      | None \<Rightarrow> (False, error_text ''output must be a new regular file, never a /dev disk node'', files))"

section \<open>All of the image or nothing\<close>

lemma append_to_same [simp]: "append_to path new (files(path \<mapsto> old)) = files(path \<mapsto> old @ new)"
  by (simp add: append_to_def)

lemma unlink_new: "unlink_file host path (files(path \<mapsto> x)) = (if fh_unlinks host then files(path := None) else files(path \<mapsto> x))"
  by (simp add: unlink_file_def)

lemma take_extend: "written + n \<le> len \<Longrightarrow> take written img @ take n (drop written img) = take (written + n) img"
  by (simp add: take_add)

lemma write_loop_content:
  "written \<le> len \<Longrightarrow>
     case write_loop host path img len written (files(path \<mapsto> take written img)) of (failure, files') \<Rightarrow>
       \<exists>n \<le> len. files' = files(path \<mapsto> take n img) \<and> (failure = None \<longrightarrow> n = len)"
proof (induction "len - written" arbitrary: written rule: less_induct)
  case less
  show ?case
  proof (cases "written < len")
    case False
    with less.prems show ?thesis by (subst write_loop.simps) auto
  next
    case True
    show ?thesis
    proof (cases "fh_write host written (len - written)")
      case (Inl errno)
      with True show ?thesis by (subst write_loop.simps) (auto intro!: exI [of _ written])
    next
      case (Inr result)
      show ?thesis
      proof (cases "result = 0")
        case True
        with \<open>written < len\<close> Inr show ?thesis by (subst write_loop.simps) (auto intro!: exI [of _ written])
      next
        case False
        define n where "n = min result (len - written)"
        have n: "0 < n" "written + n \<le> len" using False True by (auto simp: n_def)
        have "write_loop host path img len written (files(path \<mapsto> take written img)) =
            write_loop host path img len (written + n) (files(path \<mapsto> take (written + n) img))"
          using True Inr False n by (subst write_loop.simps) (simp add: n_def [symmetric] take_extend)
        with less.hyps [of "written + n"] n True show ?thesis by simp
      qed
    qed
  qed
qed

text \<open>The outcomes of writing.\<close>

lemma write_new_image_cases:
  assumes "write_new_image host path img len detail files = (success, detail', files')"
  obtains
    (refused) "\<not> success" "files' = files"
  | (partial) name n where "path = Some name" "\<not> success" "files name = None" "n \<le> len"
      "files' = unlink_file host name (files(name \<mapsto> take n img))"
  | (complete) name where "path = Some name" "success" "files name = None" "\<not> forbidden_output_path path"
      "detail' = detail" "files' = files(name \<mapsto> take len img)"
proof (cases path)
  case None
  with assms refused show thesis by (simp add: write_new_image_def)
next
  case (Some name)
  show thesis
  proof (cases "forbidden_output_path (Some name) \<or> files name \<noteq> None \<or> fh_open_error host name \<noteq> None")
    case True
    with assms refused Some show thesis
      by (auto simp: write_new_image_def open_exclusively_def split: if_splits option.splits)
  next
    case False
    then have o: "open_exclusively host name files = Inr (files(name \<mapsto> []))" "files name = None"
      "\<not> forbidden_output_path (Some name)"
      by (auto simp: open_exclusively_def)
    obtain failure f where w: "write_loop host name img len 0 (files(name \<mapsto> [])) = (failure, f)" by force
    with write_loop_content [where written = 0 and len = len and host = host and path = name and img = img and files = files] obtain n where
      n: "n \<le> len" "f = files(name \<mapsto> take n img)" "failure = None \<longrightarrow> n = len" by auto
    show thesis
    proof (cases "failure = None \<and> fh_close_error host = None")
      case True
      with assms o w n Some complete show thesis by (simp add: write_new_image_def)
    next
      case False
      with assms o w Some have "\<not> success" "files' = unlink_file host name f"
        by (auto simp: write_new_image_def split: option.splits)
      with partial Some o(2) n show thesis by blast
    qed
  qed
qed

text \<open>The output file is written completely or not at all: success means that the path did not exist,
  is no disk node, and now holds exactly the image; otherwise, where unlinking works, the file
  system is as before, and an existing file is never touched in any case.\<close>

theorem write_new_image_all_or_nothing:
  "case write_new_image host path img len detail files of (success, detail', files') \<Rightarrow>
     if success
     then \<exists>name. path = Some name \<and> files name = None \<and> \<not> forbidden_output_path path \<and>
       files' = files(name \<mapsto> take len img)
     else if fh_unlinks host then files' = files
     else files \<subseteq>\<^sub>m files'"
proof -
  obtain success detail' files' where w: "write_new_image host path img len detail files = (success, detail', files')"
    using prod_cases3 by blast
  then show ?thesis
  proof (cases rule: write_new_image_cases)
    case refused
    with w show ?thesis by simp
  next
    case (partial name n)
    have "files(name := None) = files" using partial(3) by auto
    with w partial show ?thesis
      by (auto simp: unlink_new map_le_def)
  next
    case (complete name)
    with w show ?thesis by auto
  qed
qed

end
