(* ===== verification/M65_Main.thy ===== *)
theory M65_Main
  imports M65_Discovery M65_Cli M65_Output M65_Files
begin

text \<open>
  The program (\<open>src/main.c\<close>): the command line, discovery, selection, validation, one session on
  the selected device, the output file, the report and the exit code. Everything outside is one
  record, the machine; a run ends with the exit code, the two output streams, the files and, where
  a transport was made, the adapter's last state.
\<close>

section \<open>The machine and the end of a run\<close>

record ('s, 'e) machine =
  mh_registry :: "'e registry"
  mh_disks :: "'e disk_host"
  mh_plugins :: "'e plugin_host"
  mh_usb :: "'s usb_host"
  mh_probe :: "'s mac_context cbi_context host"
  mh_files :: files_host
  mh_alloc :: "nat \<Rightarrow> bool"

record 's ended =
  en_exit :: int
  en_out :: string
  en_err :: string
  en_files :: files
  en_session :: "'s mac_context option"

section \<open>Codes and names\<close>

fun exit_code :: "probe_code \<Rightarrow> int" where
  "exit_code PROBE_OK = 0"
| "exit_code PROBE_NO_DEVICE = 2"
| "exit_code PROBE_PERMISSION = 3"
| "exit_code PROBE_TRANSPORT = 4"
| "exit_code PROBE_UNSUPPORTED = 5"
| "exit_code PROBE_MISMATCH = 6"
| "exit_code PROBE_USAGE = 64"

definition argv_has_json :: "string list \<Rightarrow> bool" where
  "argv_has_json argv = list_ex (\<lambda>arg. arg = ''--json'') (drop 1 argv)"

definition signal_handler :: "int \<Rightarrow> 's world \<Rightarrow> 's world" where
  "signal_handler signal_number w = m65_probe_request_interrupt w"

definition emit_usage_json :: "(nat \<Rightarrow> bool) \<Rightarrow> string \<Rightarrow> emitted" where
  "emit_usage_json alloc reason = m65_output_error_json alloc (Some ''invalid'') None (Some reason)"

fun command_name :: "cli_command \<Rightarrow> string" where
  "command_name CLI_LIST = ''list''"
| "command_name CLI_INSPECT = ''inspect''"
| "command_name CLI_TEST_1581 = ''test-1581''"

text \<open>The code of a report where no transport was made.\<close>

definition create_failure_code :: "transport_status \<Rightarrow> probe_code" where
  "create_failure_code create_status =
     (if create_status = TRANSPORT_PERMISSION then PROBE_PERMISSION
      else if create_status = TRANSPORT_NO_DEVICE then PROBE_NO_DEVICE
      else PROBE_TRANSPORT)"

text \<open>A run that ends with the result of an output function, and one with a text on standard error.\<close>

definition ends_with :: "int \<Rightarrow> emitted \<Rightarrow> files \<Rightarrow> 's mac_context option \<Rightarrow> 's ended" where
  "ends_with code shown files session =
     \<lparr>en_exit = code, en_out = fst (snd shown), en_err = snd (snd shown), en_files = files,
      en_session = session\<rparr>"

definition complains :: "string \<Rightarrow> emitted" where
  "complains text = (True, [], text)"

definition prints_text :: "string \<Rightarrow> emitted" where
  "prints_text text = (True, text, [])"

section \<open>One session\<close>

text \<open>The world at the start of a session: no signal came so far.\<close>

definition session_world :: "'c \<Rightarrow> 'c world" where
  "session_world c = \<lparr>w_interrupted = False, w_state = c\<rparr>"

text \<open>During an inspection the signal handler is not installed.\<close>

definition without_handler :: "'c host \<Rightarrow> 'c host" where
  "without_handler host = host\<lparr>h_signals := (\<lambda>c. (False, c))\<rparr>"

definition run_inspect ::
    "('s, 'e) machine \<Rightarrow> cli_options \<Rightarrow> device_info \<Rightarrow> 's created \<Rightarrow> files \<Rightarrow> 's ended" where
  "run_inspect machine options device created files =
     (let (create_status, detail, transport) = created;
          report = zero_inspect_report;
          (report, session) =
            (case transport of
               None \<Rightarrow>
                 (report\<lparr>ir_code := create_failure_code create_status, ir_reason := error_text detail\<rparr>, None)
             | Some (ops, c) \<Rightarrow>
                 let (_, reported, w) =
                       m65_inspect (without_handler (mh_probe machine)) (Some ops) (Some report) (session_world c)
                 in (case reported of Some r \<Rightarrow> r | None \<Rightarrow> report,
                     Some (cbi_destroy (mac_cbi_ops (mh_usb machine)) (w_state w))));
          shown = (if o_json options then m65_output_inspect_json (mh_alloc machine) device report
                   else prints_text (m65_output_inspect_human device report))
      in ends_with (exit_code (ir_code report)) shown files session)"

text \<open>The report of the test, and the adapter's last state.\<close>

definition test_session ::
    "('s, 'e) machine \<Rightarrow> cli_options \<Rightarrow> 's created \<Rightarrow> report_1581 \<times> 's mac_context option" where
  "test_session machine options created =
     (let (create_status, detail, transport) = created;
          report = zero_report_1581
      in (case transport of
            None \<Rightarrow>
              (report\<lparr>tr_status := STATUS_INCONCLUSIVE, tr_code := create_failure_code create_status,
                      tr_reason := error_text detail\<rparr>, None)
          | Some (ops, c) \<Rightarrow>
              let (_, reported, w) =
                    m65_test_1581 (mh_probe machine) (Some ops) (o_acknowledgement options) (Some report)
                      (session_world c)
              in (case reported of Some r \<Rightarrow> r | None \<Rightarrow> report,
                  Some (cbi_destroy (mac_cbi_ops (mh_usb machine)) (w_state w)))))"

definition image_of :: "report_1581 \<Rightarrow> bytes" where
  "image_of report = (case tr_image report of None \<Rightarrow> [] | Some img \<Rightarrow> img)"

text \<open>Writing the image turns the result of the test into a failure where it fails.\<close>

definition write_output ::
    "('s, 'e) machine \<Rightarrow> cli_options \<Rightarrow> string \<Rightarrow> report_1581 \<Rightarrow> files \<Rightarrow> report_1581 \<times> files" where
  "write_output machine options detail report files =
     (if tr_code report = PROBE_OK \<and> o_output options \<noteq> None then
        let (written, detail, files) =
              write_new_image (mh_files machine) (o_output options) (image_of report) (tr_image_length report)
                detail files
        in if written then (report, files)
           else (report\<lparr>tr_code := PROBE_TRANSPORT, tr_status := STATUS_INCONCLUSIVE,
                        tr_reason := error_text (''hardware read succeeded but '' @ detail)\<rparr>, files)
      else (report, files))"

definition run_test ::
    "('s, 'e) machine \<Rightarrow> cli_options \<Rightarrow> device_info \<Rightarrow> 's created \<Rightarrow> files \<Rightarrow> 's ended" where
  "run_test machine options device created files =
     (let (report, session) = test_session machine options created;
          (report, files) = write_output machine options (fst (snd created)) report files;
          shown = (if o_json options
                   then m65_output_1581_json (mh_alloc machine) device report (o_output options)
                   else prints_text (m65_output_1581_human device report (o_output options)))
      in ends_with (exit_code (tr_code report)) shown files session)"

text \<open>None: looking for the device's USB interface in the registry did not end.\<close>

definition run_selected ::
    "('s, 'e) machine \<Rightarrow> cli_options \<Rightarrow> device_info \<Rightarrow> 's \<Rightarrow> files \<Rightarrow> 's ended option" where
  "run_selected machine options device s files =
     map_option
       (\<lambda>created. if o_command options = CLI_INSPECT then run_inspect machine options device created files
                  else run_test machine options device created files)
       (m65_usb_cbi_transport_create (mh_usb machine) (mh_registry machine) (mh_plugins machine)
          (Some (d_bsd_name device)) [] s)"

section \<open>The program\<close>

text \<open>A failure before a device is selected and accepted: the JSON error report or a line on standard
  error.\<close>

definition fails ::
    "('s, 'e) machine \<Rightarrow> cli_options \<Rightarrow> int \<Rightarrow> device_info option \<Rightarrow> string \<Rightarrow> string \<Rightarrow> files \<Rightarrow> 's ended" where
  "fails machine options code device detail line files =
     ends_with code
       (if o_json options
        then m65_output_error_json (mh_alloc machine) (Some (command_name (o_command options))) device (Some detail)
        else complains line) files None"

definition run_list :: "('s, 'e) machine \<Rightarrow> cli_options \<Rightarrow> device_list \<Rightarrow> files \<Rightarrow> 's ended" where
  "run_list machine options devices files =
     (let error = (if devices = [] then Some ''no matching device'' else None)
      in ends_with (if devices = [] then 2 else 0)
           (if o_json options then m65_output_list_json (mh_alloc machine) (Some devices) error
            else prints_text (m65_output_list_human (Some devices) error)) files None)"

text \<open>With an empty \<open>argv\<close> the program's name is printed as \<open>(null)\<close>.\<close>

definition main_program :: "('s, 'e) machine \<Rightarrow> string list \<Rightarrow> 's \<Rightarrow> files \<Rightarrow> 's ended option" where
  "main_program machine argv s files =
     (case m65_cli_parse argv of
        Inl (detail, _) \<Rightarrow>
          Some (ends_with 64
            (if argv_has_json argv then emit_usage_json (mh_alloc machine) detail
             else complains (''error: '' @ detail @ nl @
                    m65_cli_usage (case argv of [] \<Rightarrow> ''(null)'' | program # _ \<Rightarrow> program))) files None)
      | Inr options \<Rightarrow>
          (case m65_discover_devices (mh_registry machine) (mh_disks machine) of
             (False, _, detail) \<Rightarrow>
               Some (fails machine options 4 None detail (''discovery failed: '' @ detail @ nl) files)
           | (True, devices, _) \<Rightarrow>
               if o_command options = CLI_LIST then Some (run_list machine options devices files)
               else
                 (case m65_select_device (Some devices) (o_device options) of
                    (None, ambiguous) \<Rightarrow>
                      let detail = (if ambiguous then ''multiple matching devices; specify --device''
                                    else ''no matching device with that BSD name'')
                      in Some (fails machine options 2 None detail (detail @ nl) files)
                  | (Some selected, _) \<Rightarrow>
                      let validation = m65_validate_device (Some selected)
                      in if validation \<noteq> DEVICE_ACCEPTED
                         then
                           let detail = m65_device_validation_text validation
                           in Some (fails machine options 2 (Some selected) detail
                                (''refusing device '' @ d_bsd_name selected @ '': '' @ detail @ nl) files)
                         else run_selected machine options selected s files)))"

end
