(* ===== verification/M65_BusSim.thy ===== *)
theory M65_BusSim
  imports M65_Writes M65_Main M65_TestBasis M65_UsbProps
begin

text \<open>
  A simulated controller behind the USB bus, on which the whole stack runs: it answers MODE SENSE with
  the page of the tests, takes MODE SELECT and does not change.
\<close>

record desk =
  dk_clock :: rat
  dk_block :: bytes
  dk_outstanding :: "nat list"

definition desk_pass :: "rat \<Rightarrow> desk \<Rightarrow> completion list \<times> desk" where
  "desk_pass t s = (map (\<lambda>a. (a, IOReturnSuccess, [0, 0], 2)) (dk_outstanding s),
     s\<lparr>dk_outstanding := [], dk_clock := dk_clock s + 1\<rparr>)"

definition no_sense :: bytes where
  "no_sense = 0x70 # replicate 6 0 @ 10 # replicate 10 0"

definition desk_answer :: "bytes \<Rightarrow> bytes" where
  "desk_answer block =
     (if block ! 0 = 0x5a
      then [0, 38, 0, 0, 0, 0, 0, 0] @ fp_page (if block ! 2 AND 0xc0 = 0x40 then mask_structure else initial_structure)
      else no_sense)"

definition desk_host :: "desk usb_host" where
  "desk_host =
     \<lparr>uh_number = (\<lambda>_. 0), uh_is_root = False,
      uh_open_seize = Pair IOReturnSuccess, uh_close = Pair IOReturnSuccess,
      uh_interface_class = (\<lambda>s. (IOReturnSuccess, 8, s)), uh_interface_subclass = (\<lambda>s. (IOReturnSuccess, 4, s)),
      uh_interface_protocol = (\<lambda>s. (IOReturnSuccess, 0, s)), uh_interface_number = (\<lambda>s. (IOReturnSuccess, 0, s)),
      uh_num_endpoints = (\<lambda>s. (IOReturnSuccess, 3, s)),
      uh_pipe_properties = (\<lambda>pipe s. (IOReturnSuccess, sim_pipe pipe, s)),
      uh_create_event_source = (\<lambda>s. (IOReturnSuccess, True, s)),
      uh_control_request = (\<lambda>r s. (IOReturnSuccess, 12, s\<lparr>dk_block := ur_data r\<rparr>)),
      uh_read_pipe = (\<lambda>pipe n t s. (IOReturnSuccess, desk_answer (dk_block s), of_nat (length (desk_answer (dk_block s))), s)),
      uh_write_pipe = (\<lambda>pipe data n t s. (IOReturnSuccess, s)),
      uh_read_pipe_async = (\<lambda>pipe a s. (IOReturnSuccess, s\<lparr>dk_outstanding := dk_outstanding s @ [a]\<rparr>)),
      uh_abort_pipe = (\<lambda>pipe. Pair IOReturnSuccess), uh_clear_pipe_stall = (\<lambda>pipe. Pair IOReturnSuccess),
      uh_release = (\<lambda>s. s), uh_current_run_loop = (\<lambda>_. 0),
      uh_add_source = (\<lambda>_ s. s), uh_remove_source = (\<lambda>_ s. s),
      uh_run_pass = desk_pass, uh_absolute_time = (\<lambda>s. (dk_clock s, s)), uh_calloc = Pair True\<rparr>"

lemmas desk_calls = logged_usb_def desk_host_def past_log_def past_log2_def

section \<open>The adapter over the desk\<close>

definition idle :: "(desk \<times> bus_event list) mac_context \<Rightarrow> bool" where
  "idle m \<longleftrightarrow> mc_open m \<and> mc_interrupt_request m = None \<and> \<not> mc_desynchronized m \<and> \<not> mc_reset_armed m \<and>
     mc_run_loop m = Some 0 \<and> dk_outstanding (fst (mc_state m)) = []"

lemma desk_loop: "idle m \<Longrightarrow> on_transport_run_loop (logged_usb desk_host) d m = (True, d)"
  by (cases "mc_state m") (simp add: on_transport_run_loop_def idle_def desk_calls)

lemma desk_adsc:
  assumes "idle m" "\<not> is_command_block_reset cdb" "length cdb = 12"
  obtains m' where "mac_adsc (logged_usb desk_host) cdb t d m = (CBI_IO_OK, d, m')" "idle m'"
    "dk_block (fst (mc_state m')) = cdb" "mac_written m' = mac_written m"
proof -
  have c: "m65_cbi_build_adsc (mc_interface_number m) (Some cdb) = Some \<lparr>adsc_request_type = 0x21, adsc_request = 0,
      adsc_value = 0, adsc_index = ucast (mc_interface_number m), adsc_length = 12, adsc_cdb = cdb\<rparr>"
    using assms(3) by (simp add: m65_cbi_build_adsc_def buf_write_def)
  have "\<exists>m'. mac_adsc (logged_usb desk_host) cdb t d m = (CBI_IO_OK, d, m') \<and> idle m' \<and>
      dk_block (fst (mc_state m')) = cdb \<and> mac_written m' = mac_written m"
    using assms c by (cases "mc_state m")
      (simp add: mac_adsc_def ready_for_adsc_def desk_loop, simp add: idle_def desk_calls Let_def)
  with that show thesis by blast
qed

lemma desk_bulk_in:
  assumes "idle m" "n \<le> 1000"
  shows "mac_bulk_in (logged_usb desk_host) n t d m = (CBI_IO_OK, desk_answer (dk_block (fst (mc_state m))),
    unat (of_nat (length (desk_answer (dk_block (fst (mc_state m))))) :: u32), d, m)"
proof -
  obtain s l where m: "mc_state m = (s, l)" by force
  have "m\<lparr>mc_state := (s, l)\<rparr> = m" using m by simp
  with assms m show ?thesis
    by (simp add: mac_bulk_in_def desk_loop Let_def bulk_failure_def UINT32_MAX_def) (simp add: desk_calls map_io_return_def)
qed

lemma desk_bulk_out:
  assumes "idle m" "n \<le> 1000"
  obtains m' where "mac_bulk_out (logged_usb desk_host) b n t d m = (CBI_IO_OK, n, d, m')" "idle m'"
    "dk_block (fst (mc_state m')) = dk_block (fst (mc_state m))" "mac_written m' = mac_written m @ [b]"
proof -
  obtain s l where m: "mc_state m = (s, l)" by force
  have "mac_bulk_out (logged_usb desk_host) b n t d m =
      (CBI_IO_OK, n, d, m\<lparr>mc_state := (s, l @ [BusWrite (mc_bulk_out_pipe m) b])\<rparr>)"
    using assms m
    by (simp add: mac_bulk_out_def desk_loop Let_def bulk_failure_def UINT32_MAX_def) (simp add: desk_calls map_io_return_def)
  from that [OF this] assms(1) m show thesis by (simp add: idle_def)
qed

lemma desk_interrupt:
  assumes "idle m" "t = 15000"
  obtains m' where "mac_interrupt_in_with_deadline (logged_usb desk_host) t d m = Some (CBI_IO_OK, [0, 0], 2, d, m')"
    "idle m'" "dk_block (fst (mc_state m')) = dk_block (fst (mc_state m))" "mac_written m' = mac_written m"
proof -
  obtain s l where m: "mc_state m = (s, l)" by force
  let ?h = "logged_usb desk_host" and ?a = "length (mc_requests m)"
  let ?seconds = "of_nat (unat t) / 1000 :: rat"
  have pos: "0 < ?seconds" using assms(2) by simp
  define m1 where "m1 = m\<lparr>mc_requests := mc_requests m @
    [\<lparr>rq_references = 2, rq_complete = False, rq_result = IOReturnNotReady, rq_transferred = 0, rq_buffer = zeroed 2\<rparr>],
    mc_interrupt_request := Some ?a,
    mc_state := (s\<lparr>dk_outstanding := [?a]\<rparr>, l)\<rparr>"
  define m2 where "m2 = m\<lparr>mc_requests := mc_requests m @
    [\<lparr>rq_references = 1, rq_complete = True, rq_result = IOReturnSuccess, rq_transferred = 2, rq_buffer = [0, 0]\<rparr>],
    mc_interrupt_request := Some ?a,
    mc_state := (s\<lparr>dk_outstanding := [], dk_clock := dk_clock s + 1\<rparr>, l)\<rparr>"
  have time: "absolute_time ?h m1 = (dk_clock s, m1)"
    by (simp add: absolute_time_def m1_def desk_calls)
  have pass: "run_pass ?h x m1 = m2" for x
    by (simp add: run_pass_def m1_def m2_def desk_calls desk_pass_def interrupt_callback_def
        interrupt_request_release_def update_request_def fill_buffer_def buf_write_def)
  have "wait_loop ?h (dk_clock s + ?seconds) m1 = Some (True, m2)"
    using pos
    by (subst wait_loop.simps, simp add: time pass)
      (subst wait_loop.simps, simp add: m1_def m2_def interrupt_request_complete_def)
  then have w: "run_until_interrupt ?h ?seconds m1 = Some (True, m2)" by (simp add: run_until_interrupt_def time)
  have "\<exists>m'. interrupt_arrived ?h ?a d m2 = (CBI_IO_OK, [0, 0], 2, d, m') \<and> idle m' \<and>
      dk_block (fst (mc_state m')) = dk_block (fst (mc_state m)) \<and> mac_written m' = mac_written m"
    using assms(1) m by (simp add: interrupt_arrived_def m2_def release_interrupt_request_def Let_def
        interrupt_request_release_def update_request_def idle_def)
  then obtain m' where m': "interrupt_arrived ?h ?a d m2 = (CBI_IO_OK, [0, 0], 2, d, m')" "idle m'"
      "dk_block (fst (mc_state m')) = dk_block (fst (mc_state m))" "mac_written m' = mac_written m" by blast
  have o: "dk_outstanding s = []" "mc_interrupt_request m = None" using assms(1) m by (simp_all add: idle_def)
  have calls: "uh_calloc ?h (s, l) = (True, (s, l))"
    "uh_read_pipe_async ?h pipe a (s, l) = (IOReturnSuccess, (s\<lparr>dk_outstanding := dk_outstanding s @ [a]\<rparr>, l))" for pipe a
    by (simp_all add: desk_calls)
  have ms: "m\<lparr>mc_state := (s, l)\<rparr> = m" using m by simp
  have "mac_interrupt_in_with_deadline ?h t d m = Option.bind (run_until_interrupt ?h ?seconds m1)
      (\<lambda>(arrived, m). if \<not> arrived then interrupt_timeout ?h m else Some (interrupt_arrived ?h ?a d m))"
    using o m unfolding mac_interrupt_in_with_deadline_def desk_loop [OF assms(1)] Let_def prod.case
    by (simp add: calls ms m1_def cong: if_cong)
  with w m' that show thesis by simp
qed

section \<open>The transport over the desk\<close>

abbreviation desk_io :: "(desk \<times> bus_event list) mac_context cbi_io" where
  "desk_io \<equiv> mac_cbi_ops (logged_usb desk_host)"

lemma desk_completion:
  assumes "idle (cc_io ctx)" "t = 15000" "length (ex_completion ex) = 2"
  obtains m' where "completion_phase desk_io t ex data d ctx = (CBI_IO_OK, ex\<lparr>ex_completion := [0, 0]\<rparr>, data, d, ctx\<lparr>cc_io := m'\<rparr>)"
    "idle m'" "mac_written m' = mac_written (cc_io ctx)"
proof -
  obtain m' where m': "mac_interrupt_in_with_deadline (logged_usb desk_host) t d (cc_io ctx) = Some (CBI_IO_OK, [0, 0], 2, d, m')"
      "idle m'" "mac_written m' = mac_written (cc_io ctx)" by (rule desk_interrupt [OF assms(1,2), of d])
  have "fill_buffer [0, 0] (ex_completion ex) = [0, 0]"
    using assms(3) by (simp add: fill_buffer_full)
  with m' that show thesis by (simp add: completion_phase_def mac_cbi_ops_def)
qed

lemma desk_exchange:
  assumes "idle (cc_io ctx)" "t = 15000" "\<not> is_command_block_reset cdb" "length cdb = 12" "n \<le> 1000"
    and "dir = DATA_IN \<Longrightarrow> length (desk_answer cdb) \<le> n"
  obtains ex m' where "run_exchange desk_io cdb dir data n t d ctx = (CBI_IO_OK, ex,
      (if dir = DATA_IN then fill_buffer (desk_answer cdb) data else data), d, ctx\<lparr>cc_io := m'\<rparr>)" "idle m'"
    "mac_written m' = mac_written (cc_io ctx) @ (if dir = DATA_OUT then [data] else [])"
    "ex_completion ex = [0, 0]" "\<not> ex_adsc_stalled ex" "\<not> ex_data_stalled ex"
    "ex_transferred ex = (case dir of DATA_IN \<Rightarrow> length (desk_answer cdb) | DATA_OUT \<Rightarrow> n | DATA_NONE \<Rightarrow> 0)"
proof -
  obtain m1 where a: "mac_adsc (logged_usb desk_host) cdb t d (cc_io ctx) = (CBI_IO_OK, d, m1)" "idle m1"
    "dk_block (fst (mc_state m1)) = cdb" "mac_written m1 = mac_written (cc_io ctx)"
    by (rule desk_adsc [OF assms(1,3,4), of t d])
  define moved where "moved = (case dir of DATA_IN \<Rightarrow> length (desk_answer cdb) | DATA_OUT \<Rightarrow> n | DATA_NONE \<Rightarrow> 0)"
  have small: "dir = DATA_IN \<Longrightarrow> unat (of_nat (length (desk_answer cdb)) :: u32) = length (desk_answer cdb)"
    using assms(5,6) by (simp add: unat_of_nat take_bit_nat_eq_self_iff)
  obtain m2 where b: "bulk_transfer desk_io dir data n t d (ctx\<lparr>cc_io := m1\<rparr>) = (CBI_IO_OK,
      (if dir = DATA_IN then fill_buffer (desk_answer cdb) data else data), moved, d, ctx\<lparr>cc_io := m2\<rparr>)" "idle m2"
    "mac_written m2 = mac_written (cc_io ctx) @ (if dir = DATA_OUT then [data] else [])"
  proof (cases dir)
    case DATA_IN
    with a small desk_bulk_in [OF a(2) assms(5), of t d] show thesis
      by (intro that [of m1]) (simp_all add: bulk_transfer_def mac_cbi_ops_def moved_def)
  next
    case DATA_OUT
    obtain m' where "mac_bulk_out (logged_usb desk_host) data n t d m1 = (CBI_IO_OK, n, d, m')" "idle m'"
      "mac_written m' = mac_written m1 @ [data]" by (rule desk_bulk_out [OF a(2) assms(5), of data t d])
    with a DATA_OUT show thesis
      by (intro that [of m']) (simp_all add: bulk_transfer_def mac_cbi_ops_def moved_def)
  next
    case DATA_NONE
    with a show thesis by (intro that [of m1]) (simp_all add: bulk_transfer_def moved_def)
  qed
  let ?ex = "zero_exchange\<lparr>ex_transferred := moved\<rparr>"
  obtain m3 where c: "completion_phase desk_io t ?ex (if dir = DATA_IN then fill_buffer (desk_answer cdb) data else data) d
      (ctx\<lparr>cc_io := m2\<rparr>) = (CBI_IO_OK, ?ex\<lparr>ex_completion := [0, 0]\<rparr>,
      (if dir = DATA_IN then fill_buffer (desk_answer cdb) data else data), d, ctx\<lparr>cc_io := m2\<rparr>\<lparr>cc_io := m3\<rparr>)"
      "idle m3" "mac_written m3 = mac_written m2"
    by (rule desk_completion [of "ctx\<lparr>cc_io := m2\<rparr>" t ?ex]) (use b(2) assms(2) in \<open>simp_all add: zero_exchange_def\<close>)
  have "moved \<le> n" using assms(6) by (cases dir) (simp_all add: moved_def)
  then have "run_exchange desk_io cdb dir data n t d ctx = (CBI_IO_OK, ?ex\<lparr>ex_completion := [0, 0]\<rparr>,
      (if dir = DATA_IN then fill_buffer (desk_answer cdb) data else data), d, ctx\<lparr>cc_io := m3\<rparr>)"
    using a(1) b(1) c(1) unfolding run_exchange_def by (simp add: mac_cbi_ops_def)
  from that [OF this] c(2,3) b(3) show thesis by (simp add: zero_exchange_def moved_def)
qed

text \<open>Every command but REQUEST SENSE is answered, and its sense data say that nothing went wrong.\<close>

definition ready_ctx :: "(desk \<times> bus_event list) mac_context cbi_context \<Rightarrow> bool" where
  "ready_ctx ctx \<longleftrightarrow> cc_opened ctx \<and> \<not> cc_recovery_required ctx \<and> idle (cc_io ctx)"

lemma desk_execute:
  assumes r: "ready_ctx ctx" and v: "m65_validate_command c = Inr ()"
    and c: "c_timeout_ms c = 15000" "c_data_length c \<le> 1000" "c_cdb_length c \<le> 12" "c_cdb c ! 0 \<noteq> 3"
    and answer: "c_direction c = DATA_IN \<Longrightarrow> length (desk_answer (pad_cdb (c_cdb c, c_cdb_length c))) \<le> c_data_length c"
    and exact: "exact_data_required c \<Longrightarrow> c_direction c = DATA_OUT"
  obtains res ctx' where "cbi_execute desk_io c ctx = (res, (if c_direction c = DATA_IN
      then fill_buffer (desk_answer (pad_cdb (c_cdb c, c_cdb_length c))) (command_data c) else command_data c), ctx')"
    "command_good res" "ready_ctx ctx'"
    "r_transferred res = (case c_direction c of DATA_IN \<Rightarrow> length (desk_answer (pad_cdb (c_cdb c, c_cdb_length c)))
       | DATA_OUT \<Rightarrow> c_data_length c | DATA_NONE \<Rightarrow> 0)"
    "mac_written (cc_io ctx') = mac_written (cc_io ctx) @ (if c_direction c = DATA_OUT then [command_data c] else [])"
proof -
  let ?p = "pad_cdb (c_cdb c, c_cdb_length c)"
  have i: "idle (cc_io ctx)" using r by (simp add: ready_ctx_def)
  obtain ex m1 where e: "run_exchange desk_io ?p (c_direction c) (command_data c) (c_data_length c) (c_timeout_ms c) [] ctx =
      (CBI_IO_OK, ex, (if c_direction c = DATA_IN then fill_buffer (desk_answer ?p) (command_data c) else command_data c), [],
       ctx\<lparr>cc_io := m1\<rparr>)" "idle m1"
    "mac_written m1 = mac_written (cc_io ctx) @ (if c_direction c = DATA_OUT then [command_data c] else [])"
    "ex_completion ex = [0, 0]" "\<not> ex_adsc_stalled ex" "\<not> ex_data_stalled ex"
    "ex_transferred ex = (case c_direction c of DATA_IN \<Rightarrow> length (desk_answer ?p) | DATA_OUT \<Rightarrow> c_data_length c | DATA_NONE \<Rightarrow> 0)"
    by (rule desk_exchange [OF i c(1) validated_not_reset [OF v] _ c(2) answer, where data = "command_data c" and d = "[]"])
      (use c(3) in \<open>simp add: length_pad_cdb\<close>)
  let ?data = "if c_direction c = DATA_IN then fill_buffer (desk_answer ?p) (command_data c) else command_data c"
  have ns: "desk_answer request_sense_block = no_sense" "length no_sense = 18"
    by (simp_all add: request_sense_block_eq desk_answer_def no_sense_def)
  obtain ex2 m2 where f: "run_exchange desk_io request_sense_block DATA_IN (zeroed 18) 18 (c_timeout_ms c) [] (ctx\<lparr>cc_io := m1\<rparr>) =
      (CBI_IO_OK, ex2, fill_buffer no_sense (zeroed 18), [], ctx\<lparr>cc_io := m2\<rparr>)" "idle m2"
    "mac_written m2 = mac_written m1" "\<not> ex_adsc_stalled ex2" "\<not> ex_data_stalled ex2" "ex_transferred ex2 = 18"
    by (rule desk_exchange [of "ctx\<lparr>cc_io := m1\<rparr>" "c_timeout_ms c" request_sense_block 18 DATA_IN "zeroed 18" "[]"])
      (use e(2) c(1) ns in \<open>simp_all add: request_sense_block_eq is_command_block_reset_def\<close>)
  define sense where "sense = zero_sense\<lparr>sense_response_code := 0x70, sense_key := 0, sense_asc := 0, sense_ascq := 0,
    sense_valid := True\<rparr>"
  have "fill_buffer no_sense (zeroed 18) = no_sense" by (simp add: fill_buffer_full ns)
  then have "m65_parse_sense (Some (fill_buffer no_sense (zeroed 18))) 18 s0 = Inr sense" for s0
    by (simp add: m65_parse_sense_def no_sense_def sense_def nth_append)
  with f have fs: "fetch_sense desk_io (c_timeout_ms c) s0 [] (ctx\<lparr>cc_io := m1\<rparr>) = (TRANSPORT_OK, sense, [], ctx\<lparr>cc_io := m2\<rparr>)" for s0
    unfolding fetch_sense_def Let_def request_sense_block_def [symmetric] by simp
  have full: "\<not> (exact_data_required c \<and> ex_transferred ex \<noteq> c_data_length c)" using exact e(7) by auto
  have out: "command_outcome c ex (zero_result\<lparr>r_transferred := ex_transferred ex, r_sense := sense\<rparr>) ctx2 =
      (zero_result\<lparr>r_transferred := ex_transferred ex, r_sense := sense\<rparr>, ctx2)" for ctx2 :: "(desk \<times> bus_event list) mac_context cbi_context"
    using full e(4-6) by (auto simp: command_outcome_def sense_def Let_def zero_result_def)
  have "\<exists>res. execute_command desk_io c ?p ctx = (res, ?data, ctx\<lparr>cc_io := m2\<rparr>) \<and> command_good res \<and>
      r_transferred res = ex_transferred ex"
    unfolding execute_command_def Let_def e(1) prod.case
    using out [of "ctx\<lparr>cc_io := m2\<rparr>"] by (simp add: fs command_good_def zero_result_def)
  moreover have "cbi_execute desk_io c ctx = execute_command desk_io c ?p ctx"
    using r v c(3,4) validate_command_Inr_cases(2) [OF v]
    by (auto simp: cbi_execute_def ready_ctx_def recover_if_required_def Let_def split: if_splits)
  ultimately show thesis using that e f r by (auto simp: ready_ctx_def)
qed

section \<open>The probe over the desk\<close>

definition desk_probe :: "desk host" where
  "desk_probe = \<lparr>h_signals = Pair False, h_malloc = (\<lambda>n. Pair None), h_stack_block = zeroed 512\<rparr>"

abbreviation "desk_session \<equiv> bus_session_host desk_probe"

definition ready_world :: "(desk \<times> bus_event list) mac_context cbi_context world \<Rightarrow> bool" where
  "ready_world w \<longleftrightarrow> \<not> w_interrupted w \<and> ready_ctx (w_state w)"

lemma desk_deliver: "deliver_signals desk_session w = w"
  by (simp add: deliver_signals_def bus_session_host_def desk_probe_def)

lemma desk_read: "ready_world w \<Longrightarrow> read_interrupted desk_session w = (False, w)"
  by (simp add: read_interrupted_def desk_deliver ready_world_def)

lemma desk_checked:
  assumes r: "ready_world w" and v: "m65_validate_command c = Inr ()"
    and c: "c_timeout_ms c = 15000" "c_data_length c \<le> 1000" "c_cdb_length c \<le> 12" "c_cdb c ! 0 \<noteq> 3"
    and answer: "c_direction c = DATA_IN \<Longrightarrow> length (desk_answer (pad_cdb (c_cdb c, c_cdb_length c))) \<le> c_data_length c"
    and exact: "exact_data_required c \<Longrightarrow> c_direction c = DATA_OUT"
  obtains res w' where "execute_checked desk_session (cbi_ops desk_io) c w = (res, (if c_direction c = DATA_IN
      then fill_buffer (desk_answer (pad_cdb (c_cdb c, c_cdb_length c))) (command_data c) else command_data c), w')"
    "command_good res" "ready_world w'"
    "c_direction c = DATA_IN \<Longrightarrow> r_transferred res = length (desk_answer (pad_cdb (c_cdb c, c_cdb_length c)))"
    "mac_written (cc_io (w_state w')) = mac_written (cc_io (w_state w)) @ (if c_direction c = DATA_OUT then [command_data c] else [])"
proof -
  have rc: "ready_ctx (w_state w)" using r by (simp add: ready_world_def)
  obtain res ctx' where e: "cbi_execute desk_io c (w_state w) = (res, (if c_direction c = DATA_IN
      then fill_buffer (desk_answer (pad_cdb (c_cdb c, c_cdb_length c))) (command_data c) else command_data c), ctx')"
    "command_good res" "ready_ctx ctx'"
    "r_transferred res = (case c_direction c of DATA_IN \<Rightarrow> length (desk_answer (pad_cdb (c_cdb c, c_cdb_length c)))
       | DATA_OUT \<Rightarrow> c_data_length c | DATA_NONE \<Rightarrow> 0)"
    "mac_written (cc_io ctx') = mac_written (cc_io (w_state w)) @ (if c_direction c = DATA_OUT then [command_data c] else [])"
    by (rule desk_execute [OF rc v c answer exact])
  have same: "fill_buffer (if c_direction c = DATA_IN then fill_buffer a (command_data c) else command_data c) (command_data c) =
      (if c_direction c = DATA_IN then fill_buffer a (command_data c) else command_data c)" for a
    by (simp add: fill_buffer_full)
  show thesis
    by (rule that [of res "w\<lparr>w_state := ctx'\<rparr>"])
      (use e r v in \<open>simp_all add: execute_checked_def desk_read same cbi_ops_def ready_world_def\<close>)
qed

lemma desk_mode_sense:
  assumes r: "ready_world w"
  obtains res m w' where "mode_sense desk_session (cbi_ops desk_io) ch p w = (res, m, w')" "command_good res"
    "mp_flexible m = bare (if ch then mask_structure else initial_structure)" "ready_world w'"
    "mac_written (cc_io (w_state w')) = mac_written (cc_io (w_state w))"
proof -
  let ?c = "simple_command (m65_cdb_mode_sense_10 ch 256) DATA_IN (Some (zeroed 256)) 256"
  let ?f = "if ch then mask_structure else initial_structure"
  have f: "flexible_wf ?f" "fp_page ?f ! 1 = 30" "length (fp_page ?f) = 32"
    using fake_init_conforming by (auto simp: conforming_def flexible_wf_def)
  have cdb: "c_cdb ?c ! 0 = 0x5a" "c_cdb ?c ! 2 = fst (m65_cdb_mode_sense_10 ch 256) ! 2"
    by (simp_all add: simple_10 mode_sense_cdb)
  have len: "length (c_cdb ?c) = 16" by (simp add: simple_command_def buf_write_def mode_sense_cdb)
  then have pad: "pad_cdb (c_cdb ?c, 10) ! i = c_cdb ?c ! i" if "i < 10" for i
    using that by (simp add: pad_cdb_def nth_buf_write)
  have answer: "desk_answer (pad_cdb (c_cdb ?c, 10)) = [0, 38, 0, 0, 0, 0, 0, 0] @ fp_page ?f"
    unfolding desk_answer_def pad [of 0, simplified] pad [of 2, simplified] cdb mode_sense_cdb(2) by simp
  let ?d = "fill_buffer ([0, 38, 0, 0, 0, 0, 0, 0] @ fp_page ?f) (zeroed 256)"
  obtain res w' where e: "execute_checked desk_session (cbi_ops desk_io) ?c w = (res, ?d, w')" "command_good res" "ready_world w'"
    "r_transferred res = 40" "mac_written (cc_io (w_state w')) = mac_written (cc_io (w_state w))"
  proof (rule desk_checked [OF r mode_sense_valid])
    show "c_timeout_ms ?c = 15000" by (simp add: simple_command_def)
    show "exact_data_required ?c \<Longrightarrow> c_direction ?c = DATA_OUT" using cdb(1) by (simp add: exact_data_required_def)
  qed (use f answer cdb mode_sense_cdb in \<open>simp_all add: command_data_def\<close>)
  have d: "length ?d = 256" "take 8 ?d = [0, 38, 0, 0, 0, 0, 0, 0]" "take 32 (drop 8 ?d) = fp_page ?f"
    using f(3) by (simp_all add: fill_buffer_def buf_write_def)
  obtain m where m: "m65_parse_mode_parameters (Some ?d) 40 p = Inr m" "mp_flexible m = bare ?f"
    using parse_one_page [OF f(1,2) d] by blast
  show thesis
    by (rule that [of res m w']) (use e m in \<open>simp_all add: mode_sense_def execute_simple_def\<close>)
qed

lemma desk_mode_select:
  assumes r: "ready_world w" and p: "flexible_wf p" "fp_page p ! 1 = 30"
  obtains res d w' where "m65_build_mode_select_payload p 40 = Inr d"
    "mode_select desk_session (cbi_ops desk_io) p w = (res, w')" "command_good res" "ready_world w'"
    "mac_written (cc_io (w_state w')) = mac_written (cc_io (w_state w)) @ [d]"
proof -
  obtain d where d: "m65_build_mode_select_payload p 40 = Inr d" "length d = 40"
      "m65_validate_command (simple_command (m65_cdb_mode_select_10 40) DATA_OUT (Some d) 40) = Inr ()"
    using select_payload_valid [OF p] by blast
  let ?c = "simple_command (m65_cdb_mode_select_10 40) DATA_OUT (Some d) 40"
  have op: "c_cdb ?c ! 0 = 0x55" by (simp add: simple_10 mode_select_cdb)
  obtain res w' where e: "execute_checked desk_session (cbi_ops desk_io) ?c w = (res, d, w')" "command_good res" "ready_world w'"
    "mac_written (cc_io (w_state w')) = mac_written (cc_io (w_state w)) @ [d]"
  proof (rule desk_checked [OF r d(3)])
    show "c_timeout_ms ?c = 15000" by (simp add: simple_command_def)
  qed (use op mode_select_cdb in \<open>simp_all add: command_data_def\<close>)
  show thesis
    by (rule that [of d res w']) (use d e in \<open>simp_all add: mode_select_def execute_simple_def\<close>)
qed

section \<open>A test over the desk\<close>

text \<open>The controller refuses the geometry silently: the verification reads its own page back.\<close>

definition desk_ctx :: "(desk \<times> bus_event list) mac_context cbi_context" where
  "desk_ctx = \<lparr>cc_io = initial_mac_context (\<lparr>dk_clock = 0, dk_block = [], dk_outstanding = []\<rparr>, []), cc_opened = False,
     cc_recovery_required = False, cc_recovery_detail = []\<rparr>"

lemma desk_opens:
  obtains c d' where "acquire_exclusive (cbi_ops desk_io) d desk_ctx = (TRANSPORT_OK, d', c)" "ready_ctx c" "mac_written (cc_io c) = []"
proof -
  have "\<exists>m. mac_open_seize (logged_usb desk_host) [] (cc_io desk_ctx) = (CBI_IO_OK, [], m) \<and> idle m \<and> mac_written m = []"
    by (simp add: desk_ctx_def mac_open_seize_def inspect_endpoints_def read_descriptor_def classify_pipe_def desk_calls
        sim_pipe_def initial_mac_context_def M65_USB_MASS_STORAGE_CLASS_def M65_USB_UFI_SUBCLASS_def
        M65_USB_CBI_PROTOCOL_def upt_rec idle_def)
  then show thesis using that
    by (auto simp: cbi_ops_def cbi_acquire_def mac_cbi_ops_def ready_ctx_def desk_ctx_def Let_def)
qed

lemma desk_stages:
  assumes "ready_world (t_world t)" "\<not> tr_controller_restored (t_report t)"
  obtains t' d where "run_stages (test_stages desk_session (cbi_ops desk_io)) t = (False, t')" "ready_world (t_world t')"
    "t_restore_needed t'" "tr_original_saved (t_report t')" "mp_flexible (t_original_mode t') = bare initial_structure"
    "tr_controller_changed (t_report t')" "\<not> tr_controller_restored (t_report t')"
    "mac_written (cc_io (w_state (t_world t'))) = mac_written (cc_io (w_state (t_world t))) @ [d]"
    "m65_build_mode_select_payload (request_for initial_structure mask_structure) 40 = Inr d"
proof -
  let ?h = desk_session and ?o = "cbi_ops desk_io" and ?q = "request_for initial_structure mask_structure"
  note q = conforming_request [OF fake_init_conforming]
  obtain r1 m1 w1 where s1: "mode_sense ?h ?o False (t_original_mode t) (t_world t) = (r1, m1, w1)" "command_good r1"
    "mp_flexible m1 = bare initial_structure" "ready_world w1"
    "mac_written (cc_io (w_state w1)) = mac_written (cc_io (w_state (t_world t)))"
    by (rule desk_mode_sense [OF assms(1), of False "t_original_mode t"]) simp
  obtain r2 m2 w2 where s2: "mode_sense ?h ?o True (t_changeable_mode t) w1 = (r2, m2, w2)" "command_good r2"
    "mp_flexible m2 = bare mask_structure" "ready_world w2" "mac_written (cc_io (w_state w2)) = mac_written (cc_io (w_state w1))"
    by (rule desk_mode_sense [OF s1(4), of True "t_changeable_mode t"]) simp
  obtain r3 d w3 where s3: "m65_build_mode_select_payload ?q 40 = Inr d" "mode_select ?h ?o ?q w2 = (r3, w3)" "command_good r3"
    "ready_world w3" "mac_written (cc_io (w_state w3)) = mac_written (cc_io (w_state w2)) @ [d]"
    by (rule desk_mode_select [OF s2(4) q(2,4)])
  obtain r4 m4 w4 where s4: "mode_sense ?h ?o False (t_readback_mode t) w3 = (r4, m4, w4)" "command_good r4"
    "mp_flexible m4 = bare initial_structure" "ready_world w4" "mac_written (cc_io (w_state w4)) = mac_written (cc_io (w_state w3))"
    by (rule desk_mode_sense [OF s3(4), of False "t_readback_mode t"]) simp
  have bad: "\<not> m65_geometry_is_1581 (bare initial_structure)" by (simp add: m65_geometry_is_1581_def initial_structure_def)
  show thesis
    using that [of _ d] s1 s2 s3 s4 bad assms(2) q(5) unfolding request_for_def
    by (simp add: test_stages_def save_original_def read_changeable_def select_requested_def
        verify_accepted_def update_report_def Let_def)
qed

lemma desk_clear: "ready_world w \<Longrightarrow> m65_probe_clear_interrupt desk_session w = w"
  by (cases w) (simp add: m65_probe_clear_interrupt_def desk_deliver ready_world_def)

lemma bare_payload: "m65_build_mode_select_payload (bare p) n = m65_build_mode_select_payload p n"
  by (simp add: m65_build_mode_select_payload_def cong: if_cong)

lemma desk_cleanup:
  assumes r: "ready_world (t_world t)" and t: "t_restore_needed t" "tr_original_saved (t_report t)"
      "mp_flexible (t_original_mode t) = bare initial_structure"
  obtains e where "tr_controller_restored (t_report (test_cleanup desk_session (cbi_ops desk_io) t))"
    "m65_build_mode_select_payload initial_structure 40 = Inr e"
    "mac_written (cc_io (w_state (t_world (test_cleanup desk_session (cbi_ops desk_io) t)))) =
       mac_written (cc_io (w_state (t_world t))) @ [e]"
proof -
  let ?h = desk_session and ?o = "cbi_ops desk_io"
  have f: "flexible_wf (bare initial_structure)" "fp_page (bare initial_structure) ! 1 = 30"
    using fake_init_conforming by (simp_all add: conforming_def flexible_wf_def)
  obtain res e w where m: "m65_build_mode_select_payload (bare initial_structure) 40 = Inr e"
    "mode_select ?h ?o (bare initial_structure) (t_world t) = (res, w)" "command_good res"
    "mac_written (cc_io (w_state w)) = mac_written (cc_io (w_state (t_world t))) @ [e]"
    by (rule desk_mode_select [OF r f])
  let ?t = "restore_original ?h ?o t"
  have rt: "t_world ?t = w" "tr_controller_restored (t_report ?t)"
    using m t by (simp_all add: restore_original_def desk_clear [OF r] Let_def)
  obtain st d c where rel: "release_exclusive ?o [] (w_state w) = (st, d, c)" by (metis prod_cases3)
  then have "mac_written (cc_io c) = mac_written (cc_io (w_state w))"
    using mac_writes.release_written by (simp add: cbi_ops_def)
  moreover have "w_state (t_world (test_cleanup ?h ?o t)) = c"
    using rel rt(1) by (simp add: test_cleanup_def discard_image_def release_transport_def update_report_def Let_def)
  moreover have "tr_controller_restored (t_report (test_cleanup ?h ?o t))"
    using rt(2) release_transport_frame(2) [of ?o ?t] by (simp add: test_cleanup_def)
  moreover have "m65_build_mode_select_payload initial_structure 40 = Inr e"
    using m(1) by (simp add: bare_payload)
  ultimately show thesis using that m(4) by simp
qed

lemma desk_run:
  obtains code r w d e where "m65_test_1581 desk_session (Some (cbi_ops desk_io)) True (Some zero_report_1581)
      (session_world desk_ctx) = (code, Some r, w)" "tr_controller_restored r"
    "m65_build_mode_select_payload (request_for initial_structure mask_structure) 40 = Inr d"
    "m65_build_mode_select_payload initial_structure 40 = Inr e" "mac_written (cc_io (w_state w)) = [d, e]"
proof -
  let ?h = desk_session and ?o = "cbi_ops desk_io" and ?w = "session_world desk_ctx"
  obtain c s where a: "acquire_exclusive ?o (tr_reason (initial_report True)) desk_ctx = (TRANSPORT_OK, s, c)"
    "ready_ctx c" "mac_written (cc_io c) = []" by (rule desk_opens)
  let ?t = "start_run ?h ((initial_report True)\<lparr>tr_reason := error_text s, tr_exclusive_acquired := True\<rparr>) (?w\<lparr>w_state := c\<rparr>)"
  have "ready_world (t_world ?t)" "\<not> tr_controller_restored (t_report ?t)"
    using a(2) by (simp_all add: start_run_def ready_world_def session_world_def initial_report_def zero_report_1581_def)
  then obtain t d where t: "run_stages (test_stages ?h ?o) ?t = (False, t)" "ready_world (t_world t)"
    "t_restore_needed t" "tr_original_saved (t_report t)" "mp_flexible (t_original_mode t) = bare initial_structure"
    "mac_written (cc_io (w_state (t_world t))) = mac_written (cc_io (w_state (t_world ?t))) @ [d]"
    "m65_build_mode_select_payload (request_for initial_structure mask_structure) 40 = Inr d" by (rule desk_stages)
  obtain e where e: "tr_controller_restored (t_report (test_cleanup ?h ?o t))"
    "m65_build_mode_select_payload initial_structure 40 = Inr e"
    "mac_written (cc_io (w_state (t_world (test_cleanup ?h ?o t)))) = mac_written (cc_io (w_state (t_world t))) @ [e]"
    by (rule desk_cleanup [OF t(2-5)])
  have clear: "m65_probe_clear_interrupt ?h ?w = ?w"
    by (simp add: m65_probe_clear_interrupt_def desk_deliver session_world_def)
  have "m65_test_1581 ?h (Some ?o) True (Some zero_report_1581) ?w =
      (tr_code (t_report (test_cleanup ?h ?o t)), Some (t_report (test_cleanup ?h ?o t)), t_world (test_cleanup ?h ?o t))"
    using a(1) t(1) by (simp add: m65_test_1581_def test_1581_body_def clear Let_def) (simp add: session_world_def Let_def)
  from that [OF this e(1) t(7) e(2)] show thesis using e(3) t(6) a(3) by (simp add: start_run_def)
qed

end
