(* ===== verification/M65_OutputRefine.thy ===== *)
theory M65_OutputRefine
  imports M65_Output
begin

text \<open>
  Reports as documents: the calls a report makes on the writer lead to the text of one object, and
  what happens to the writer on the way does not matter, since a call that fails fails it for good.
\<close>

section \<open>Steps that must succeed\<close>

lemma append_bytes_false: "append_bytes alloc s j = (False, j') \<Longrightarrow> j_failed j'"
  by (auto simp: append_bytes_def reserve_def json_fail_def Let_def split: prod.splits bool.splits if_splits option.splits)

lemma and_then_false:
  assumes "and_then f g j = (False, j')"
    and "\<And>j j'. f j = (False, j') \<Longrightarrow> j_failed j'" "\<And>j j'. g j = (False, j') \<Longrightarrow> j_failed j'"
  shows "j_failed j'"
  using assms by (auto simp: and_then_def split: prod.splits bool.splits)

lemma append_escaped_loop_false: "append_escaped_loop alloc s j = (False, j') \<Longrightarrow> j_failed j'"
proof (induction s arbitrary: j)
  case (Cons c s)
  then show ?case
    by (auto simp: and_then_def append_text_def dest: append_bytes_false split: prod.splits bool.splits)
qed simp

lemma append_false:
  "append_text alloc s j = (False, j') \<Longrightarrow> j_failed j'" "append_char alloc c j = (False, j') \<Longrightarrow> j_failed j'"
  "append_escaped alloc s j = (False, j') \<Longrightarrow> j_failed j'"
  unfolding append_text_def append_char_def append_escaped_def
  by (auto dest!: append_bytes_false and_then_false append_escaped_loop_false simp: append_char_def)

lemma before_value_false: "before_value alloc j = (False, j') \<Longrightarrow> j_failed j'"
  by (auto simp: before_value_def json_fail_def Let_def dest: append_false split: if_splits prod.splits bool.splits)


lemma run_op_allowed:
  assumes "refines j d" "doc_step op d = Some d'" "run_op alloc op j = (False, j')"
  shows "j_failed j'"
proof -
  obtain fs root where d: "d = (fs, root)" by force
  have depth: "j_depth j = length fs" using assms(1) d by (simp add: stack_ok_def)
  have value_case: "j_failed j'" if "and_then (before_value alloc) g j = (False, j')"
    "\<And>j j'. g j = (False, j') \<Longrightarrow> j_failed j'" for g
    by (rule and_then_false [OF that(1)]) (erule before_value_false, erule that(2))
  have end_case: "j_failed j'" if "end_container alloc k t j = (False, j')" "fs \<noteq> []" for k t
    using that depth by (auto simp: end_container_def json_fail_def Let_def dest: append_false split: if_splits)
  have begin_case: "j_failed j'" if "begin_container alloc k t j = (False, j')" for k t
    using that by (auto simp: begin_container_def json_fail_def Let_def split: if_splits prod.splits bool.splits)
  have key_case: "j_failed j'" if "m65_json_key alloc (Some k) j = (False, j')" "fs \<noteq> []" for k
    using that depth
    by (auto simp: m65_json_key_def json_fail_def Let_def dest!: append_false and_then_false
        split: if_splits prod.splits bool.splits)
  show ?thesis
  proof (cases op)
    case OpBeginObject
    then show ?thesis using assms(3) begin_case by (simp add: m65_json_begin_object_def)
  next
    case OpBeginArray
    then show ?thesis using assms(3) begin_case by (simp add: m65_json_begin_array_def)
  next
    case OpEndObject
    then have "fs \<noteq> []" using assms(2) d by auto
    then show ?thesis using OpEndObject assms(3) end_case by (simp add: m65_json_end_object_def)
  next
    case OpEndArray
    then have "fs \<noteq> []" using assms(2) d by auto
    then show ?thesis using OpEndArray assms(3) end_case by (simp add: m65_json_end_array_def)
  next
    case (OpKey key)
    then obtain k where k: "key = Some k" using assms(2) by (cases key) auto
    have "fs \<noteq> []" using assms(2) d OpKey k by auto
    then show ?thesis using OpKey k assms(3) key_case by simp
  next
    case (OpString s)
    then obtain t where "s = Some t" using assms(2) by (cases s) auto
    then show ?thesis using OpString assms(3) value_case [OF _ append_false(3)] by (simp add: m65_json_string_def)
  qed (use assms(3) value_case [OF _ append_false(1)] in
      \<open>simp_all add: m65_json_uint_def m65_json_int_def m65_json_bool_def m65_json_null_def\<close>)
qed

lemma run_ops_follows:
  "doc_run ops d = Some d' \<Longrightarrow> run_ops alloc ops j = (b, j') \<Longrightarrow> refines j d \<or> j_failed j \<Longrightarrow>
     refines j' d' \<or> j_failed j'"
proof (induction ops arbitrary: j d b)
  case (Cons op ops)
  obtain d1 where d1: "doc_step op d = Some d1" "doc_run ops d1 = Some d'"
    using Cons.prems(1) by (auto split: Option.bind_splits)
  obtain b1 j1 where r1: "run_op alloc op j = (b1, j1)" by force
  obtain b2 where r2: "run_ops alloc ops j1 = (b2, j')" using Cons.prems(2) r1 by (auto split: prod.splits)
  have "refines j1 d1 \<or> j_failed j1"
  proof (cases "j_failed j")
    case True
    with implements_failed [OF run_op_implements True r1] show ?thesis by simp
  next
    case False
    then have ref: "refines j d" using Cons.prems(3) by simp
    show ?thesis
    proof (cases b1)
      case True
      with implements_step [OF run_op_implements ref r1] d1(1) show ?thesis by simp
    next
      case False
      with run_op_allowed [OF ref d1(1), of alloc j1] r1 show ?thesis by simp
    qed
  qed
  from Cons.IH [OF d1(2) r2 this] show ?case .
qed auto

text \<open>Calls joined by \<open>&&\<close>.\<close>

fun run_chain :: "(nat \<Rightarrow> bool) \<Rightarrow> json_op \<Rightarrow> json_op list \<Rightarrow> json \<Rightarrow> bool \<times> json" where
  "run_chain alloc op [] = run_op alloc op"
| "run_chain alloc op (op' # ops) = and_then (run_op alloc op) (run_chain alloc op' ops)"

lemma run_chain_refines:
  "run_chain alloc op ops j = (True, j') \<Longrightarrow> refines j d \<Longrightarrow> \<exists>d'. doc_run (op # ops) d = Some d' \<and> refines j' d'"
proof (induction ops arbitrary: op j d)
  case Nil
  then show ?case using implements_step [OF run_op_implements] by fastforce
next
  case (Cons op' ops)
  obtain b j1 where r: "run_op alloc op j = (b, j1)" by force
  then have b: b "run_chain alloc op' ops j1 = (True, j')"
    using Cons.prems(1) by (auto simp: and_then_def split: bool.splits)
  from implements_step [OF run_op_implements Cons.prems(2) r] b(1)
  have "\<exists>d1. doc_step op d = Some d1 \<and> refines j1 d1" by simp
  then obtain d1 where "doc_step op d = Some d1" "refines j1 d1" by (elim exE conjE)
  with Cons.IH [OF b(2)] show ?case by simp
qed

lemma run_chain_completes:
  "refines j d \<Longrightarrow> doc_run (op # ops) d = Some d' \<Longrightarrow> short (doc_text d') \<Longrightarrow>
     \<exists>j'. run_chain memory op ops j = (True, j')"
proof (induction ops arbitrary: op j d)
  case Nil
  then show ?case using run_ops_complete [of j d "[op]" d'] by (auto split: prod.splits)
next
  case (Cons op' ops)
  obtain d1 where d1: "doc_step op d = Some d1" "doc_run (op' # ops) d1 = Some d'"
    using Cons.prems(2) by (auto split: Option.bind_splits)
  have acc: "list_all accepts (tl (fst d))" using Cons.prems(1) by (cases d) auto
  have "length (doc_text d1) \<le> length (doc_text d')"
    using doc_run_grows [OF d1(2)] doc_step_grows [OF d1(1) acc] by simp
  then have "short (doc_text d1)" using Cons.prems(3) by (simp add: short_def)
  with run_ops_complete [of j d "[op]" d1] Cons.prems(1) d1(1) obtain j1 where
    j1: "run_op memory op j = (True, j1)" "refines j1 d1" by (auto split: prod.splits)
  from Cons.IH [OF j1(2) d1(2) Cons.prems(3)] j1(1) show ?case by (auto simp: and_then_def)
qed

section \<open>The members of an object\<close>

definition members_ops :: "(string \<times> jvalue) list \<Rightarrow> json_op list" where
  "members_ops ms = concat (map (\<lambda>(k, v). Key k # ops_of v) ms)"

lemma members_ops_simps [simp]:
  "members_ops [] = []" "members_ops ((k, v) # ms) = Key k # ops_of v @ members_ops ms"
  "members_ops (xs @ ys) = members_ops xs @ members_ops ys"
  by (simp_all add: members_ops_def)

lemma ops_of_object: "ops_of (JObj ms) = OpBeginObject # members_ops ms @ [OpEndObject]"
  by (simp add: members_ops_def)

text \<open>A signed number that is not negative is written like an unsigned one.\<close>

fun plain_op :: "json_op \<Rightarrow> json_op" where
  "plain_op (OpInt n) = (if sint n < 0 then OpInt n else OpUint n)"
| "plain_op op = op"

lemma doc_step_plain: "doc_step (plain_op op) = doc_step op"
proof (cases op)
  case (OpInt n)
  have "sint n = uint n" if "\<not> sint n < 0"
    using that sint_lt [of n] by (simp add: uint_sint take_bit_int_eq_self)
  with OpInt show ?thesis by auto
qed simp_all


lemma doc_run_plain: "doc_run (map plain_op ops) d = doc_run ops d"
  by (induction ops arbitrary: d) (auto simp: doc_step_plain split: Option.bind_splits)

lemma members_run:
  "list_all (\<lambda>(k, v). fits n v) ms \<Longrightarrow> length fs + Suc n \<le> M65_JSON_MAX_DEPTH \<Longrightarrow>
     doc_run (members_ops ms) (FObj ys None # fs, None) = Some (FObj (ys @ ms) None # fs, None)"
proof (induction ms arbitrary: ys)
  case (Cons m ms)
  obtain k v where m: "m = (k, v)" by force
  have "doc_run (ops_of v) (FObj ys (Some k) # fs, None) = Some (FObj (ys @ [(k, v)]) None # fs, None)"
    using ops_of_run [of n v "FObj ys (Some k) # fs" None] Cons.prems m by (auto simp: accepts_def)
  with Cons m show ?case by (simp add: doc_run_append)
qed simp

section \<open>A whole report\<close>

definition report_value :: "string \<Rightarrow> (string \<times> jvalue) list \<Rightarrow> jvalue" where
  "report_value command ms =
     JObj ((''schema_version'', JNum 1) # (''command'', JObj [(''name'', JStr command)]) # ms)"

definition top_frames :: "string \<Rightarrow> frame list" where
  "top_frames command = [FObj [(''schema_version'', JNum 1), (''command'', JObj [(''name'', JStr command)])] None]"

definition top_ops :: "string \<Rightarrow> json_op list" where
  "top_ops command = [Key ''schema_version'', OpUint 1, Key ''command'', OpBeginObject, Key ''name'',
     Str command, OpEndObject]"

lemma json_top_chain:
  "json_top alloc command =
     (case m65_json_init alloc of
        (False, json) \<Rightarrow> (False, json)
      | (True, json) \<Rightarrow>
          (case run_chain alloc OpBeginObject (top_ops command) json of
             (False, json) \<Rightarrow> (False, m65_json_destroy json)
           | (True, json) \<Rightarrow> (True, json)))"
proof -
  have "run_chain alloc OpBeginObject (top_ops command) =
      and_then (m65_json_begin_object alloc)
       (and_then (m65_json_key alloc (Some ''schema_version''))
       (and_then (m65_json_uint alloc M65_SCHEMA_VERSION)
       (and_then (m65_json_key alloc (Some ''command''))
       (and_then (m65_json_begin_object alloc)
       (and_then (m65_json_key alloc (Some ''name''))
       (and_then (m65_json_string alloc (Some command)) (m65_json_end_object alloc)))))))"
    by (simp add: top_ops_def M65_SCHEMA_VERSION_def)
  then show ?thesis unfolding json_top_def by (rule ssubst) (rule refl)
qed

lemma top_ops_run: "doc_run (OpBeginObject # top_ops command) ([], None) = Some (top_frames command, None)"
  by (simp add: top_ops_def top_frames_def doc_open_def doc_value_def accepts_def M65_JSON_MAX_DEPTH_def)

lemma json_top_refines:
  assumes "json_top alloc command = (True, j)"
  shows "refines j (top_frames command, None)"
proof -
  obtain j0 where i: "m65_json_init alloc = (True, j0)"
    and chain: "run_chain alloc OpBeginObject (top_ops command) j0 = (True, j)"
    using assms by (auto simp: json_top_chain split: prod.splits bool.splits)
  have "refines j0 ([], None)" using init_represented [OF i] by simp
  from run_chain_refines [OF chain this] show ?thesis by (simp add: top_ops_run del: doc_run.simps)
qed

lemma report_run:
  assumes "map plain_op calls = members_ops ms @ [OpEndObject]" "list_all (\<lambda>(k, v). fits 15 v) ms"
  shows "doc_run calls (top_frames command, None) = Some ([], Some (report_value command ms))"
proof -
  have "doc_run (members_ops ms) (top_frames command, None) =
      Some ([FObj ([(''schema_version'', JNum 1), (''command'', JObj [(''name'', JStr command)])] @ ms) None], None)"
    unfolding top_frames_def using members_run [OF assms(2), of "[]"] by (simp add: M65_JSON_MAX_DEPTH_def)
  then have "doc_run (map plain_op calls) (top_frames command, None) = Some ([], Some (report_value command ms))"
    unfolding assms(1) doc_run_append by (simp add: report_value_def)
  then show ?thesis by (simp add: doc_run_plain)
qed

text \<open>A report prints its value and a line end, or nothing.\<close>

definition prints :: "emitted \<Rightarrow> jvalue \<Rightarrow> bool" where
  "prints e v \<longleftrightarrow> (case e of (printed, out, err) \<Rightarrow> out = (if printed then render v @ nl else []))"

lemma output_json_prints:
  assumes "map plain_op calls = members_ops ms @ [OpEndObject]" "list_all (\<lambda>(k, v). fits 15 v) ms"
  shows "prints (output_json alloc command calls) (report_value command ms)"
proof (cases "json_top alloc command")
  case (Pair b j)
  show ?thesis
  proof (cases b)
    case True
    obtain b' j' where r: "run_ops alloc calls j = (b', j')" by force
    have top: "refines j (top_frames command, None)" using json_top_refines Pair True by simp
    from run_ops_follows [OF report_run [OF assms] r] top
    have "refines j' ([], Some (report_value command ms)) \<or> j_failed j'" by blast
    then have "m65_json_finish j' \<Longrightarrow> m65_json_data j' = render (report_value command ms)"
      using refines_finish by (force simp: m65_json_finish_def)
    then show ?thesis using Pair True r by (simp add: output_json_def json_emit_def prints_def)
  qed (use Pair in \<open>simp add: output_json_def prints_def\<close>)
qed

lemma output_json_completes:
  assumes "map plain_op calls = members_ops ms @ [OpEndObject]" "list_all (\<lambda>(k, v). fits 15 v) ms"
    and "short (render (report_value command ms))"
  shows "output_json memory command calls = (True, render (report_value command ms) @ nl, [])"
proof -
  obtain j0 where i: "m65_json_init memory = (True, j0)" by (auto simp: m65_json_init_def Let_def)
  have r0: "refines j0 ([], None)" using init_represented [OF i] by simp
  have run: "doc_run calls (top_frames command, None) = Some ([], Some (report_value command ms))"
    by (rule report_run [OF assms(1,2)])
  have "length (doc_text (top_frames command, None)) \<le> length (render (report_value command ms))"
    using doc_run_grows [OF run] by (simp add: top_frames_def)
  then have "short (doc_text (top_frames command, None))" using assms(3) by (simp add: short_def)
  from run_chain_completes [OF r0 top_ops_run this] obtain j where
    "run_chain memory OpBeginObject (top_ops command) j0 = (True, j)" by blast
  with i have top: "json_top memory command = (True, j)" by (simp add: json_top_chain)
  from run_ops_complete [OF json_top_refines [OF top] run] assms(3) obtain j' where
    j': "run_ops memory calls j = (True, j')" "refines j' ([], Some (report_value command ms))" by auto
  from j'(2) have "m65_json_finish j'" "m65_json_data j' = render (report_value command ms)"
    by (auto simp: m65_json_finish_def m65_json_data_def buffer_ok_def stack_ok_def)
  with top j'(1) show ?thesis by (simp add: output_json_def json_emit_def)
qed

end
