(* ===== verification/M65_OutputValues.thy ===== *)
theory M65_OutputValues
  imports M65_OutputRefine
begin

text \<open>
  What each report says, as a JSON value, and that the calls it makes write that value.
\<close>

section \<open>What the fragments say\<close>

definition identifier_value :: "u16 \<Rightarrow> jvalue" where
  "identifier_value value =
     JObj [(''numeric'', JNum (uint value)), (''hex'', JStr (''0x'' @ hex_digits 4 (unat value)))]"

definition device_members :: "device_info option \<Rightarrow> (string \<times> jvalue) list" where
  "device_members device =
     [(''bsd_name'', if field_of [] d_bsd_name device = [] then JNull else JStr (field_of [] d_bsd_name device)),
      (''name'', JStr (field_of [] d_media_name device)),
      (''usb'', JObj
        [(''vid'', identifier_value (field_of 0 d_usb_vid device)),
         (''pid'', identifier_value (field_of 0 d_usb_pid device)),
         (''device_revision'', identifier_value (field_of 0 d_usb_device_revision device)),
         (''manufacturer'', JStr (field_of [] d_usb_manufacturer device)),
         (''product'', JStr (field_of [] d_usb_product device)),
         (''product_revision'', JStr (field_of [] d_product_revision device)),
         (''known_controller'', JBool (field_of False d_known_controller device))])]"

definition media_members :: "device_info option \<Rightarrow> (string \<times> jvalue) list" where
  "media_members device =
     [(''present'', JBool (field_of False d_media_present device)),
      (''external'', JBool (field_of False d_external device)),
      (''removable'', JBool (field_of False d_removable device)),
      (''whole'', JBool (field_of False d_whole device)),
      (''mounted'', JBool (field_of False d_mounted device)),
      (''capacity_bytes'', JNum (uint (field_of 0 d_capacity_bytes device))),
      (''block_size'', JNum (uint (field_of 0 d_block_size device))),
      (''permissions'', JObj
        [(''raw_path'', JStr (field_of [] d_raw_path device)),
         (''readable'', JBool (field_of False d_readable device)),
         (''errno'', JNum (sint (word_of_int (field_of 0 d_permission_errno device) :: 64 word)))])]"

definition sense_value :: "m65_sense \<Rightarrow> jvalue" where
  "sense_value sense =
     JObj [(''valid'', JBool (sense_valid sense)), (''sense_key'', JNum (uint (sense_key sense))),
           (''asc'', JNum (uint (sense_asc sense))), (''ascq'', JNum (uint (sense_ascq sense)))]"

definition flexible_value :: "flexible_disk_page \<Rightarrow> bool \<Rightarrow> jvalue" where
  "flexible_value page include_changeable =
     JObj ([(''transfer_rate_kbit_s'', JNum (uint (fp_transfer_rate_kbit page))),
            (''heads'', JNum (uint (fp_heads page))),
            (''sectors_per_track'', JNum (uint (fp_sectors_per_track page))),
            (''bytes_per_sector'', JNum (uint (fp_bytes_per_sector page))),
            (''cylinders'', JNum (uint (fp_cylinders page))),
            (''medium_rotation_rate_rpm'', JNum (uint (fp_medium_rotation_rate_rpm page)))] @
           (if include_changeable then [(''changeable_fields'', JArr (map JStr (changeable_names page)))] else []))"

definition error_values :: "string option \<Rightarrow> m65_sense option \<Rightarrow> jvalue list" where
  "error_values error sense =
     (case error of
        None \<Rightarrow> []
      | Some text \<Rightarrow>
          if text = [] then []
          else [JObj ((''message'', JStr text) #
                 (case sense of None \<Rightarrow> [] | Some s \<Rightarrow> if sense_valid s then [(''sense'', sense_value s)] else []))])"

lemma ucast_64 [simp]: "word_of_int (uint (w :: 'a::len word)) = (ucast w :: 64 word)"
  by (rule ucast_eq [symmetric])

lemma strings_ops: "concat (map (ops_of \<circ> JStr) xs) = map (\<lambda>s. Str s) xs"
  by (induction xs) auto

lemma map_plain_concat: "(\<And>x. x \<in> set xs \<Longrightarrow> map plain_op (f x) = ops_of (g x)) \<Longrightarrow>
    map plain_op (concat (map f xs)) = concat (map ops_of (map g xs))"
  by (induction xs) auto

named_theorems fragment

lemma identifier_ops [fragment]: "map plain_op (json_identifier v) = ops_of (identifier_value v)"
  by (simp add: json_identifier_def identifier_value_def)

lemma sense_ops [fragment]: "map plain_op (json_sense (Some s)) = ops_of (sense_value s)"
  by (simp add: json_sense_def sense_value_def)

lemma device_ops [fragment]: "map plain_op (json_device_fields d) = members_ops (device_members d)"
  by (simp add: json_device_fields_def device_members_def identifier_ops field_of_def split: option.splits)

lemma int_ops: "[plain_op (OpInt n)] = ops_of (JNum (sint n))"
  by (auto simp: uint_sint take_bit_int_eq_self)

lemma media_ops [fragment]: "map plain_op (json_media_fields d) = members_ops (media_members d)"
  using int_ops by (simp add: json_media_fields_def media_members_def del: plain_op.simps(1))

lemma flexible_ops [fragment]: "map plain_op (json_flexible p b) = ops_of (flexible_value p b)"
  by (simp add: json_flexible_def flexible_value_def strings_ops comp_def)

lemma errors_ops [fragment]: "map plain_op (json_errors e s) = members_ops [(''errors'', JArr (error_values e s))]"
  by (simp add: json_errors_def error_values_def sense_ops split: option.splits)

lemma object_ops [fragment]:
  "map plain_op ops = members_ops ms \<Longrightarrow> map plain_op (json_object k ops) = members_ops [(k, JObj ms)]"
  by (simp add: json_object_def members_ops_def)


lemma uint_fits:
  "uint (a :: 8 word) < 2 ^ 64" "uint (b :: 16 word) < 2 ^ 64" "uint (c :: 32 word) < 2 ^ 64" "uint (d :: 64 word) < 2 ^ 64"
  using uint_lt2p [of a] uint_lt2p [of b] uint_lt2p [of c] uint_lt2p [of d] by simp_all

lemma uint_ge_min: "- 9223372036854775808 \<le> uint (w :: 'a::len word)"
  by (rule order_trans [OF _ uint_ge_0]) simp

lemmas uint_limits = uint_fits [simplified] uint_ge_min

lemma fits_JNum [simp]: "fits n (JNum i) \<longleftrightarrow> - (2 ^ 63) \<le> i \<and> i < 2 ^ 64"
  by (cases n) simp_all

lemma fits_leaves [simp]: "fits n (JStr s)" "fits n (JBool b)" "fits n JNull"
  by (cases n; simp)+

lemma fits_uint [simp]:
  "fits n (JNum (uint (a :: 8 word)))" "fits n (JNum (uint (b :: 16 word)))"
  "fits n (JNum (uint (c :: 32 word)))" "fits n (JNum (uint (d :: 64 word)))"
  using uint_fits(1) [of a] uint_fits(2) [of b] uint_fits(3) [of c] uint_fits(4) [of d]
  by (simp_all add: uint_limits)

lemma sint_limits:
  fixes w :: "64 word"
  shows "- 9223372036854775808 \<le> sint w" "sint w < 18446744073709551616"
  using sint_ge [of w] sint_lt [of w] by simp_all

lemma fits_identifier: "fits (Suc n) (identifier_value v)"
  by (simp add: identifier_value_def uint_limits)

lemma fits_sense: "fits (Suc n) (sense_value s)"
  by (simp add: sense_value_def uint_limits)

lemma fits_flexible: "fits (Suc (Suc n)) (flexible_value p b)"
  by (simp add: flexible_value_def list_all_iff uint_limits)

lemma fits_device: "list_all (\<lambda>(k, v). fits (Suc (Suc n)) v) (device_members d)"
  by (simp add: device_members_def fits_identifier uint_limits)

lemma fits_media: "list_all (\<lambda>(k, v). fits (Suc n) v) (media_members d)"
  by (simp add: media_members_def uint_limits sint_limits)

lemma fits_errors: "list_all (fits (Suc (Suc n))) (error_values e s)"
  by (simp add: error_values_def fits_sense split: option.splits)

lemmas fragment_fits = fits_identifier fits_sense fits_flexible fits_device fits_media fits_errors

section \<open>What the reports say\<close>

definition candidate_value :: "device_info \<Rightarrow> jvalue" where
  "candidate_value device =
     JObj (device_members (Some device) @ [(''media'', JObj (media_members (Some device)))])"

definition list_value :: "device_list option \<Rightarrow> string option \<Rightarrow> jvalue" where
  "list_value devices error =
     (let items = (case devices of None \<Rightarrow> [] | Some items \<Rightarrow> items)
      in report_value ''list''
           [(''device'', JObj [(''candidates'', JArr (map candidate_value items))]),
            (''media'', JObj [(''candidate_count'', JNum (uint (of_nat (length items) :: 64 word)))]),
            (''ufi'', JObj []),
            (''result'', JObj
              [(''status'', JStr (if error = None then ''ok'' else ''error'')),
               (''reason'', JStr (case error of None \<Rightarrow> ''enumeration completed'' | Some text \<Rightarrow> text))]),
            (''errors'', JArr (error_values error None))])"

definition error_value :: "string option \<Rightarrow> device_info option \<Rightarrow> string option \<Rightarrow> jvalue" where
  "error_value command device error =
     report_value (case command of None \<Rightarrow> ''invalid'' | Some text \<Rightarrow> text)
       [(''device'', JObj (device_members device)), (''media'', JObj (media_members device)),
        (''ufi'', JObj []),
        (''result'', JObj
          [(''status'', JStr ''error''),
           (''reason'', JStr (case error of None \<Rightarrow> ''unknown error'' | Some text \<Rightarrow> text))]),
        (''errors'', JArr (error_values error None))]"

definition format_value :: "format_descriptor \<Rightarrow> jvalue" where
  "format_value descriptor =
     JObj [(''blocks'', JNum (uint (fd_blocks descriptor))),
           (''block_size'', JNum (uint (fd_block_size descriptor))),
           (''descriptor_code'', JNum (uint (fd_descriptor_code descriptor)))]"

definition inspect_value :: "device_info \<Rightarrow> inspect_report \<Rightarrow> jvalue" where
  "inspect_value device report =
     report_value ''inspect''
       [(''device'', JObj (device_members (Some device))), (''media'', JObj (media_members (Some device))),
        (''ufi'', JObj
          [(''inquiry'', JObj
             [(''vendor'', JStr (inq_vendor (ir_inquiry report))),
              (''product'', JStr (inq_product (ir_inquiry report))),
              (''firmware'', JStr (inq_firmware (ir_inquiry report)))]),
           (''test_unit_ready'', JBool (ir_unit_ready report)),
           (''capacity'', JObj
             [(''blocks'', JNum (uint (cap_blocks (ir_capacity report)))),
              (''block_size'', JNum (uint (cap_block_size (ir_capacity report)))),
              (''bytes'', JNum (uint (cap_blocks (ir_capacity report)) * uint (cap_block_size (ir_capacity report))))]),
           (''format_capacities'', JArr (map format_value (ir_format_capacities report))),
           (''flexible_disk'', flexible_value (mp_flexible (ir_current_mode report)) True),
           (''sense'', sense_value (ir_sense report))]),
        (''result'', JObj
          [(''status'', JStr (if ir_code report = PROBE_OK then ''ok'' else ''error'')),
           (''reason'', JStr (ir_reason report))]),
        (''errors'', JArr (error_values (report_error (ir_code report) (ir_reason report)) (Some (ir_sense report))))]"

definition test_value :: "device_info \<Rightarrow> report_1581 \<Rightarrow> string option \<Rightarrow> jvalue" where
  "test_value device report output_path =
     report_value ''test-1581''
       [(''device'', JObj (device_members (Some device))), (''media'', JObj (media_members (Some device))),
        (''ufi'', JObj
          [(''original_flexible_disk'', flexible_value (tr_original report) True),
           (''requested_flexible_disk'', flexible_value (tr_requested report) False),
           (''accepted_flexible_disk'', flexible_value (tr_accepted report) False),
           (''sense'', sense_value (tr_sense report))]),
        (''result'', JObj
          [(''status'', JStr (m65_1581_status_text (tr_status report))),
           (''reason'', JStr (tr_reason report)),
           (''acknowledgement_supplied'', JBool (tr_acknowledgement_supplied report)),
           (''original_parameters_saved'', JBool (tr_original_saved report)),
           (''controller_restored'', JBool (tr_controller_restored report)),
           (''boundary_lba_9_read'', JBool (tr_boundary_lba_9_read report)),
           (''boundary_lba_1599_read'', JBool (tr_boundary_lba_1599_read report)),
           (''repeated_reads_match'', JBool (tr_repeated_reads_match report)),
           (''output'', if output_path \<noteq> None \<and> tr_code report = PROBE_OK
                        then JStr (the output_path) else JNull)]),
        (''errors'', JArr (error_values (report_error (tr_code report) (tr_reason report)) (Some (tr_sense report))))]"

section \<open>The reports are these values\<close>

lemma capacity_bytes:
  fixes a b :: u32
  shows "word_of_int (uint a * uint b) = (ucast a * ucast b :: 64 word)" "0 \<le> uint a * uint b"
    "uint a * uint b < 2 ^ 64"
proof -
  show "word_of_int (uint a * uint b) = (ucast a * ucast b :: 64 word)" by (simp only: of_int_mult ucast_64)
  show "0 \<le> uint a * uint b" by simp
  have "uint a * uint b < 2 ^ 32 * 2 ^ 32"
    using uint_lt2p [of a] uint_lt2p [of b] by (intro mult_strict_mono') simp_all
  then show "uint a * uint b < 2 ^ 64" by simp
qed

lemma product_limits:
  fixes a b :: u32
  shows "- 9223372036854775808 \<le> uint a * uint b" "uint a * uint b < 18446744073709551616"
proof -
  show "- 9223372036854775808 \<le> uint a * uint b" by (rule order_trans [OF _ capacity_bytes(2)]) simp
  show "uint a * uint b < 18446744073709551616" using capacity_bytes(3) [of a b] by simp
qed

lemma product_word [simp]:
  fixes a b :: u32
  shows "(word_of_int (uint a * uint b) :: 64 word) = ucast a * ucast b"
  by (rule capacity_bytes)

lemma candidate_ops: "map plain_op (candidate_calls d) = ops_of (candidate_value d)"
  by (simp add: candidate_calls_def candidate_value_def ops_of_object fragment del: ops_of.simps(1))

lemma format_ops: "map plain_op (format_calls d) = ops_of (format_value d)"
  by (simp add: format_calls_def format_value_def)

lemma array_ops:
  "(\<And>x. map plain_op (f x) = ops_of (g x)) \<Longrightarrow>
     map plain_op ([Key k, OpBeginArray] @ concat (map f xs) @ [OpEndArray]) = members_ops [(k, JArr (map g xs))]"
  by (simp add: map_plain_concat)

lemma fits_candidates: "list_all (fits (Suc (Suc (Suc n)))) (map candidate_value ds)"
  by (simp add: list_all_iff) (simp add: candidate_value_def fits_device fits_media)

lemma fits_formats: "list_all (fits (Suc n)) (map format_value ds)"
  by (simp add: list_all_iff) (simp add: format_value_def uint_limits)



lemma product_not_neg [simp]: "\<not> uint (a :: 'a::len word) * uint (b :: 'b::len word) < 0"
  by (simp add: linorder_not_less)

lemmas report_ops = fragment map_plain_concat [of _ format_calls format_value]
  map_plain_concat [of _ candidate_calls candidate_value] format_ops candidate_ops ops_of_object json_object_def

lemmas report_fits = numeral_eq_Suc fragment_fits fits_formats fits_candidates uint_limits product_limits


text \<open>Whatever the allocator does a report prints its value and a line end, or nothing; with memory to
  be had it prints the value.\<close>

definition faithful :: "((nat \<Rightarrow> bool) \<Rightarrow> emitted) \<Rightarrow> jvalue \<Rightarrow> bool" where
  "faithful f v \<longleftrightarrow> (\<forall>alloc. prints (f alloc) v) \<and> (short (render v) \<longrightarrow> f memory = (True, render v @ nl, []))"

lemma output_json_faithful:
  "map plain_op calls = members_ops ms @ [OpEndObject] \<Longrightarrow> list_all (\<lambda>(k, v). fits 15 v) ms \<Longrightarrow>
     faithful (\<lambda>alloc. output_json alloc command calls) (report_value command ms)"
  by (simp add: faithful_def output_json_prints output_json_completes)

lemma inspect_faithful: "faithful (\<lambda>alloc. m65_output_inspect_json alloc device report) (inspect_value device report)"
  unfolding m65_output_inspect_json_def inspect_value_def
proof (rule output_json_faithful, goal_cases)
  case 1
  show ?case by (simp add: report_ops del: ops_of.simps(1))
next
  case 2
  show ?case by (simp add: report_fits del: list.pred_map)
qed

lemma test_faithful: "faithful (\<lambda>alloc. m65_output_1581_json alloc device report path) (test_value device report path)"
  unfolding m65_output_1581_json_def test_value_def
proof (rule output_json_faithful, goal_cases)
  case 1
  show ?case by (simp add: report_ops del: ops_of.simps(1))
next
  case 2
  show ?case by (simp add: report_fits del: list.pred_map)
qed

lemma list_faithful: "faithful (\<lambda>alloc. m65_output_list_json alloc devices error) (list_value devices error)"
  unfolding m65_output_list_json_def list_value_def Let_def
proof (rule output_json_faithful, goal_cases)
  case 1
  show ?case by (simp add: report_ops del: ops_of.simps(1))
next
  case 2
  show ?case by (simp add: report_fits del: list.pred_map)
qed

lemma error_faithful: "faithful (\<lambda>alloc. m65_output_error_json alloc command device error) (error_value command device error)"
  unfolding m65_output_error_json_def error_value_def
proof (rule output_json_faithful, goal_cases)
  case 1
  show ?case by (simp add: report_ops del: ops_of.simps(1))
next
  case 2
  show ?case by (simp add: report_fits del: list.pred_map)
qed

end
