(* ===== verification/M65_JsonParse.thy ===== *)
theory M65_JsonParse
  imports M65_JsonProps
begin

text \<open>
  A reader for JSON values, and that it gives back what \<open>render\<close> wrote: the texts of the writer
  are those of one value each, and no two values share one.
\<close>

section \<open>A reader for the texts of values\<close>

definition expect :: "char \<Rightarrow> string \<Rightarrow> string option" where
  "expect c s = (case s of [] \<Rightarrow> None | d # r \<Rightarrow> if d = c then Some r else None)"

definition decimal :: "char \<Rightarrow> bool" where
  "decimal c \<longleftrightarrow> c \<in> set ''0123456789''"

definition decimal_value :: "string \<Rightarrow> nat" where
  "decimal_value ds = foldl (\<lambda>n c. 10 * n + (of_char c - 48)) 0 ds"

definition read_natural :: "string \<Rightarrow> (nat \<times> string) option" where
  "read_natural s =
     (let ds = takeWhile decimal s
      in if ds = [] then None else Some (decimal_value ds, dropWhile decimal s))"

definition read_number :: "string \<Rightarrow> (jvalue \<times> string) option" where
  "read_number s =
     (case expect CHR ''-'' s of
        Some r \<Rightarrow> map_option (\<lambda>(n, r). (JNum (- int n), r)) (read_natural r)
      | None \<Rightarrow> map_option (\<lambda>(n, r). (JNum (int n), r)) (read_natural s))"

text \<open>The fuel bounds the number of nested calls; the length of the text is enough.\<close>

fun read_value :: "nat \<Rightarrow> string \<Rightarrow> (jvalue \<times> string) option"
  and read_members :: "nat \<Rightarrow> string \<Rightarrow> ((string \<times> jvalue) list \<times> string) option"
  and read_elements :: "nat \<Rightarrow> string \<Rightarrow> (jvalue list \<times> string) option" where
  "read_value 0 s = None"
| "read_value (Suc n) s =
     (case expect CHR ''{'' s of
        Some r \<Rightarrow>
          (case expect CHR ''}'' r of
             Some r' \<Rightarrow> Some (JObj [], r')
           | None \<Rightarrow> map_option (\<lambda>(ms, r). (JObj ms, r)) (read_members n r))
      | None \<Rightarrow>
     (case expect CHR ''['' s of
        Some r \<Rightarrow>
          (case expect CHR '']'' r of
             Some r' \<Rightarrow> Some (JArr [], r')
           | None \<Rightarrow> map_option (\<lambda>(vs, r). (JArr vs, r)) (read_elements n r))
      | None \<Rightarrow>
     (if s \<noteq> [] \<and> hd s = CHR 0x22 then map_option (\<lambda>(t, r). (JStr t, r)) (unquote s)
      else if take 4 s = ''true'' then Some (JBool True, drop 4 s)
      else if take 5 s = ''false'' then Some (JBool False, drop 5 s)
      else if take 4 s = ''null'' then Some (JNull, drop 4 s)
      else read_number s)))"
| "read_members 0 s = None"
| "read_members (Suc n) s =
     Option.bind (unquote s) (\<lambda>(k, r).
     Option.bind (expect CHR '':'' r) (\<lambda>r.
     Option.bind (read_value n r) (\<lambda>(v, r).
       (case expect CHR '','' r of
          Some r' \<Rightarrow> map_option (\<lambda>(ms, r). ((k, v) # ms, r)) (read_members n r')
        | None \<Rightarrow> map_option (\<lambda>r. ([(k, v)], r)) (expect CHR ''}'' r)))))"
| "read_elements 0 s = None"
| "read_elements (Suc n) s =
     Option.bind (read_value n s) (\<lambda>(v, r).
       (case expect CHR '','' r of
          Some r' \<Rightarrow> map_option (\<lambda>(vs, r). (v # vs, r)) (read_elements n r')
        | None \<Rightarrow> map_option (\<lambda>r. ([v], r)) (expect CHR '']'' r)))"

definition read_json :: "string \<Rightarrow> (jvalue \<times> string) option" where
  "read_json s = read_value (length s) s"

section \<open>Numbers\<close>

lemma hex_digit_decimal: "n < 10 \<Longrightarrow> decimal (hex_digit n) \<and> of_char (hex_digit n) - 48 = n"
proof -
  assume "n < 10"
  then have "n \<in> {0, 1, 2, 3, 4, 5, 6, 7, 8, 9}" unfolding insert_iff empty_iff by presburger
  then show ?thesis by (elim insertE emptyE) (simp_all add: decimal_def hex_digit_def)
qed

lemma dec_string_decimal: "list_all decimal (dec_string n) \<and> dec_string n \<noteq> [] \<and> decimal_value (dec_string n) = n"
proof (induction n rule: dec_string.induct)
  case (1 n)
  show ?case
  proof (cases "n < 10")
    case True
    with hex_digit_decimal [OF True] show ?thesis by (simp add: dec_string.simps [of n] decimal_value_def)
  next
    case False
    have m: "n mod 10 < 10" by simp
    from 1 False hex_digit_decimal [OF m] show ?thesis
      by (simp add: dec_string.simps [of n] decimal_value_def)
  qed
qed

text \<open>What may follow a number.\<close>

definition ends_number :: "string \<Rightarrow> bool" where
  "ends_number rest \<longleftrightarrow> (rest = [] \<or> \<not> decimal (hd rest))"

lemma takeWhile_all: "list_all P xs \<Longrightarrow> ys = [] \<or> \<not> P (hd ys) \<Longrightarrow> takeWhile P (xs @ ys) = xs \<and> dropWhile P (xs @ ys) = ys"
  by (induction xs) (cases ys; auto)+

lemma read_natural_dec: "ends_number rest \<Longrightarrow> read_natural (dec_string n @ rest) = Some (n, rest)"
  using takeWhile_all [of decimal "dec_string n" rest] dec_string_decimal [of n]
  by (simp add: read_natural_def ends_number_def Let_def)

lemma dec_string_hd: "expect c (dec_string n @ rest) = None" if "\<not> decimal c"
  using dec_string_decimal [of n] that by (cases "dec_string n") (auto simp: expect_def)

lemma not_decimal:
  "\<not> decimal CHR ''-''" "\<not> decimal CHR ''{''" "\<not> decimal CHR ''[''" "\<not> decimal CHR '']''" "\<not> decimal CHR ''}''"
  "\<not> decimal CHR '',''" "\<not> decimal CHR 0x22" "\<not> decimal CHR ''t''" "\<not> decimal CHR ''f''" "\<not> decimal CHR ''n''"
  by (simp_all add: decimal_def)

lemma read_number_int: "ends_number rest \<Longrightarrow> read_number (int_text i @ rest) = Some (JNum i, rest)"
  by (auto simp: read_number_def int_text_def dec_string_hd not_decimal read_natural_dec expect_def
      split: option.splits) (simp_all add: read_natural_dec dec_string_hd not_decimal flip: expect_def)


section \<open>Reading a value back\<close>

fun weight :: "jvalue \<Rightarrow> nat" where
  "weight (JObj ms) = Suc (sum_list (map (\<lambda>(k, v). Suc (weight v)) ms))"
| "weight (JArr vs) = Suc (sum_list (map (\<lambda>v. Suc (weight v)) vs))"
| "weight v = 1"

lemma expect_simps [simp]:
  "expect c (d # r) = (if d = c then Some r else None)" "expect c [] = None"
  by (simp_all add: expect_def)

lemma first_of_int: "\<exists>c r. int_text i = c # r \<and> (c = CHR ''-'' \<or> decimal c)"
  using dec_string_decimal [of "nat i"] by (cases "dec_string (nat i)") (auto simp: int_text_def)

lemma read_int: "ends_number rest \<Longrightarrow> read_value (Suc n) (int_text i @ rest) = Some (JNum i, rest)"
proof -
  assume r: "ends_number rest"
  obtain c t where c: "int_text i = c # t" "c = CHR ''-'' \<or> decimal c" using first_of_int by blast
  then have "c \<noteq> CHR ''{'' \<and> c \<noteq> CHR ''['' \<and> c \<noteq> CHR 0x22 \<and> c \<noteq> CHR ''t'' \<and> c \<noteq> CHR ''f'' \<and> c \<noteq> CHR ''n''"
    using not_decimal by auto
  then show ?thesis using read_number_int [OF r, of i] c(1) by simp
qed

lemma read_string: "read_value (Suc n) (quote s @ rest) = Some (JStr s, rest)"
  using unquote_quote [of s rest] by (simp add: quote_def)

lemma join_comma_Cons: "join_comma (s # ss) = (if ss = [] then s else s @ CHR '','' # join_comma ss)"
  by (cases ss) simp_all

lemma quote_head: "expect CHR ''}'' (quote s @ r) = None"
  by (simp add: quote_def)

lemma render_head: "expect CHR '']'' (render v @ r) = None"
proof (cases v)
  case (JNum i)
  obtain c t where "int_text i = c # t" "c = CHR ''-'' \<or> decimal c" using first_of_int by blast
  with JNum not_decimal show ?thesis by auto
qed (simp_all add: quote_def)

abbreviation member_text :: "string \<times> jvalue \<Rightarrow> string" where
  "member_text m \<equiv> (case m of (k, v) \<Rightarrow> quote k @ CHR '':'' # render v)"

lemma read_members_render:
  assumes "\<And>k v n rest. (k, v) \<in> set ms \<Longrightarrow> weight v \<le> n \<Longrightarrow> ends_number rest \<Longrightarrow>
      read_value n (render v @ rest) = Some (v, rest)"
    and "sum_list (map (\<lambda>(k, v). Suc (weight v)) ms) \<le> n" "ms \<noteq> []"
  shows "read_members n (join_comma (map member_text ms) @ CHR ''}'' # rest) = Some (ms, rest)"
  using assms
proof (induction ms arbitrary: n)
  case (Cons m ms)
  obtain k v where m: "m = (k, v)" by force
  obtain n' where n: "n = Suc n'" "weight v \<le> n'" using Cons.prems(2) m by (cases n) auto
  have v: "ends_number r \<Longrightarrow> read_value n' (render v @ r) = Some (v, r)" for r
    using Cons.prems(1) [of k v n' r] m n by simp
  show ?case
  proof (cases "ms = []")
    case True
    with v [of "CHR ''}'' # rest"] m n show ?thesis by (simp add: unquote_quote ends_number_def not_decimal)
  next
    case False
    have "read_members n' (join_comma (map member_text ms) @ CHR ''}'' # rest) = Some (ms, rest)"
      using Cons.prems m n False by (intro Cons.IH) auto
    with v [of "CHR '','' # join_comma (map member_text ms) @ CHR ''}'' # rest"] m n False
    show ?thesis by (simp add: unquote_quote ends_number_def not_decimal join_comma_Cons)
  qed
qed simp

lemma read_elements_render:
  assumes "\<And>v n rest. v \<in> set vs \<Longrightarrow> weight v \<le> n \<Longrightarrow> ends_number rest \<Longrightarrow>
      read_value n (render v @ rest) = Some (v, rest)"
    and "sum_list (map (\<lambda>v. Suc (weight v)) vs) \<le> n" "vs \<noteq> []"
  shows "read_elements n (join_comma (map render vs) @ CHR '']'' # rest) = Some (vs, rest)"
  using assms
proof (induction vs arbitrary: n)
  case (Cons v vs)
  obtain n' where n: "n = Suc n'" "weight v \<le> n'" using Cons.prems(2) by (cases n) auto
  have v: "ends_number r \<Longrightarrow> read_value n' (render v @ r) = Some (v, r)" for r
    using Cons.prems(1) [of v n' r] n by simp
  show ?case
  proof (cases "vs = []")
    case True
    with v [of "CHR '']'' # rest"] n show ?thesis by (simp add: ends_number_def not_decimal)
  next
    case False
    have "read_elements n' (join_comma (map render vs) @ CHR '']'' # rest) = Some (vs, rest)"
      using Cons.prems n False by (intro Cons.IH) auto
    with v [of "CHR '','' # join_comma (map render vs) @ CHR '']'' # rest"] n False
    show ?thesis by (simp add: ends_number_def not_decimal join_comma_Cons)
  qed
qed simp

lemma read_render: "weight v \<le> n \<Longrightarrow> ends_number rest \<Longrightarrow> read_value n (render v @ rest) = Some (v, rest)"
proof (induction v arbitrary: n rest)
  case (JObj ms)
  obtain n' where n: "n = Suc n'" "sum_list (map (\<lambda>(k, v). Suc (weight v)) ms) \<le> n'" using JObj.prems by (cases n) auto
  have ih: "(k, v) \<in> set ms \<Longrightarrow> weight v \<le> i \<Longrightarrow> ends_number r \<Longrightarrow> read_value i (render v @ r) = Some (v, r)" for k v i r
    using JObj.IH [of "(k, v)" v i r] by simp
  show ?case
  proof (cases ms)
    case (Cons m more)
    have "read_members n' (join_comma (map member_text ms) @ CHR ''}'' # rest) = Some (ms, rest)"
      using n(2) Cons by (intro read_members_render) (auto intro: ih)
    moreover have "expect CHR ''}'' (join_comma (map member_text ms) @ CHR ''}'' # rest) = None"
      using Cons quote_head by (cases m) (simp add: join_comma_Cons)
    ultimately show ?thesis using n(1) by simp
  qed (simp add: n(1))
next
  case (JArr vs)
  obtain n' where n: "n = Suc n'" "sum_list (map (\<lambda>v. Suc (weight v)) vs) \<le> n'" using JArr.prems by (cases n) auto
  show ?case
  proof (cases vs)
    case (Cons v more)
    have "read_elements n' (join_comma (map render vs) @ CHR '']'' # rest) = Some (vs, rest)"
      using JArr.IH n(2) Cons by (intro read_elements_render) auto
    moreover have "expect CHR '']'' (join_comma (map render vs) @ CHR '']'' # rest) = None"
      using Cons render_head by (simp add: join_comma_Cons)
    ultimately show ?thesis using n(1) by simp
  qed (simp add: n(1))
next
  case (JNum i)
  then show ?case using read_int by (cases n) auto
next
  case (JStr s)
  then show ?case using read_string by (cases n) auto
next
  case (JBool b)
  then show ?case by (cases n) (simp_all del: One_nat_def)
next
  case JNull
  then show ?case by (cases n) simp_all
qed

lemma length_join: "sum_list (map (\<lambda>s. Suc (length s)) ss) \<le> Suc (length (join_comma ss))"
  by (induction ss rule: join_comma.induct) auto

lemma int_text_length: "1 \<le> length (int_text i)"
  using first_of_int [of i] by auto

lemma weight_length: "weight v \<le> length (render v)"
proof (induction v)
  case (JObj ms)
  have "sum_list (map (\<lambda>(k, v). Suc (weight v)) ms) \<le> sum_list (map (\<lambda>s. Suc (length s)) (map member_text ms))"
    unfolding map_map comp_def
    by (rule sum_list_mono) (use JObj in \<open>fastforce simp: quote_def\<close>)
  also have "\<dots> \<le> Suc (length (join_comma (map member_text ms)))" by (rule length_join)
  finally show ?case by simp
next
  case (JArr vs)
  have "sum_list (map (\<lambda>v. Suc (weight v)) vs) \<le> sum_list (map (\<lambda>s. Suc (length s)) (map render vs))"
    unfolding map_map comp_def by (rule sum_list_mono) (use JArr in simp)
  also have "\<dots> \<le> Suc (length (join_comma (map render vs)))" by (rule length_join)
  finally show ?case by simp
next
  case (JNum i)
  show ?case using int_text_length [of i] by simp
qed (simp_all add: quote_def)

lemma read_json_render: "ends_number rest \<Longrightarrow> read_json (render v @ rest) = Some (v, rest)"
  unfolding read_json_def by (rule read_render) (use weight_length [of v] in simp_all)

end
