(* ===== verification/M65_OutputProps.thy ===== *)
theory M65_OutputProps
  imports M65_OutputValues M65_JsonParse
begin

text \<open>
  The properties of the JSON reports.
\<close>

lemma faithful_text:
  assumes "faithful f v"
  shows "case f alloc of (printed, out, err) \<Rightarrow>
    if printed then out = render v @ nl \<and> read_json out = Some (v, nl) else out = []"
proof -
  have "ends_number nl" by (simp add: ends_number_def nl_def decimal_def)
  with read_json_render have "read_json (render v @ nl) = Some (v, nl)" by blast
  moreover have "prints (f alloc) v" using assms by (simp add: faithful_def)
  ultimately show ?thesis by (auto simp: prints_def split: prod.splits if_splits)
qed

text \<open>C39 The JSON inspection report is all or nothing: whatever allocations fail, either standard
  output gets one line, which reads back as exactly the device and the report, or nothing at all.\<close>

theorem inspect_json_faithful:
  "case m65_output_inspect_json alloc device report of (printed, out, err) \<Rightarrow>
     if printed then out = render (inspect_value device report) @ nl \<and>
       read_json out = Some (inspect_value device report, nl)
     else out = []"
  by (rule faithful_text [OF inspect_faithful])

text \<open>C38 So is the report of the 1581 test: a printed report has every field of the result, the output
  path only with PROBE_OK, and an error exactly when the code is another.\<close>

theorem test_json_faithful:
  "case m65_output_1581_json alloc device report output_path of (printed, out, err) \<Rightarrow>
     if printed then out = render (test_value device report output_path) @ nl \<and>
       read_json out = Some (test_value device report output_path, nl)
     else out = []"
  by (rule faithful_text [OF test_faithful])

text \<open>The device list, with every candidate and their number, is printed in the same way.\<close>

theorem list_json_faithful:
  "case m65_output_list_json alloc devices error of (printed, out, err) \<Rightarrow>
     if printed then out = render (list_value devices error) @ nl \<and>
       read_json out = Some (list_value devices error, nl)
     else out = []"
  by (rule faithful_text [OF list_faithful])

text \<open>With memory to be had the result of the 1581 test is always printed, and nothing on standard
  error.\<close>

theorem test_json_printed:
  assumes "length (render (test_value device report output_path)) < 2 ^ 62"
  shows "m65_output_1581_json (\<lambda>_. True) device report output_path =
    (True, render (test_value device report output_path) @ nl, [])"
  using test_faithful [of device report output_path] assms by (simp add: faithful_def short_def)

definition sample_device :: device_info where
  "sample_device =
     \<lparr>d_bsd_name = ''disk4'', d_raw_path = ''/dev/rdisk4'', d_registry_path = [], d_media_name = ''FD-05PUB'',
      d_usb_manufacturer = ''TEACV0.0'', d_usb_product = ''TEAC FD-05PUB'', d_product_revision = ''0x0000'',
      d_usb_vid = 0x0644, d_usb_pid = 0, d_usb_device_revision = 0, d_known_controller = True,
      d_media_present = True, d_external = True, d_removable = True, d_whole = True, d_mounted = False,
      d_readable = True, d_capacity_bytes = 819200, d_block_size = 512, d_permission_errno = 0\<rparr>"

text \<open>A bound on the length of a text, for the sample.\<close>

fun text_bound :: "jvalue \<Rightarrow> nat" where
  "text_bound (JObj ms) = 2 + sum_list (map (\<lambda>(k, v). 6 * length k + 4 + text_bound v) ms)"
| "text_bound (JArr vs) = 2 + sum_list (map (\<lambda>v. 1 + text_bound v) vs)"
| "text_bound (JStr s) = 6 * length s + 2"
| "text_bound (JNum i) = 2 + nat \<bar>i\<bar>"
| "text_bound (JBool b) = 5"
| "text_bound JNull = 4"

lemma length_dec_string: "length (dec_string n) \<le> Suc n"
proof (induction n rule: dec_string.induct)
  case (1 n)
  then show ?case by (cases "n < 10") (auto simp: dec_string.simps [of n])
qed

lemma length_escape_char: "length (escape_char c) \<le> 6"
  by (simp add: escape_char_def Let_def)

lemma length_quote: "length (quote s) \<le> 6 * length s + 2"
proof -
  have "length (concat (map escape_char s)) \<le> 6 * length s"
  proof (induction s)
    case (Cons c s)
    with length_escape_char [of c] show ?case by simp
  qed simp
  then show ?thesis by (simp add: quote_def)
qed

lemma length_join_le: "length (join_comma ss) \<le> sum_list (map (\<lambda>s. Suc (length s)) ss)"
  by (induction ss rule: join_comma.induct) auto

lemma length_render: "length (render v) \<le> text_bound v"
proof (induction v)
  case (JObj ms)
  have "length (join_comma (map member_text ms)) \<le> sum_list (map (\<lambda>m. Suc (length (member_text m))) ms)"
    using length_join_le [of "map member_text ms"] by (simp add: comp_def)
  also have "\<dots> \<le> sum_list (map (\<lambda>(k, v). 6 * length k + 4 + text_bound v) ms)"
  proof (rule sum_list_mono)
    fix m assume "m \<in> set ms"
    with JObj [of m "snd m"] length_quote [of "fst m"]
    show "Suc (length (member_text m)) \<le> (case m of (k, v) \<Rightarrow> 6 * length k + 4 + text_bound v)"
      by (cases m) simp
  qed
  finally show ?case by simp
next
  case (JArr vs)
  have "length (join_comma (map render vs)) \<le> sum_list (map (\<lambda>v. Suc (length (render v))) vs)"
    using length_join_le [of "map render vs"] by (simp add: comp_def)
  also have "\<dots> \<le> sum_list (map (\<lambda>v. 1 + text_bound v) vs)"
    by (rule sum_list_mono) (use JArr in simp)
  finally show ?case by simp
next
  case (JNum i)
  show ?case using length_dec_string [of "nat i"] length_dec_string [of "nat (- i)"] by (simp add: int_text_def)
qed (use length_quote in simp_all)

theorem test_json_printed_witness:
  "m65_output_1581_json (\<lambda>_. True) sample_device zero_report_1581 None =
    (True, render (test_value sample_device zero_report_1581 None) @ nl, [])"
proof (rule test_json_printed)
  have "text_bound (test_value sample_device zero_report_1581 None) < 2 ^ 62"
    by (simp add: test_value_def report_value_def device_members_def media_members_def identifier_value_def
        flexible_value_def sense_value_def changeable_names_def flexible_field_order_def error_values_def
        report_error_def field_of_def sample_device_def zero_report_1581_def zero_flexible_def zero_sense_def
        m65_1581_status_text_def upt_rec)
  then show "length (render (test_value sample_device zero_report_1581 None)) < 2 ^ 62"
    using length_render by (rule le_less_trans [rotated])
qed

end
