(* ===== verification/M65_MainProps.thy ===== *)
theory M65_MainProps
  imports M65_Main M65_OutputProps M65_TestProps
begin

text \<open>
  The properties of whole runs of the program: which runs open a session, what a run leaves in the
  file system, and that the JSON report and the exit code agree.
\<close>

section \<open>Runs\<close>

lemma parse_permitted: "m65_cli_parse argv = Inr options \<Longrightarrow> permitted options"
  by (auto simp: m65_cli_parse_def cli_requirements_iff split: list.splits if_splits sum.splits)

text \<open>The ways a run ends: refused before a device was accepted, a list, or a session on the only match.\<close>

lemma main_program_cases:
  assumes "main_program machine argv s files = Some e"
  obtains
    (usage) detail partial where "m65_cli_parse argv = Inl (detail, partial)"
      "e = ends_with 64
        (if argv_has_json argv then emit_usage_json (mh_alloc machine) detail
         else complains (''error: '' @ detail @ nl @
           m65_cli_usage (case argv of [] \<Rightarrow> ''(null)'' | program # _ \<Rightarrow> program))) files None"
  | (failed) options code device detail line where "m65_cli_parse argv = Inr options" "code \<noteq> 0"
      "e = fails machine options code device detail line files"
  | (listed) options devices where "m65_cli_parse argv = Inr options" "o_command options = CLI_LIST"
      "e = run_list machine options devices files"
  | (session) options devices d detail created where "m65_cli_parse argv = Inr options"
      "o_command options \<noteq> CLI_LIST"
      "m65_discover_devices (mh_registry machine) (mh_disks machine) = (True, devices, detail)"
      "m65_select_device (Some devices) (o_device options) = (Some d, False)"
      "m65_validate_device (Some d) = DEVICE_ACCEPTED"
      "m65_usb_cbi_transport_create (mh_usb machine) (mh_registry machine) (mh_plugins machine)
         (Some (d_bsd_name d)) [] s = Some created"
      "e = (if o_command options = CLI_INSPECT then run_inspect machine options d created files
            else run_test machine options d created files)"
proof (cases "m65_cli_parse argv")
  case (Inl failure)
  obtain detail partial where "failure = (detail, partial)" by force
  with Inl assms usage show thesis by (simp add: main_program_def)
next
  case (Inr options)
  obtain found devices detail where
    d: "m65_discover_devices (mh_registry machine) (mh_disks machine) = (found, devices, detail)"
    using prod_cases3 by blast
  note run = assms [unfolded main_program_def Inr d sum.case prod.case]
  show thesis
  proof (cases "found \<and> o_command options \<noteq> CLI_LIST")
    case False
    with run failed [OF Inr, of 4] listed [OF Inr] show thesis by (cases found) auto
  next
    case True
    obtain selected ambiguous where
      s: "m65_select_device (Some devices) (o_device options) = (selected, ambiguous)" by force
    show thesis
    proof (cases selected)
      case None
      with run True s failed [OF Inr, of 2] show thesis by (auto simp: Let_def)
    next
      case (Some x)
      with s have "ambiguous = False" by (auto simp: m65_select_device_def split: prod.splits if_splits)
      show thesis
      proof (cases "m65_validate_device (Some x) = DEVICE_ACCEPTED")
        case False
        with run True s Some have "\<exists>detail line. e = fails machine options 2 (Some x) detail line files"
          by (auto simp: Let_def)
        with failed [OF Inr, of 2] show thesis by auto
      next
        case accepted: True
        with run True s Some have "run_selected machine options x s files = Some e" by (simp add: Let_def)
        then obtain created where "m65_usb_cbi_transport_create (mh_usb machine) (mh_registry machine)
            (mh_plugins machine) (Some (d_bsd_name x)) [] s = Some created"
          "e = (if o_command options = CLI_INSPECT
            then run_inspect machine options x created files else run_test machine options x created files)"
          unfolding run_selected_def by (elim map_option_eq_Some [THEN iffD1, THEN exE]) blast
        with session [OF Inr, of devices detail x] True d s Some \<open>ambiguous = False\<close> accepted
        show thesis by simp
      qed
    qed
  qed
qed

lemma ended_sel [simp]:
  "en_exit (ends_with code shown files session) = code"
  "en_out (ends_with code shown files session) = fst (snd shown)"
  "en_files (ends_with code shown files session) = files"
  "en_session (ends_with code shown files session) = session"
  by (simp_all add: ends_with_def)

lemma run_inspect_sel [simp]: "en_files (run_inspect machine options d created files) = files"
  by (simp add: run_inspect_def Let_def split: prod.splits)

lemma fails_sel [simp]:
  "en_exit (fails machine options code d detail line files) = code"
  "en_files (fails machine options code d detail line files) = files"
  "en_session (fails machine options code d detail line files) = None"
  by (simp_all add: fails_def)

lemma run_list_sel [simp]:
  "en_files (run_list machine options devices files) = files"
  "en_session (run_list machine options devices files) = None"
  by (simp_all add: run_list_def Let_def)

text \<open>Only a successful test writes the output file.\<close>

lemma write_output_failed [simp]:
  "tr_code report \<noteq> PROBE_OK \<Longrightarrow> write_output machine options detail report files = (report, files)"
  by (simp add: write_output_def)

lemma create_failure_not_ok [simp]: "create_failure_code status \<noteq> PROBE_OK"
  by (simp add: create_failure_code_def)

lemma run_test_without_session:
  assumes "en_session (run_test machine options d created files) = None"
  shows "en_files (run_test machine options d created files) = files"
proof -
  obtain status detail transport where c: "created = (status, detail, transport)" using prod_cases3 by blast
  have "transport = None"
    using assms by (auto simp: run_test_def test_session_def c Let_def split: option.splits prod.splits)
  then show ?thesis by (simp add: run_test_def test_session_def c)
qed

lemma selected_only:
  assumes "m65_select_device (Some devices) name = (Some d, ambiguous)"
  shows "filter (selects name) devices = [d]"
proof -
  let ?m = "filter (selects name) devices"
  have "length ?m = 1" "d = last ?m"
    using assms by (auto simp: m65_select_device_def select_loop_eq split: if_splits)
  then show ?thesis by (cases ?m) auto
qed


section \<open>The image\<close>

text \<open>A test that ends OK was acknowledged, ran on a transport and has the complete image.\<close>

lemma supported_image:
  assumes "m65_test_1581 h (Some ops) ack (Some r0) w = (code, reported, w')"
  obtains r where "reported = Some r" "code = tr_code r" "tr_code r = PROBE_OK \<longleftrightarrow> tr_status r = STATUS_SUPPORTED"
    "tr_code r = PROBE_OK \<longrightarrow> tr_controller_restored r \<and> tr_repeated_reads_match r \<and>
       tr_image_length r = M65_1581_IMAGE_SIZE \<and> length (image_of r) = M65_1581_IMAGE_SIZE"
proof -
  obtain r where r: "reported = Some r" "code = tr_code r"
    using assms by (auto simp: m65_test_1581_def split: prod.splits)
  show thesis
  proof (cases ack)
    case False
    with assms r have "tr_code r = PROBE_USAGE" "tr_status r = STATUS_INCONCLUSIVE"
      by (auto simp: m65_test_1581_def test_1581_body_def initial_report_def Let_def)
    with r that show thesis by simp
  next
    case True
    with assms r have "m65_test_1581 h (Some ops) True (Some r0) w = (code, Some r, w')" by simp
    then obtain w'' where "m65_test_1581 (logged_host h) (Some (logged ops)) True (Some r0) (record_world w) = (code, Some r, w'')"
      by (rule recorded_run)
    note v = verdict_logged [OF this]
    from v r that show thesis by (auto simp: image_of_def true_verdict_def supported_report_def)
  qed
qed

lemma test_session_image:
  assumes "test_session machine options created = (r, session)"
  shows "tr_code r = PROBE_OK \<longleftrightarrow> tr_status r = STATUS_SUPPORTED"
    and "tr_code r = PROBE_OK \<Longrightarrow> session \<noteq> None \<and> tr_controller_restored r \<and> tr_repeated_reads_match r \<and>
       tr_image_length r = M65_1581_IMAGE_SIZE \<and> length (image_of r) = M65_1581_IMAGE_SIZE"
proof -
  obtain status detail transport where c: "created = (status, detail, transport)" using prod_cases3 by blast
  have "(tr_code r = PROBE_OK \<longleftrightarrow> tr_status r = STATUS_SUPPORTED) \<and>
    (tr_code r = PROBE_OK \<longrightarrow> session \<noteq> None \<and> tr_controller_restored r \<and> tr_repeated_reads_match r \<and>
       tr_image_length r = M65_1581_IMAGE_SIZE \<and> length (image_of r) = M65_1581_IMAGE_SIZE)"
  proof (cases transport)
    case None
    with assms c show ?thesis by (auto simp: test_session_def)
  next
    case (Some oc)
    obtain ops ctx where oc: "oc = (ops, ctx)" by force
    obtain code reported w where t: "m65_test_1581 (mh_probe machine) (Some ops) (o_acknowledgement options)
        (Some zero_report_1581) (session_world ctx) = (code, reported, w)" using prod_cases3 by blast
    from supported_image [OF t] obtain r' where r': "reported = Some r'" "tr_code r' = PROBE_OK \<longleftrightarrow> tr_status r' = STATUS_SUPPORTED"
      "tr_code r' = PROBE_OK \<longrightarrow> tr_controller_restored r' \<and> tr_repeated_reads_match r' \<and>
       tr_image_length r' = M65_1581_IMAGE_SIZE \<and> length (image_of r') = M65_1581_IMAGE_SIZE" by metis
    have "r = r'" "session \<noteq> None" using assms c Some oc t r'(1) by (auto simp: test_session_def)
    with r' show ?thesis by blast
  qed
  then show "tr_code r = PROBE_OK \<longleftrightarrow> tr_status r = STATUS_SUPPORTED"
    "tr_code r = PROBE_OK \<Longrightarrow> session \<noteq> None \<and> tr_controller_restored r \<and> tr_repeated_reads_match r \<and>
       tr_image_length r = M65_1581_IMAGE_SIZE \<and> length (image_of r) = M65_1581_IMAGE_SIZE" by blast+
qed

text \<open>What the file system is after the image was to be written.\<close>

definition image_stored :: "cli_options \<Rightarrow> report_1581 \<Rightarrow> files \<Rightarrow> files \<Rightarrow> bool" where
  "image_stored options r files files' \<longleftrightarrow>
     (case o_output options of
        None \<Rightarrow> files' = files
      | Some path \<Rightarrow> files path = None \<and> files' = files(path \<mapsto> image_of r))"

definition files_kept :: "files_host \<Rightarrow> files \<Rightarrow> files \<Rightarrow> bool" where
  "files_kept host files files' \<longleftrightarrow> (if fh_unlinks host then files' = files else files \<subseteq>\<^sub>m files')"

lemma files_kept_refl [simp]: "files_kept host files files"
  by (simp add: files_kept_def)

lemma write_output_outcome:
  assumes "write_output machine options detail r files = (r', files')"
    and "tr_code r = PROBE_OK \<longleftrightarrow> tr_status r = STATUS_SUPPORTED"
    and "tr_code r = PROBE_OK \<Longrightarrow> length (image_of r) \<le> tr_image_length r"
  shows "(tr_code r' = PROBE_OK \<longleftrightarrow> tr_status r' = STATUS_SUPPORTED) \<and>
    (if tr_code r' = PROBE_OK then r' = r \<and> image_stored options r files files'
     else files_kept (mh_files machine) files files')"
proof (cases "tr_code r = PROBE_OK \<and> o_output options \<noteq> None")
  case False
  with assms show ?thesis by (auto simp: write_output_def image_stored_def split: option.splits)
next
  case True
  obtain success d f where w: "write_new_image (mh_files machine) (o_output options) (image_of r)
      (tr_image_length r) detail files = (success, d, f)" using prod_cases3 by blast
  then show ?thesis
  proof (cases rule: write_new_image_cases)
    case refused
    with assms(1) True w show ?thesis by (auto simp: write_output_def)
  next
    case (partial name n)
    have "files(name := None) = files" using partial(3) by auto
    with assms(1) True w partial show ?thesis
      by (auto simp: write_output_def files_kept_def unlink_new map_le_def)
  next
    case (complete name)
    with assms True w show ?thesis by (auto simp: write_output_def image_stored_def)
  qed
qed

lemma run_test_outcome:
  obtains r where "en_exit (run_test machine options d created files) = exit_code (tr_code r)"
    "en_out (run_test machine options d created files) =
       fst (snd (if o_json options then m65_output_1581_json (mh_alloc machine) d r (o_output options)
                 else prints_text (m65_output_1581_human d r (o_output options))))"
    "tr_code r = PROBE_OK \<longleftrightarrow> tr_status r = STATUS_SUPPORTED"
    "if tr_code r = PROBE_OK
     then image_stored options r files (en_files (run_test machine options d created files)) \<and>
       tr_controller_restored r \<and> tr_repeated_reads_match r \<and> length (image_of r) = M65_1581_IMAGE_SIZE
     else files_kept (mh_files machine) files (en_files (run_test machine options d created files))"
proof -
  obtain r0 session where t: "test_session machine options created = (r0, session)" by force
  note i = test_session_image [OF t]
  obtain r f where w: "write_output machine options (fst (snd created)) r0 files = (r, f)" by force
  note o = write_output_outcome [OF w i(1)]
  have e: "run_test machine options d created files = ends_with (exit_code (tr_code r))
      (if o_json options then m65_output_1581_json (mh_alloc machine) d r (o_output options)
       else prints_text (m65_output_1581_human d r (o_output options))) f session"
    by (simp add: run_test_def t w)
  show thesis
  proof (rule that [of r])
    show "tr_code r = PROBE_OK \<longleftrightarrow> tr_status r = STATUS_SUPPORTED" using o i(2) by simp
    show "if tr_code r = PROBE_OK
     then image_stored options r files (en_files (run_test machine options d created files)) \<and>
       tr_controller_restored r \<and> tr_repeated_reads_match r \<and> length (image_of r) = M65_1581_IMAGE_SIZE
     else files_kept (mh_files machine) files (en_files (run_test machine options d created files))"
      using o i(2) by (simp add: e split: if_splits)
  qed (simp_all add: e)
qed

lemma exit_code_zero [simp]: "exit_code code = 0 \<longleftrightarrow> code = PROBE_OK"
  by (cases code) simp_all


section \<open>The JSON report\<close>

text \<open>The status a report states in its result.\<close>

definition member :: "string \<Rightarrow> jvalue \<Rightarrow> jvalue option" where
  "member name v = (case v of JObj ms \<Rightarrow> map_of ms name | _ \<Rightarrow> None)"

definition result_status :: "jvalue \<Rightarrow> string option" where
  "result_status v =
     (case Option.bind (member ''result'' v) (member ''status'') of Some (JStr s) \<Rightarrow> Some s | _ \<Rightarrow> None)"

definition states_success :: "jvalue \<Rightarrow> bool" where
  "states_success v \<longleftrightarrow> result_status v = Some ''ok'' \<or> result_status v = Some ''supported''"

lemma member_JObj [simp]: "member name (JObj ms) = map_of ms name"
  by (simp add: member_def)

lemma list_success: "states_success (list_value devices error) \<longleftrightarrow> error = None"
  by (simp add: states_success_def result_status_def list_value_def report_value_def Let_def)

lemma error_success: "\<not> states_success (error_value command dev error)"
  by (simp add: states_success_def result_status_def error_value_def report_value_def)

lemma inspect_success: "states_success (inspect_value dev report) \<longleftrightarrow> ir_code report = PROBE_OK"
  by (simp add: states_success_def result_status_def inspect_value_def report_value_def)

lemma test_success: "states_success (test_value dev report path) \<longleftrightarrow> tr_status report = STATUS_SUPPORTED"
  by (cases "tr_status report")
    (simp_all add: states_success_def result_status_def test_value_def report_value_def
      m65_1581_status_text_def)

definition one_report :: "int \<Rightarrow> string \<Rightarrow> bool" where
  "one_report code out \<longleftrightarrow> out = [] \<or>
     (\<exists>v. out = render v @ nl \<and> read_json out = Some (v, nl) \<and> (code = 0 \<longleftrightarrow> states_success v))"

lemma one_reportI:
  assumes "faithful f v" and "code = 0 \<longleftrightarrow> states_success v"
  shows "one_report code (fst (snd (f alloc)))"
  using faithful_text [OF assms(1), of alloc] assms(2)
  by (auto simp: one_report_def split: prod.splits if_splits)


end
