(* ===== verification/M65_MainBus.thy ===== *)
theory M65_MainBus
  imports M65_Bus M65_MainProps
begin

text \<open>
  What whole runs of the program send over the bus.
\<close>

interpretation quiet_session: careful_session "mac_cbi_ops (logged_usb u)" "\<lambda>m. log_allowed (mc_state m)"
    "without_handler (bus_session_host h)"
  for u :: "'s usb_host" and h :: "'s host"
  by unfold_locales (auto simp: without_handler_def dest: logged_session.signals_fine logged_session.malloc_fine)

lemma created_transport:
  assumes "m65_usb_cbi_transport_create host reg plug name detail s = Some (st, d', Some (ops, ctx))"
  shows "ops = cbi_ops (mac_cbi_ops host) \<and> cc_io ctx = initial_mac_context s"
  using assms
  by (auto simp: m65_usb_cbi_transport_create_def create_for_interface_def m65_cbi_transport_create_def
      split: option.splits if_splits prod.splits)

lemma inspect_session_logged:
  assumes c: "m65_usb_cbi_transport_create (logged_usb u) reg plug name detail (s, []) = Some created"
    and m: "mh_usb machine = logged_usb u" "mh_probe machine = bus_session_host h"
    and e: "en_session (run_inspect machine options d created files) = Some m'"
  shows "log_allowed (mc_state m')"
proof -
  obtain st det transport where t: "created = (st, det, transport)" using prod_cases3 by blast
  obtain ops ctx where o: "transport = Some (ops, ctx)"
    using e t by (cases transport) (auto simp: run_inspect_def)
  note k = created_transport [OF c [unfolded t o]]
  obtain code r w where x: "m65_inspect (without_handler (bus_session_host h)) (Some (cbi_ops (mac_cbi_ops (logged_usb u))))
      (Some zero_inspect_report) (session_world ctx) = (code, r, w)" using prod_cases3 by blast
  have "log_allowed (mc_state (cc_io (w_state w)))"
    by (rule quiet_session.inspect_sound [OF x])
      (use k in \<open>simp_all add: session_world_def log_allowed_def initial_mac_context_def\<close>)
  then have "log_allowed (mc_state (cbi_destroy (mac_cbi_ops (logged_usb u)) (w_state w)))"
    by (rule logged_bus.end_fine)
  with e t o k x m show ?thesis by (simp add: run_inspect_def)
qed

lemma test_session_logged:
  assumes c: "m65_usb_cbi_transport_create (logged_usb u) reg plug name detail (s, []) = Some created"
    and m: "mh_usb machine = logged_usb u" "mh_probe machine = bus_session_host h"
    and e: "en_session (run_test machine options d created files) = Some m'"
  shows "log_allowed (mc_state m')"
proof -
  obtain st det transport where t: "created = (st, det, transport)" using prod_cases3 by blast
  obtain ops ctx where o: "transport = Some (ops, ctx)"
    using e t by (cases transport) (auto simp: run_test_def test_session_def split: prod.splits)
  note k = created_transport [OF c [unfolded t o]]
  obtain code r w where x: "m65_test_1581 (bus_session_host h) (Some (cbi_ops (mac_cbi_ops (logged_usb u))))
      (o_acknowledgement options) (Some zero_report_1581) (session_world ctx) = (code, r, w)" using prod_cases3 by blast
  have "log_allowed (mc_state (cc_io (w_state w)))"
    by (rule logged_session.test_1581_sound [OF x])
      (use k in \<open>simp_all add: session_world_def log_allowed_def initial_mac_context_def\<close>)
  then have "log_allowed (mc_state (cbi_destroy (mac_cbi_ops (logged_usb u)) (w_state w)))"
    by (rule logged_bus.end_fine)
  with e t o k x m show ?thesis by (simp add: run_test_def test_session_def case_prod_unfold Let_def)
qed

text \<open>C4 Whatever the program is asked to do, and whatever the device, the bus and the host answer, a whole
  run puts nothing on the bus but ADSC class requests with the reset or a block of the allowlist, no
  MODE SELECT that saves pages among them, and on the bulk-OUT pipe only single Flexible Disk pages.\<close>

theorem main_bus_cautious:
  "case main_program (machine\<lparr>mh_usb := logged_usb u, mh_probe := bus_session_host h\<rparr>) argv (s, []) files of
     None \<Rightarrow> True
   | Some e \<Rightarrow>
       (case en_session e of
          None \<Rightarrow> True
        | Some m \<Rightarrow> list_all bus_allowed (snd (mc_state m)))"
proof -
  let ?machine = "machine\<lparr>mh_usb := logged_usb u, mh_probe := bus_session_host h\<rparr>"
  have "case en_session e of None \<Rightarrow> True | Some m \<Rightarrow> log_allowed (mc_state m)"
    if "main_program ?machine argv (s, []) files = Some e" for e
    using that
  proof (cases rule: main_program_cases)
    case (session options devices d detail created)
    have c: "m65_usb_cbi_transport_create (logged_usb u) (mh_registry machine) (mh_plugins machine)
        (Some (d_bsd_name d)) [] (s, []) = Some created" using session(6) by simp
    show ?thesis
      using session(7) inspect_session_logged [OF c, of ?machine h] test_session_logged [OF c, of ?machine h]
      by (auto split: option.splits if_splits)
  qed simp_all
  then show ?thesis by (auto simp: log_allowed_def split: option.splits)
qed

end
