(* ===== verification/M65_MainEnds.thy ===== *)
theory M65_MainEnds
  imports M65_MainProps M65_UsbProps
begin

text \<open>
  Every run of the program ends and leaves the adapter closed, and a simulated machine on which a run
  opens a session.
\<close>

section \<open>Destroying the adapter\<close>

definition put_away :: "'s mac_context \<Rightarrow> bool" where
  "put_away m \<longleftrightarrow> \<not> mc_open m \<and> mc_interrupt_request m = None \<and> \<not> mc_event_source m \<and> mc_run_loop m = None"

lemma release_interrupt_request_sel [simp]:
  "mc_interrupt_request (release_interrupt_request m) = None"
  "mc_open (release_interrupt_request m) = mc_open m"
  "mc_event_source (release_interrupt_request m) = mc_event_source m"
  "mc_run_loop (release_interrupt_request m) = mc_run_loop m"
  by (simp_all add: release_interrupt_request_def interrupt_request_release_def update_request_def split: option.splits)

lemma remove_event_source_sel [simp]:
  "mc_open (remove_event_source host m) = mc_open m"
  "\<not> mc_event_source (remove_event_source host m)"
  "mc_run_loop (remove_event_source host m) = None"
  by (simp_all add: remove_event_source_def Let_def split: option.splits)

lemma close_closes: "mac_close host detail m = Some (status, detail', m') \<Longrightarrow> \<not> mc_open m'"
  by (auto simp: mac_close_def Let_def case_prod_unfold split: if_splits)

lemma destroy_puts_away: "mac_destroy_io host m = Some m' \<Longrightarrow> put_away m'"
  using close_closes by (fastforce simp: mac_destroy_io_def put_away_def Let_def split: if_splits)

lemma destroy_returns: "running_clock host clock tick \<Longrightarrow> mac_destroy_io host m \<noteq> None"
  using close_returns [of host clock tick "[]" m] by (auto simp: mac_destroy_io_def)

lemma session_put_away:
  assumes "running_clock host clock tick" shows "put_away (cbi_destroy (mac_cbi_ops host) ctx)"
proof -
  obtain m where "mac_destroy_io host
      (if cc_opened ctx then snd (snd (io_close (mac_cbi_ops host) [] (cc_io ctx))) else cc_io ctx) = Some m"
    using destroy_returns [OF assms] by blast
  with destroy_puts_away [OF this] show ?thesis
    by (simp add: cbi_destroy_def mac_cbi_ops_def split: if_splits)
qed

section \<open>Every run ends\<close>

text \<open>A registry whose entries have a depth, such as one without cycles.\<close>

definition grounded :: "'e registry \<Rightarrow> ('e \<Rightarrow> nat) \<Rightarrow> bool" where
  "grounded reg depth \<longleftrightarrow> (\<forall>e. case rg_parent reg e of None \<Rightarrow> True | Some p \<Rightarrow> depth p < depth e)"

lemma walk_returns:
  assumes "grounded reg depth" shows "walk_to_interface reg current \<noteq> None"
proof (cases current)
  case None
  then show ?thesis by (subst walk_to_interface.simps) simp
next
  case (Some e)
  have "walk_to_interface reg (Some e) \<noteq> None" for e
  proof (induction "depth e" arbitrary: e rule: less_induct)
    case less
    show ?case
    proof (cases "rg_parent reg e")
      case None
      then show ?thesis by (subst walk_to_interface.simps) (subst walk_to_interface.simps, simp)
    next
      case (Some p)
      then have "depth p < depth e" using assms by (auto simp: grounded_def split: option.splits dest: spec [of _ e])
      with less Some show ?thesis by (subst walk_to_interface.simps) simp
    qed
  qed
  with Some show ?thesis by simp
qed

lemma create_returns:
  "grounded reg depth \<Longrightarrow> m65_usb_cbi_transport_create host reg plug name detail s \<noteq> None"
  using walk_returns [of reg depth]
  by (simp add: m65_usb_cbi_transport_create_def copy_usb_interface_for_bsd_name_def split: option.split
      del: not_None_eq)

lemma main_returns:
  assumes "grounded (mh_registry machine) depth" shows "main_program machine argv s files \<noteq> None"
proof -
  have "run_selected machine options d s files \<noteq> None" for options d
    using create_returns [OF assms] by (simp add: run_selected_def del: not_None_eq)
  then show ?thesis
    by (simp add: main_program_def Let_def del: not_None_eq split: sum.split prod.split bool.split option.split)
qed

lemma sessions_put_away:
  assumes "running_clock (mh_usb machine) clock tick"
  shows "case en_session (run_inspect machine options d created files) of None \<Rightarrow> True | Some m \<Rightarrow> put_away m"
    and "case en_session (run_test machine options d created files) of None \<Rightarrow> True | Some m \<Rightarrow> put_away m"
  using session_put_away [OF assms]
  by (auto simp: run_inspect_def run_test_def test_session_def Let_def split: prod.splits option.splits)


section \<open>A simulated machine\<close>

text \<open>The medium \<open>disk4\<close> behind the known interface.\<close>

definition sim_registry :: "nat registry" where
  "sim_registry =
     \<lparr>rg_bsd_matching = (\<lambda>_. True), rg_bsd_service = (\<lambda>name. if name = ''disk4'' then Some 0 else None),
      rg_parent = (\<lambda>e. if e = 0 then Some 1 else None),
      rg_property = (\<lambda>e key.
        if e = 0 then (if key = BSDName then Some (CFString ''disk4'') else None)
        else (case key of
                USBInterfaceClass \<Rightarrow> Some (CFNumber 8) | USBInterfaceSubClass \<Rightarrow> Some (CFNumber 4)
              | USBInterfaceProtocol \<Rightarrow> Some (CFNumber 0) | USBVendorID \<Rightarrow> Some (CFNumber 0x644)
              | USBProductID \<Rightarrow> Some (CFNumber 0)
              | IOCFPlugInTypes \<Rightarrow> Some (CFDictionary [(CFString ''usb'', CFOther)])
              | _ \<Rightarrow> None)),
      rg_search_property = (\<lambda>_ key.
        if key = USBVendorID then Some (CFNumber 0x644) else if key = USBProductID then Some (CFNumber 0)
        else if key = USBProductString then Some (CFString ''TEAC FD-05PUB'') else None),
      rg_same_text = (=), rg_usb_interface_type = Some ''usb'', rg_scsi_task_type = None\<rparr>"

definition sim_disks :: "nat disk_host" where
  "sim_disks =
     \<lparr>dh_session = True, dh_matching = True, dh_media = (0, [0]), dh_name = (\<lambda>_. None), dh_path = (\<lambda>_. None),
      dh_description = (\<lambda>_. Some (\<lambda>key. case key of
          DADeviceInternal \<Rightarrow> Some (CFBoolean False) | DAMediaRemovable \<Rightarrow> Some (CFBoolean True)
        | DAMediaWhole \<Rightarrow> Some (CFBoolean True) | DAMediaSize \<Rightarrow> Some (CFNumber 819200)
        | DAMediaBlockSize \<Rightarrow> Some (CFNumber 512) | DAVolumePath \<Rightarrow> None)),
      dh_access = (\<lambda>_. (True, 0))\<rparr>"

definition sim_machine :: "(sim_usb, nat) machine" where
  "sim_machine =
     \<lparr>mh_registry = sim_registry, mh_disks = sim_disks,
      mh_plugins = \<lparr>ph_create_plugin = (\<lambda>_. (IOReturnSuccess, True)), ph_query_interface = (\<lambda>_. (S_OK, True)),
        ph_io_allocated = True, ph_context_allocated = True, ph_transport_allocated = True,
        ph_engine_allocated = True\<rparr>,
      mh_usb = sim_host,
      mh_probe = \<lparr>h_signals = Pair False, h_malloc = (\<lambda>n. Pair (Some (zeroed n))), h_stack_block = zeroed 512\<rparr>,
      mh_files = \<lparr>fh_open_error = (\<lambda>_. None), fh_write = (\<lambda>_ n. Inr n), fh_close_error = None, fh_unlinks = True,
        fh_strerror = (\<lambda>_. [])\<rparr>,
      mh_alloc = (\<lambda>_. True)\<rparr>"

definition sim_device :: device_info where
  "sim_device = zero_device\<lparr>d_bsd_name := ''disk4'', d_raw_path := ''/dev/rdisk4'', d_usb_product := ''TEAC FD-05PUB'',
     d_product_revision := ''0x0000'', d_usb_vid := 0x644, d_known_controller := True, d_media_present := True,
     d_external := True, d_removable := True, d_whole := True, d_capacity_bytes := 819200, d_block_size := 512,
     d_readable := True\<rparr>"

lemma sim_discovers: "m65_discover_devices sim_registry sim_disks = (True, [sim_device], [])"
  by code_simp

lemma sim_selects:
  "m65_select_device (Some [sim_device]) (Some ''disk4'') = (Some sim_device, False)"
  "m65_validate_device (Some sim_device) = DEVICE_ACCEPTED"
  by code_simp+

lemma sim_walks: "walk_to_interface sim_registry (Some 0) = Some (Some 1)"
proof -
  have "is_known_ufi_cbi_interface sim_registry 1" "\<not> is_known_ufi_cbi_interface sim_registry 0"
    by code_simp+
  then show ?thesis
    by (subst walk_to_interface.simps, subst walk_to_interface.simps) (simp add: sim_registry_def)
qed

lemma sim_creates:
  "m65_usb_cbi_transport_create sim_host sim_registry (mh_plugins sim_machine) (Some (d_bsd_name sim_device)) [] s =
     Some (TRANSPORT_OK, [], Some (cbi_ops (mac_cbi_ops sim_host), \<lparr>cc_io = initial_mac_context s, cc_opened = False,
       cc_recovery_required = False, cc_recovery_detail = []\<rparr>))"
proof -
  have "normalize_name (Some (d_bsd_name sim_device)) = Some ''disk4''" by code_simp
  moreover have "rg_bsd_matching sim_registry name" "rg_bsd_service sim_registry ''disk4'' = Some 0" for name
    by (simp_all add: sim_registry_def)
  ultimately show ?thesis
    by (simp add: m65_usb_cbi_transport_create_def copy_usb_interface_for_bsd_name_def sim_walks
        create_for_interface_def sim_machine_def m65_cbi_transport_create_def)
qed

lemma session_opened:
  "en_session (run_inspect machine options d (status, detail, Some oc) files) \<noteq> None"
  by (cases oc) (simp add: run_inspect_def case_prod_unfold Let_def)

lemma sim_run:
  "\<exists>e. main_program sim_machine [''m65'', ''inspect'', ''--device'', ''disk4''] s Map.empty = Some e \<and> en_session e \<noteq> None"
proof -
  let ?o = "zero_options\<lparr>o_command := CLI_INSPECT, o_device := Some ''disk4''\<rparr>"
  have p: "m65_cli_parse [''m65'', ''inspect'', ''--device'', ''disk4''] = Inr ?o" by code_simp
  have m: "mh_registry sim_machine = sim_registry" "mh_disks sim_machine = sim_disks" "mh_usb sim_machine = sim_host"
    by (simp_all add: sim_machine_def)
  have o: "o_command ?o = CLI_INSPECT" "o_device ?o = Some ''disk4''" by simp_all
  have "main_program sim_machine [''m65'', ''inspect'', ''--device'', ''disk4''] s Map.empty =
      run_selected sim_machine ?o sim_device s Map.empty"
    unfolding main_program_def p m sum.case sim_discovers prod.case bool.case o sim_selects
    by (simp add: sim_selects Let_def)
  then show ?thesis
    using session_opened by (simp add: run_selected_def m sim_creates del: not_None_eq)
qed


end
