(* ===== verification/M65_MainRestores.thy ===== *)
theory M65_MainRestores
  imports M65_BusSim M65_MainBus M65_MainEnds M65_TestProps
begin

text \<open>
  Restoration on the bus: the commands of a 1581 test (\<open>src/probe.c\<close>) matched with what the transport
  and the adapter wrote, for the session of the program (\<open>src/main.c\<close>).
\<close>

section \<open>Commands and writes\<close>

text \<open>The writes a run of commands may have made: each command that carries data wrote it or not, and
  did when its result is good.\<close>

inductive delivered :: "event list \<Rightarrow> bytes list \<Rightarrow> bool" where
  start: "delivered [] []"
| access: "delivered es ws \<Longrightarrow> (case e of Executed c r \<Rightarrow> False | _ \<Rightarrow> True) \<Longrightarrow> delivered (es @ [e]) ws"
| silent: "delivered es ws \<Longrightarrow> \<not> (c_direction c = DATA_OUT \<and> command_good r) \<Longrightarrow> delivered (es @ [Executed c r]) ws"
| wrote: "delivered es ws \<Longrightarrow> c_direction c = DATA_OUT \<Longrightarrow> delivered (es @ [Executed c r]) (ws @ [command_data c])"

lemma delivered_execute:
  assumes "delivered es ws"
    and "if c_direction c = DATA_OUT then ws' = ws @ [command_data c] \<or> \<not> command_good r \<and> ws' = ws else ws' = ws"
  shows "delivered (es @ [Executed c r]) ws'"
  using assms delivered.silent [OF assms(1), of c r] delivered.wrote [OF assms(1), of c r] by (auto split: if_splits)

inductive_cases delivered_released: "delivered (es @ [Released st]) ws"
inductive_cases delivered_executed: "delivered (es @ [Executed c r]) ws"

lemma delivered_writes: "delivered es ws \<Longrightarrow> writes_of es = [] \<Longrightarrow> ws = []"
  by (induction rule: delivered.induct) (auto split: event.splits)

lemma delivered_last:
  assumes "delivered (es @ [Executed c r, Released st]) ws" "c_direction c = DATA_OUT" "command_good r"
  shows "ws \<noteq> [] \<and> last ws = command_data c"
proof -
  have "delivered ((es @ [Executed c r]) @ [Released st]) ws" using assms(1) by simp
  then have "delivered (es @ [Executed c r]) ws" by (rule delivered_released) auto
  then show ?thesis by (rule delivered_executed) (use assms(2,3) in auto)
qed

text \<open>Over an adapter that writes only in its bulk-OUT transfers every session keeps the match.\<close>

context writing_io begin

definition matched :: "'s cbi_context \<times> event list \<Rightarrow> bool" where
  "matched sl \<longleftrightarrow> delivered (snd sl) (written (fst sl))"

lemma matched_session:
  assumes "\<And>c b c'. h_signals host c = (b, c') \<Longrightarrow> written c' = written c"
    and "\<And>n c x c'. h_malloc host n c = (x, c') \<Longrightarrow> written c' = written c"
  shows "probe_session (logged (cbi_ops io)) matched (logged_host host)"
proof unfold_locales
  fix c and sl sl' :: "'s cbi_context \<times> event list" and r b
  assume "execute (logged (cbi_ops io)) c sl = (r, b, sl')" "matched sl"
  then show "matched sl'"
    using execute_writes [of c "fst sl" r b "fst sl'"] delivered_execute [of "snd sl" "written (fst sl)" c _ r]
    by (auto simp: logged_execute cbi_ops_def matched_def writes_data_def split: prod.splits)
next
  fix sl sl' :: "'s cbi_context \<times> event list" and d st d'
  assume "acquire_exclusive (logged (cbi_ops io)) d sl = (st, d', sl')" "matched sl"
  then show "matched sl'"
    using acquire_written [of d "fst sl" st d' "fst sl'"]
    by (auto simp: logged_acquire cbi_ops_def matched_def intro!: delivered.access split: prod.splits)
next
  fix sl sl' :: "'s cbi_context \<times> event list" and d st d'
  assume "release_exclusive (logged (cbi_ops io)) d sl = (st, d', sl')" "matched sl"
  then show "matched sl'"
    using release_written [of d "fst sl" st d' "fst sl'"]
    by (auto simp: logged_release cbi_ops_def matched_def intro!: delivered.access split: prod.splits)
qed (auto simp: logged_host_def matched_def dest!: assms split: prod.splits)

end

section \<open>The session of the program\<close>

lemma test_session_run:
  assumes "test_session machine options created = (r, Some m)"
  obtains st det ops ctx code reported w where "created = (st, det, Some (ops, ctx))"
    "m65_test_1581 (mh_probe machine) (Some ops) (o_acknowledgement options) (Some zero_report_1581) (session_world ctx) =
       (code, reported, w)"
    "r = (case reported of Some r \<Rightarrow> r | None \<Rightarrow> zero_report_1581)" "m = cbi_destroy (mac_cbi_ops (mh_usb machine)) (w_state w)"
  using assms by (cases created) (auto simp: test_session_def Let_def split: option.splits prod.splits)

lemma bus_host_signals: "signals_during_commands h \<Longrightarrow> signals_during_commands (bus_session_host h)"
  by (simp add: signals_during_commands_def bus_session_host_def case_prod_unfold Let_def)

lemma bus_host_clear:
  "mac_written (cc_io (w_state (m65_probe_clear_interrupt (bus_session_host h) w))) = mac_written (cc_io (w_state w))"
  by (simp add: m65_probe_clear_interrupt_def m65_probe_request_interrupt_def deliver_signals_def bus_session_host_def
      case_prod_unfold Let_def)

interpretation matched_run: probe_session "logged (cbi_ops (mac_cbi_ops (logged_usb u)))" "mac_writes.matched"
    "logged_host (bus_session_host h)"
  for u :: "'s usb_host" and h :: "'s host"
  by (rule mac_writes.matched_session) (auto simp: bus_session_host_def Let_def split: prod.splits)

lemma test_restores_on_bus:
  fixes u :: "'s usb_host"
  assumes run: "m65_test_1581 (bus_session_host h) (Some (cbi_ops (mac_cbi_ops (logged_usb u)))) True (Some r0) w = (code, Some r, w')"
    and start: "mac_written (cc_io (w_state w)) = []" and signals: "signals_during_commands h"
    and some: "mac_written (cc_io (w_state w')) \<noteq> []"
  shows "if tr_controller_restored r
    then m65_build_mode_select_payload (tr_original r) 40 = Inr (last (mac_written (cc_io (w_state w'))))
    else tr_status r = STATUS_INCONCLUSIVE \<and> tr_code r \<noteq> PROBE_OK"
proof -
  obtain v where v: "m65_test_1581 (logged_host (bus_session_host h)) (Some (logged (cbi_ops (mac_cbi_ops (logged_usb u)))))
      True (Some r0) (record_world w) = (code, Some r, v)" "erase v = w'"
    using recorded_run [OF run] by blast
  have "mac_writes.matched (w_state (record_world w))"
    using start by (simp add: mac_writes.matched_def record_world_def delivered.start)
  from matched_run.test_1581_sound [OF v(1) this] have m: "delivered (trace v) (mac_written (cc_io (w_state w')))"
    using v(2) by (auto simp: mac_writes.matched_def trace_def)
  have "writes_of (trace v) \<noteq> writes_of (trace (record_world w))"
    using delivered_writes [OF m] some by (auto simp: trace_def record_world_def)
  from restores_logged [OF bus_host_signals [OF signals] v(1) this] obtain before c result st where
    t: "trace v = before @ [Executed c result, Released st]" "[request_of c] = select_plan (tr_original r)"
      "c_direction c = DATA_OUT" "tr_controller_restored r \<longleftrightarrow> command_good result"
      "if command_good result then True else code \<noteq> PROBE_OK \<and> tr_status r = STATUS_INCONCLUSIVE" by blast
  have "m65_build_mode_select_payload (tr_original r) 40 = Inr (command_data c)"
    using t(2,3) by (auto simp: select_plan_def request_of_def plan_of_def command_data_def split: sum.splits)
  moreover have "code = tr_code r" by (rule verdict_logged(1) [OF v(1)])
  ultimately show ?thesis using t delivered_last [of before c result st] m by auto
qed

text \<open>C5 In a session of the 1581 test, once anything was written over the bus the last data written is
  the payload of the page the report holds as the original when the report says it was restored; when
  it says it was not, the report is inconclusive and the code is an error. Signals may arrive during any
  operation, as for the test itself.\<close>

theorem session_restores_on_bus:
  assumes "signals_during_commands h"
    and "m65_usb_cbi_transport_create (logged_usb u) reg plug name detail (s, []) = Some created"
    and "test_session (machine\<lparr>mh_usb := logged_usb u, mh_probe := bus_session_host h\<rparr>) options created = (r, Some m)"
  shows "bus_writes (snd (mc_state m)) = [] \<or>
    (if tr_controller_restored r
     then m65_build_mode_select_payload (tr_original r) 40 = Inr (last (bus_writes (snd (mc_state m))))
     else tr_status r = STATUS_INCONCLUSIVE \<and> tr_code r \<noteq> PROBE_OK)"
proof -
  obtain st det ops ctx code reported w where c: "created = (st, det, Some (ops, ctx))"
    and x: "m65_test_1581 (bus_session_host h) (Some ops) (o_acknowledgement options) (Some zero_report_1581) (session_world ctx) =
       (code, reported, w)"
    and r: "r = (case reported of Some r \<Rightarrow> r | None \<Rightarrow> zero_report_1581)"
    and m: "m = cbi_destroy (mac_cbi_ops (logged_usb u)) (w_state w)"
    by (rule test_session_run [OF assms(3)]) simp_all
  note k = created_transport [OF assms(2) [unfolded c]]
  have start: "mac_written (cc_io (w_state (session_world ctx))) = []"
    using k by (simp add: session_world_def initial_mac_context_def)
  have out: "mac_written m = mac_written (cc_io (w_state w))" unfolding m by (rule mac_writes.end_written)
  show ?thesis
  proof (cases "o_acknowledgement options")
    case True
    obtain r' where "reported = Some r'" using x by (auto simp: m65_test_1581_def split: prod.splits)
    with x True k r have "m65_test_1581 (bus_session_host h) (Some (cbi_ops (mac_cbi_ops (logged_usb u)))) True
        (Some zero_report_1581) (session_world ctx) = (code, Some r, w)" by simp
    from test_restores_on_bus [OF this start assms(1)] show ?thesis unfolding out by blast
  next
    case False
    with x have "w = m65_probe_clear_interrupt (bus_session_host h) (session_world ctx)"
      by (auto simp: m65_test_1581_def test_1581_body_def Let_def)
    then have "mac_written (cc_io (w_state w)) = []"
      using start by (simp add: bus_host_clear)
    then show ?thesis unfolding out by simp
  qed
qed

section \<open>The session with the simulated controller\<close>

definition desk_machine :: "(desk \<times> bus_event list, nat) machine" where
  "desk_machine =
     \<lparr>mh_registry = sim_registry, mh_disks = sim_disks, mh_plugins = mh_plugins sim_machine,
      mh_usb = logged_usb desk_host, mh_probe = desk_session, mh_files = mh_files sim_machine,
      mh_alloc = (\<lambda>_. True)\<rparr>"

definition desk_created :: "(desk \<times> bus_event list) created" where
  "desk_created = (TRANSPORT_OK, [], Some (cbi_ops desk_io, desk_ctx))"

lemma desk_creates:
  "m65_usb_cbi_transport_create (logged_usb desk_host) sim_registry (mh_plugins sim_machine) (Some ''disk4'') []
     (\<lparr>dk_clock = 0, dk_block = [], dk_outstanding = []\<rparr>, []) = Some desk_created"
proof -
  have "normalize_name (Some ''disk4'') = Some ''disk4''" by code_simp
  moreover have "rg_bsd_matching sim_registry name" "rg_bsd_service sim_registry ''disk4'' = Some 0" for name
    by (simp_all add: sim_registry_def)
  ultimately show ?thesis
    by (simp add: m65_usb_cbi_transport_create_def copy_usb_interface_for_bsd_name_def sim_walks
        create_for_interface_def sim_machine_def m65_cbi_transport_create_def desk_created_def desk_ctx_def)
qed

lemma desk_test_session:
  obtains r m d e where
    "test_session (desk_machine\<lparr>mh_usb := logged_usb desk_host, mh_probe := desk_session\<rparr>)
       (zero_options\<lparr>o_acknowledgement := True\<rparr>) desk_created = (r, Some m)" "tr_controller_restored r"
    "m65_build_mode_select_payload initial_structure 40 = Inr e" "bus_writes (snd (mc_state m)) = [d, e]"
proof -
  obtain code r w d e where x: "m65_test_1581 desk_session (Some (cbi_ops desk_io)) True (Some zero_report_1581)
      (session_world desk_ctx) = (code, Some r, w)" "tr_controller_restored r"
    "m65_build_mode_select_payload initial_structure 40 = Inr e" "mac_written (cc_io (w_state w)) = [d, e]"
    by (rule desk_run)
  let ?m = "cbi_destroy desk_io (w_state w)"
  have "mac_written ?m = [d, e]" using x(4) by (simp add: mac_writes.end_written)
  then show thesis using that [of r ?m e d] x(1-3) by (simp add: test_session_def desk_created_def desk_machine_def)
qed

theorem session_restores_on_bus_witness:
  "\<exists>r m d. test_session (desk_machine\<lparr>mh_usb := logged_usb desk_host, mh_probe := desk_session\<rparr>)
       (zero_options\<lparr>o_acknowledgement := True\<rparr>) desk_created = (r, Some m) \<and>
     bus_writes (snd (mc_state m)) = [d, last (bus_writes (snd (mc_state m)))] \<and>
     m65_build_mode_select_payload (tr_original r) 40 = Inr (last (bus_writes (snd (mc_state m))))"
proof -
  obtain r m d e where t: "test_session (desk_machine\<lparr>mh_usb := logged_usb desk_host, mh_probe := desk_session\<rparr>)
       (zero_options\<lparr>o_acknowledgement := True\<rparr>) desk_created = (r, Some m)" "tr_controller_restored r"
    "bus_writes (snd (mc_state m)) = [d, e]" by (rule desk_test_session)
  have "signals_during_commands desk_probe"
    by (simp add: signals_during_commands_def desk_probe_def)
  from session_restores_on_bus [OF this desk_creates t(1)] t show ?thesis by simp
qed

end
