(* ===== verification/Spec2Isabelle.thy ===== *)
theory Spec2Isabelle
  imports M65_LayoutOrder M65_Device M65_UfiProps M65_TestProps M65_InspectProps M65_LateSignal
    M65_CbiProps M65_UsbProps M65_Scsi M65_MainRestores
begin

text \<open>
  A model of \<open>mega65-disk-utility\<close>, a macOS command-line program that talks to a USB floppy
  controller (UFI over Control/Bulk/Interrupt) and finds out whether the controller can read
  1581 disks. The question is answered by changing the controller's Flexible Disk mode page,
  reading the whole disk twice and putting the page back; what makes the program correct is that
  it sends nothing else, that it puts the page back on every path, and that it reports what
  happened.

  \<^bold>\<open>The parts and how they interact.\<close> \<open>main.c\<close> parses the command line (\<open>cli.c\<close>), discovers the
  devices (\<open>discovery_macos.c\<close>), selects and validates one (\<open>device.c\<close>), makes a transport for it
  (\<open>usb_cbi_macos.c\<close>), runs the inspection or the 1581 test on it (\<open>probe.c\<close>), writes the output
  file and prints the report (\<open>output.c\<close> on \<open>json.c\<close>). The probe knows a transport only by the
  operations of \<open>transport.h\<close>; \<open>cbi.c\<close> implements them over the adapter operations of \<open>cbi.h\<close>, and
  \<open>usb_cbi_macos.c\<close> implements those over IOUSBLib. \<open>scsi_macos.c\<close> is a second transport over
  SCSITaskLib. Every command passes \<open>m65_validate_command\<close> of \<open>ufi.c\<close> before it reaches a device.

  \<^bold>\<open>Theories.\<close> Each model theory has the definitions of one source file under the source's names
  (the prefix \<open>M65_\<close> of a type or constant is dropped where HOL has no clash).

    \<^item> \<open>M65_Prelude\<close>: the C integer types as words, byte buffers as lists, C strings with the
      truncation of \<open>snprintf\<close>, the collections of simplification rules.
    \<^item> \<open>M65_Bytes\<close> (\<open>bytes.c\<close>), \<open>M65_Types\<close> (\<open>types.h\<close>), \<open>M65_Layout\<close> (\<open>layout.c\<close>; the
      order of its addresses in \<open>M65_LayoutOrder\<close>), \<open>M65_Device\<close>
      (\<open>device.c\<close>, identity
      and selection of \<open>discovery_macos.c\<close>), \<open>M65_Cli\<close> (\<open>cli.c\<close>).
    \<^item> \<open>M65_Ufi\<close> (\<open>ufi.c\<close>): command blocks, parsers, mode pages, command validation; their
      properties in \<open>M65_UfiProps\<close>.
    \<^item> \<open>M65_Transport\<close> (\<open>transport.h\<close>): the operation table as the record \<open>transport_ops\<close> over a
      state of its own type, and the contract of its operations.
    \<^item> \<open>M65_Probe\<close>, \<open>M65_Test1581\<close> (\<open>probe.c\<close>): the interrupt flag and the transport state are the
      record \<open>world\<close>; the stages of \<open>m65_test_1581\<close> up to its label \<open>cleanup\<close> are functions on the
      record \<open>test_run\<close> (the C locals), run in order until one stops; the clean-up follows always.
      \<open>M65_ProbeTrace\<close> records the calls, \<open>M65_Erase\<close> shows that recording changes nothing,
      \<open>M65_ProbeClient\<close> says what the probe keeps over a sound transport, \<open>M65_TestRuns\<close> and
      \<open>M65_TestBasis\<close> carry the assertions between the stages; the properties are in
      \<open>M65_TestProps\<close>, \<open>M65_InspectProps\<close> and \<open>M65_LateSignal\<close>.
    \<^item> \<open>M65_Fake\<close>, \<open>M65_FakeRuns\<close>: the simulated controller of \<open>tests/fake_transport.c\<close>, the
      concrete transport of the witnesses.
    \<^item> \<open>M65_Cbi\<close> (\<open>cbi.c\<close>): exchanges, sense retrieval and the command-block reset over the record
      \<open>cbi_io\<close>; its facts in \<open>M65_CbiBasis\<close>, the calls it makes in \<open>M65_CbiTrace\<close>, the properties in
      \<open>M65_CbiProps\<close>.
    \<^item> \<open>M65_UsbCbi\<close> (\<open>usb_cbi_macos.c\<close>): endpoints, the pending completion request with its reference
      count, the modes and the adapter's operations over the record \<open>usb_host\<close>; \<open>M65_Registry\<close> has
      the search of the I/O Registry at the end of that file. \<open>M65_UsbBasis\<close>, \<open>M65_UsbRequests\<close>,
      \<open>M65_UsbModes\<close> hold the facts, \<open>M65_UsbSim\<close> a simulated bus, \<open>M65_UsbProps\<close> the properties.
    \<^item> \<open>M65_Scsi\<close> (\<open>scsi_macos.c\<close>), \<open>M65_Discovery\<close> (\<open>discovery_macos.c\<close>).
    \<^item> \<open>M65_Json\<close> (\<open>json.c\<close>): the writer over an allocator; \<open>M65_JsonRefine\<close>, \<open>M65_JsonProps\<close> and
      \<open>M65_JsonParse\<close> relate it to JSON values, their text and a reader. \<open>M65_Output\<close> (\<open>output.c\<close>):
      the reports as calls on the writer and as text; \<open>M65_OutputRefine\<close>, \<open>M65_OutputValues\<close> and
      \<open>M65_OutputProps\<close> say which value each report is.
    \<^item> \<open>M65_Files\<close> and \<open>M65_Main\<close> (\<open>main.c\<close>): the output file over a map from paths to contents, and
      the program over one \<open>machine\<close>, the record of everything outside; a run is an \<open>ended\<close> record
      (exit code, both output streams, files, the adapter left behind). \<open>M65_Careful\<close>, \<open>M65_Bus\<close> and
      \<open>M65_MainBus\<close> follow what a run sends down to the bus; \<open>M65_Writes\<close> and \<open>M65_MainRestores\<close>
      match the commands of a test with what the bus was given, and \<open>M65_BusSim\<close> is a controller
      behind the bus on which the whole stack runs; \<open>M65_MainProps\<close> and \<open>M65_MainEnds\<close> hold the
      other properties of whole runs.

  \<^bold>\<open>Conventions.\<close> A function that writes through pointers returns the new values; a detail buffer is
  a string cut at its capacity. A \<open>bool\<close> result with a detail text is a sum or an option; a status
  code is a datatype. The \<open>void *context\<close> of an operation table is the state the record's functions
  pass on. A signal is delivered where the flag is accessed, by the host's function \<open>h_signals\<close>,
  so that every interleaving of signals with the accesses is a host.

  \<^bold>\<open>Interfaces.\<close> \<open>transport_contract\<close> (what \<open>acquire\<close>, \<open>execute\<close> and \<open>release\<close> promise) holds of the
  CBI transport over every adapter and of the simulated controller. \<open>probe_keeper\<close> and
  \<open>probe_session\<close> are what a property needs to be kept by the probe's commands and by a whole
  session; \<open>probe_client\<close> extends the contract with a property that commands keep as long as they are
  valid, with a \<open>sublocale\<close> to \<open>probe_session\<close>: the probe is verified once inside them.
  \<open>careful_io\<close> and \<open>careful_session\<close> state the same of an adapter and of a session over it, with a
  \<open>sublocale\<close> to \<open>probe_client\<close>; \<open>quiet_bus\<close> and \<open>careful_bus\<close> state it of a USB bus, with a
  \<open>sublocale\<close> to \<open>careful_io\<close>. The interpretation on the bus that logs every request gives the
  theorem on whole runs \<open>main_bus_cautious\<close>. \<open>writing_io\<close> is an adapter that writes only in its
  bulk-OUT transfers; the transport over it writes the data of its commands. \<open>be_codec\<close> holds the laws of
  the two big-endian codecs.

  \<^bold>\<open>What is shown.\<close>
    \<^item> Whole runs: what reaches the bus (C4), that what was written last is the original page (C5), what
      the output file holds (C6), when a session is opened (C7), that the JSON report and the exit code
      agree (C8), that a run ends and leaves the adapter closed (C9).
    \<^item> The 1581 test: the original page goes back (C1), the commands are those of a plan (C2), what
      the verdict means (C3), that a conforming controller is accepted (C10); the inspection only
      reads (C11). C40 is a run in which a second signal defeats the restoration.
    \<^item> The transport: validated blocks only, recovery before anything else, status and recovery
      agree, what a good result means, the interface is given back (C12 to C16).
    \<^item> The USB adapter: synchronisation, ownership of the completion request, the gate before a
      command block, returning waits, refinement of the transport's recovery, endpoints (C17 to C23).
    \<^item> Discovery, SCSI tasks and selection (C24 to C26, C35).
    \<^item> The UFI layer: what validation admits, parsers that stay inside the response, round trips of
      mode pages, the changeability mask (C27 to C32); the disk layout (C33, C34).
    \<^item> The writer and the reports: every finished text is one JSON value and reads back as the report
      (C36, C38, C39); the command line against a table of permitted combinations (C37).

  \<^bold>\<open>Loops and partiality.\<close> The image and descriptor loops are recursions with a measure. Four loops
  may run forever in the code and are \<open>partial_function\<close>s whose value None is not returning: the
  wait for the completion interrupt (\<open>wait_loop\<close>), the two walks up the I/O Registry
  (\<open>walk_to_interface\<close>, \<open>copy_task_interface\<close>) and the doubling of the writer's buffer
  (\<open>grow_capacity\<close>, which does not end for capacity 0 only). The wait ends when the clock runs
  (\<open>running_clock\<close>: no reading sets it back and each pass of the run loop advances it
  by a fixed amount at least), the walks when no entry is its own ancestor (\<open>grounded\<close>), the doubling since an
  initialised writer has capacity 256. Inside the operation table a wait that does not return is
  the adapter left as it was (\<open>returned\<close>); C20 shows that the case does not arise with a running
  clock. No fuel is used.

  \<^bold>\<open>Parameters.\<close> IOUSBLib and the run loop (\<open>usb_host\<close>), the I/O Registry (\<open>registry\<close>), plug-in
  interfaces (\<open>plugin_host\<close>), SCSITaskLib (\<open>scsi_host\<close>), Disk Arbitration (\<open>disk_host\<close>), the
  allocator, and open, write and close of a file (\<open>files_host\<close>) are records of functions; nothing is
  assumed of them but the two hypotheses above and, for C1 and C5, that signals arrive during the
  operations of a transport and not between them (\<open>signals_during_commands\<close>).

  \<^bold>\<open>Not modelled.\<close>
    \<^item> Reference counts of registry and Core Foundation objects, which no result depends on (those of
      interrupt requests are modelled).
    \<^item> Failures of \<open>printf\<close> and \<open>fprintf\<close>; the streams are strings.
    \<^item> Another process that changes the output file during the run, and signals outside the handlers.
    \<^item> NULL result pointers, which no caller passes, and the helper \<open>set_detail\<close>, which each source
      file repeats and the prelude has once.
    \<^item> The other test programs under \<open>tests/\<close>, the build files and \<open>docs/\<close>.
\<close>

end
